(* ===== verification/SfuBase.thy ===== *)
theory SfuBase
  imports Main "HOL-Library.Word" "HOL-Library.AList" "HOL-Library.Sublist" "HOL-Library.Multiset"
begin

text \<open>
  Shared vocabulary of the development: the machine types, the faults a C++ run can end in,
  the part of \<^verbatim>\<open>std::string\<close>, \<^verbatim>\<open>std::unordered_map\<close> and the C number conversions the program
  uses, and the generic lemmas on them that the components rely on.

  A byte is an 8-bit word, a buffer (a pointer with a length) is a list of bytes, text is a
  HOL string. A computation that can crash returns \<open>fault + 'a\<close>: \<open>Inl\<close> is the crash, \<open>Inr\<close>
  the normal result, so a null dereference, an out-of-range access, an uncaught exception and
  a loop that never ends are all values of the model.
\<close>

unbundle bit_operations_syntax

named_theorems res_simps
named_theorems byte_simps
named_theorems str_simps

section \<open>Types\<close>

type_synonym byte = "8 word"
type_synonym bytes = "8 word list"
type_synonym u16 = "16 word"
type_synonym u32 = "32 word"
type_synonym u64 = "64 word"

datatype fault =
    NullDeref
  | OutOfBounds
  | UncaughtException
  | AssertFailed
  | Diverges
  | Uninitialised
  | StalePointer
  | DivideByZero

type_synonym 'a res = "fault + 'a"

abbreviation ok :: "'a \<Rightarrow> 'a res" where
  "ok \<equiv> Inr"

abbreviation crash :: "fault \<Rightarrow> 'a res" where
  "crash \<equiv> Inl"

definition res_bind :: "'a res \<Rightarrow> ('a \<Rightarrow> 'b res) \<Rightarrow> 'b res" where
  "res_bind m f = (case m of Inl e \<Rightarrow> Inl e | Inr x \<Rightarrow> f x)"

definition is_ok :: "'a res \<Rightarrow> bool" where
  "is_ok m = (case m of Inl _ \<Rightarrow> False | Inr _ \<Rightarrow> True)"

definition deref :: "'a option \<Rightarrow> 'a res" where
  "deref p = (case p of None \<Rightarrow> crash NullDeref | Some x \<Rightarrow> ok x)"

definition nth_res :: "'a list \<Rightarrow> nat \<Rightarrow> 'a res" where
  "nth_res xs i = (if i < length xs then ok (xs ! i) else crash OutOfBounds)"

section \<open>std::string and the C number conversions\<close>

text \<open>
  \<open>str_find text pat off\<close> is \<^verbatim>\<open>text.find(pat, off)\<close>, with \<open>None\<close> for \<^verbatim>\<open>npos\<close>; \<open>substr\<close> throws
  when its start lies behind the end, and cuts its length at the end otherwise.
\<close>

fun find_at :: "'a list \<Rightarrow> 'a list \<Rightarrow> nat \<Rightarrow> nat option" where
  "find_at pat [] i = (if pat = [] then Some i else None)"
| "find_at pat (x # xs) i =
     (if prefix pat (x # xs) then Some i else find_at pat xs (Suc i))"

definition str_find :: "'a list \<Rightarrow> 'a list \<Rightarrow> nat \<Rightarrow> nat option" where
  "str_find text pat off =
     (if off \<le> length text then find_at pat (drop off text) off else None)"

definition contains :: "'a list \<Rightarrow> 'a list \<Rightarrow> bool" where
  "contains text pat = (str_find text pat 0 \<noteq> None)"

definition substr :: "'a list \<Rightarrow> nat \<Rightarrow> nat \<Rightarrow> 'a list res" where
  "substr s pos n =
     (if length s < pos then crash UncaughtException else ok (take n (drop pos s)))"

definition substr_from :: "'a list \<Rightarrow> nat \<Rightarrow> 'a list res" where
  "substr_from s pos =
     (if length s < pos then crash UncaughtException else ok (drop pos s))"

definition isspace :: "char \<Rightarrow> bool" where
  "isspace c = (of_char c = (32::nat) \<or> (9 \<le> (of_char c::nat) \<and> (of_char c::nat) \<le> 13))"

definition isdigit :: "char \<Rightarrow> bool" where
  "isdigit c = (48 \<le> (of_char c::nat) \<and> (of_char c::nat) \<le> 57)"

fun skip_space :: "string \<Rightarrow> string" where
  "skip_space [] = []"
| "skip_space (c # cs) = (if isspace c then skip_space cs else c # cs)"

fun digits_value :: "nat \<Rightarrow> string \<Rightarrow> nat" where
  "digits_value acc [] = acc"
| "digits_value acc (c # cs) =
     (if isdigit c then digits_value (10 * acc + (of_char c - 48)) cs else acc)"

text \<open>
  The value \<^verbatim>\<open>strtoll(s, NULL, 10)\<close> reads before it is fitted into the result type, with
  \<open>None\<close> when the text has no digits (\<^verbatim>\<open>stoll\<close> throws then, \<^verbatim>\<open>atoll\<close> returns 0).
\<close>

definition unsigned_text :: "string \<Rightarrow> nat option" where
  "unsigned_text s =
     (case s of [] \<Rightarrow> None | c # _ \<Rightarrow> if isdigit c then Some (digits_value 0 s) else None)"

definition int_text :: "string \<Rightarrow> int option" where
  "int_text s =
     (case skip_space s of
        [] \<Rightarrow> None
      | c # cs \<Rightarrow>
          if c = CHR ''-'' then map_option (\<lambda>n. - int n) (unsigned_text cs)
          else if c = CHR ''+'' then map_option int (unsigned_text cs)
          else map_option int (unsigned_text (c # cs)))"

definition clamp64 :: "int \<Rightarrow> int" where
  "clamp64 i = max (- (2 ^ 63)) (min (2 ^ 63 - 1) i)"

definition atoll :: "string \<Rightarrow> int" where
  "atoll s = (case int_text s of None \<Rightarrow> 0 | Some i \<Rightarrow> clamp64 i)"

text \<open>\<^verbatim>\<open>atoi\<close> is \<^verbatim>\<open>(int) strtol(s, NULL, 10)\<close> on the LP64 platform the server is built for.\<close>

definition atoi :: "string \<Rightarrow> int" where
  "atoi s = sint (word_of_int (atoll s) :: 32 word)"

definition stoll :: "string \<Rightarrow> int res" where
  "stoll s =
     (case int_text s of
        None \<Rightarrow> crash UncaughtException
      | Some i \<Rightarrow> if clamp64 i = i then ok i else crash UncaughtException)"

definition digit_char :: "nat \<Rightarrow> char" where
  "digit_char n = char_of (48 + n)"

fun dec_nat :: "nat \<Rightarrow> string" where
  "dec_nat n = (if n < 10 then [digit_char n] else dec_nat (n div 10) @ [digit_char (n mod 10)])"

declare dec_nat.simps [simp del]

definition dec_int :: "int \<Rightarrow> string" where
  "dec_int i = (if i < 0 then CHR ''-'' # dec_nat (nat (- i)) else dec_nat (nat i))"

definition char_of_byte :: "byte \<Rightarrow> char" where
  "char_of_byte b = char_of (unat b)"

definition byte_of_char :: "char \<Rightarrow> byte" where
  "byte_of_char c = of_nat (of_char c)"

definition string_of_bytes :: "bytes \<Rightarrow> string" where
  "string_of_bytes = map char_of_byte"

definition bytes_of_string :: "string \<Rightarrow> bytes" where
  "bytes_of_string = map byte_of_char"

section \<open>Lemmas on results\<close>

lemma res_bind_ok [simp, res_simps]: "res_bind (Inr x) f = f x"
  by (simp add: res_bind_def)

lemma res_bind_crash [simp, res_simps]: "res_bind (Inl e) f = Inl e"
  by (simp add: res_bind_def)

lemma is_ok_simps [simp, res_simps]: "is_ok (Inr x)" "\<not> is_ok (Inl e)"
  by (simp_all add: is_ok_def)

lemma is_ok_iff: "is_ok m \<longleftrightarrow> (\<exists>x. m = Inr x)"
  by (cases m) auto

lemma res_bind_eq_ok [res_simps]:
  "res_bind m f = Inr y \<longleftrightarrow> (\<exists>x. m = Inr x \<and> f x = Inr y)"
  by (cases m) auto

lemma res_bind_assoc: "res_bind (res_bind m f) g = res_bind m (\<lambda>x. res_bind (f x) g)"
  by (cases m) auto

lemma deref_simps [simp, res_simps]: "deref None = Inl NullDeref" "deref (Some x) = Inr x"
  by (simp_all add: deref_def)

lemma nth_res_ok [simp, res_simps]: "i < length xs \<Longrightarrow> nth_res xs i = Inr (xs ! i)"
  by (simp add: nth_res_def)

lemma nth_res_eq_ok [res_simps]: "nth_res xs i = Inr x \<longleftrightarrow> i < length xs \<and> xs ! i = x"
  by (auto simp: nth_res_def)

section \<open>Lemmas on searching\<close>

lemma find_at_SomeD:
  "find_at pat xs i = Some j \<Longrightarrow>
     i \<le> j \<and> j - i + length pat \<le> length xs \<and> prefix pat (drop (j - i) xs) \<and>
     (\<forall>k < j - i. \<not> prefix pat (drop k xs))"
proof (induction pat xs i rule: find_at.induct)
  case (1 pat i)
  then show ?case by (auto split: if_splits)
next
  case (2 pat x xs i)
  show ?case
  proof (cases "prefix pat (x # xs)")
    case True
    with "2.prems" show ?thesis by (auto dest: prefix_length_le)
  next
    case False
    with "2.prems" have rec: "find_at pat xs (Suc i) = Some j" by simp
    from "2.IH" [OF False rec] have
      ih: "Suc i \<le> j" "j - Suc i + length pat \<le> length xs" "prefix pat (drop (j - Suc i) xs)"
        "\<forall>k < j - Suc i. \<not> prefix pat (drop k xs)" by auto
    have eq: "j - i = Suc (j - Suc i)" using ih(1) by simp
    have "\<not> prefix pat (drop k (x # xs))" if "k < j - i" for k
      using that False ih(4) eq by (cases k) auto
    with ih eq show ?thesis by auto
  qed
qed

lemma find_at_NoneD: "find_at pat xs i = None \<Longrightarrow> k \<le> length xs \<Longrightarrow> \<not> prefix pat (drop k xs)"
proof (induction pat xs i arbitrary: k rule: find_at.induct)
  case (1 pat i)
  then show ?case by (auto split: if_splits)
next
  case (2 pat x xs i)
  then show ?case by (cases k) (auto split: if_splits)
qed

lemma str_find_SomeD:
  assumes "str_find text pat off = Some p"
  shows "off \<le> p" and "p + length pat \<le> length text"
    and "take (length pat) (drop p text) = pat"
    and "off \<le> k \<Longrightarrow> k < p \<Longrightarrow> \<not> prefix pat (drop k text)"
proof -
  from assms have off: "off \<le> length text" and
    f: "find_at pat (drop off text) off = Some p"
    by (auto simp: str_find_def split: if_splits)
  note d = find_at_SomeD [OF f]
  from d show 1: "off \<le> p" by simp
  from d off show "p + length pat \<le> length text" by auto
  from d 1 have "prefix pat (drop p text)" by simp
  then show "take (length pat) (drop p text) = pat" by (auto simp: prefix_def)
  show "\<not> prefix pat (drop k text)" if "off \<le> k" "k < p"
  proof -
    from that have "k - off < p - off" by simp
    with d have "\<not> prefix pat (drop (k - off) (drop off text))" by blast
    with that show ?thesis by simp
  qed
qed

lemma find_at_single:
  "find_at [c] xs i =
     (if c \<in> set xs then Some (i + length (takeWhile (\<lambda>x. x \<noteq> c) xs)) else None)"
  by (induction xs arbitrary: i) auto

lemma str_find_single:
  "off \<le> length text \<Longrightarrow>
   str_find text [c] off =
     (if c \<in> set (drop off text)
      then Some (off + length (takeWhile (\<lambda>x. x \<noteq> c) (drop off text))) else None)"
  by (simp add: str_find_def find_at_single)

lemma substr_ok [str_simps]: "pos \<le> length s \<Longrightarrow> substr s pos n = ok (take n (drop pos s))"
  by (simp add: substr_def)

lemma substr_from_ok [str_simps]: "pos \<le> length s \<Longrightarrow> substr_from s pos = ok (drop pos s)"
  by (simp add: substr_from_def)

section \<open>Lemmas on decimal text\<close>

lemma of_char_digit_char [simp]: "n < 10 \<Longrightarrow> (of_char (digit_char n) :: nat) = 48 + n"
  by (simp add: digit_char_def)

lemma isdigit_digit_char [simp]: "n < 10 \<Longrightarrow> isdigit (digit_char n)"
  by (simp add: isdigit_def)

lemma dec_nat_nonempty [simp]: "dec_nat n \<noteq> []"
  by (subst dec_nat.simps) simp

lemma dec_nat_digits: "c \<in> set (dec_nat n) \<Longrightarrow> isdigit c"
proof (induction n rule: dec_nat.induct)
  case (1 n)
  then show ?case
    by (cases "n < 10") (auto simp: dec_nat.simps [of n])
qed

lemma digits_value_append:
  "(\<And>c. c \<in> set xs \<Longrightarrow> isdigit c) \<Longrightarrow>
   digits_value acc (xs @ ys) = digits_value (digits_value acc xs) ys"
  by (induction xs arbitrary: acc) auto

lemma digits_value_dec_nat: "digits_value 0 (dec_nat n) = n"
proof (induction n rule: dec_nat.induct)
  case (1 n)
  show ?case
  proof (cases "n < 10")
    case True
    then show ?thesis by (simp add: dec_nat.simps [of n])
  next
    case False
    then have "digits_value 0 (dec_nat (n div 10)) = n div 10" using 1 by simp
    with False show ?thesis
      by (simp add: dec_nat.simps [of n] digits_value_append dec_nat_digits)
  qed
qed

lemma isdigit_not_space: "isdigit c \<Longrightarrow> \<not> isspace c"
  by (auto simp: isdigit_def isspace_def)

lemma isdigit_not_sign: "isdigit c \<Longrightarrow> c \<noteq> CHR ''-'' \<and> c \<noteq> CHR ''+''"
  by (auto simp: isdigit_def)

lemma int_text_dec_nat [str_simps]: "int_text (dec_nat n) = Some (int n)"
proof -
  obtain c cs where d: "dec_nat n = c # cs" by (cases "dec_nat n") auto
  then have "isdigit c" using dec_nat_digits [of c n] by simp
  with d digits_value_dec_nat [of n] show ?thesis
    by (simp add: int_text_def unsigned_text_def isdigit_not_space isdigit_not_sign)
qed

lemma stoll_dec_nat [str_simps]: "n < 2 ^ 63 \<Longrightarrow> stoll (dec_nat n) = ok (int n)"
  by (simp add: stoll_def int_text_dec_nat clamp64_def)

lemma atoll_dec_nat [str_simps]: "n < 2 ^ 63 \<Longrightarrow> atoll (dec_nat n) = int n"
  by (simp add: atoll_def int_text_dec_nat clamp64_def)

section \<open>Lemmas on bytes and characters\<close>

lemma byte_of_char_of_byte [simp, byte_simps]: "byte_of_char (char_of_byte b) = b"
proof -
  have "unat b < 256" using unsigned_less [of b] by simp
  then show ?thesis by (simp add: byte_of_char_def char_of_byte_def)
qed

lemma char_of_byte_of_char [simp, byte_simps]: "char_of_byte (byte_of_char c) = c"
proof -
  have "(of_char c :: nat) < 256" by simp
  then show ?thesis by (simp add: byte_of_char_def char_of_byte_def unat_of_nat)
qed

lemma bytes_of_string_of_bytes [simp, byte_simps]: "bytes_of_string (string_of_bytes bs) = bs"
  by (simp add: bytes_of_string_def string_of_bytes_def comp_def)

lemma string_of_bytes_of_string [simp, byte_simps]: "string_of_bytes (bytes_of_string s) = s"
  by (simp add: bytes_of_string_def string_of_bytes_def comp_def)

lemma length_string_of_bytes [simp, byte_simps]: "length (string_of_bytes bs) = length bs"
  by (simp add: string_of_bytes_def)

lemma length_bytes_of_string [simp, byte_simps]: "length (bytes_of_string s) = length s"
  by (simp add: bytes_of_string_def)

section \<open>Lemmas on words\<close>

lemma unat_drop_bit_div: "unat (drop_bit n (w :: 'a::len word)) = unat w div 2 ^ n"
  by (rule trans [OF unat_drop_bit_eq]) (rule drop_bit_eq_div)

lemma unat_drop_bit_less:
  "0 < n \<Longrightarrow> w \<noteq> 0 \<Longrightarrow> unat (drop_bit n (w :: 'a::len word)) < unat w"
  by (simp only: unat_drop_bit_div)
    (auto intro!: div_less_dividend one_less_power simp: unat_gt_0)

section \<open>Lemmas on association lists\<close>

lemma map_of_update [simp]: "map_of (AList.update k v al) = (map_of al)(k \<mapsto> v)"
  by (rule update_conv')

lemma map_of_delete [simp]: "map_of (AList.delete k al) = (map_of al)(k := None)"
  by (rule delete_conv')

end
