(* ===== verification/CryptoSuites.thy ===== *)
theory CryptoSuites
  imports SfuBase
begin

text \<open>
  The SRTP crypto suites of \<^verbatim>\<open>rtc_base/ssl_stream_adapter.{h,cc}\<close> and the choice of suites a peer
  offers, \<^verbatim>\<open>api/crypto/crypto_options.{h,cc}\<close>.
\<close>

definition kSrtpInvalidCryptoSuite :: int where "kSrtpInvalidCryptoSuite = 0"
definition kSrtpAes128CmSha1_80 :: int where "kSrtpAes128CmSha1_80 = 1"
definition kSrtpAes128CmSha1_32 :: int where "kSrtpAes128CmSha1_32 = 2"
definition kSrtpAeadAes128Gcm :: int where "kSrtpAeadAes128Gcm = 7"
definition kSrtpAeadAes256Gcm :: int where "kSrtpAeadAes256Gcm = 8"

definition kCsAesCm128HmacSha1_80 :: string where "kCsAesCm128HmacSha1_80 = ''AES_CM_128_HMAC_SHA1_80''"
definition kCsAesCm128HmacSha1_32 :: string where "kCsAesCm128HmacSha1_32 = ''AES_CM_128_HMAC_SHA1_32''"
definition kCsAeadAes128Gcm :: string where "kCsAeadAes128Gcm = ''AEAD_AES_128_GCM''"
definition kCsAeadAes256Gcm :: string where "kCsAeadAes256Gcm = ''AEAD_AES_256_GCM''"

lemmas suite_ids = kSrtpInvalidCryptoSuite_def kSrtpAes128CmSha1_80_def kSrtpAes128CmSha1_32_def
  kSrtpAeadAes128Gcm_def kSrtpAeadAes256Gcm_def

lemmas suite_names = kCsAesCm128HmacSha1_80_def kCsAesCm128HmacSha1_32_def kCsAeadAes128Gcm_def
  kCsAeadAes256Gcm_def

definition SrtpCryptoSuiteToName :: "int \<Rightarrow> string" where
  "SrtpCryptoSuiteToName cs =
     (if cs = kSrtpAes128CmSha1_32 then kCsAesCm128HmacSha1_32
      else if cs = kSrtpAes128CmSha1_80 then kCsAesCm128HmacSha1_80
      else if cs = kSrtpAeadAes128Gcm then kCsAeadAes128Gcm
      else if cs = kSrtpAeadAes256Gcm then kCsAeadAes256Gcm
      else [])"

definition SrtpCryptoSuiteFromName :: "string \<Rightarrow> int" where
  "SrtpCryptoSuiteFromName n =
     (if n = kCsAesCm128HmacSha1_32 then kSrtpAes128CmSha1_32
      else if n = kCsAesCm128HmacSha1_80 then kSrtpAes128CmSha1_80
      else if n = kCsAeadAes128Gcm then kSrtpAeadAes128Gcm
      else if n = kCsAeadAes256Gcm then kSrtpAeadAes256Gcm
      else kSrtpInvalidCryptoSuite)"

text \<open>Key and salt lengths in bytes; \<open>None\<close> when the call returns false.\<close>

definition GetSrtpKeyAndSaltLengths :: "int \<Rightarrow> (nat \<times> nat) option" where
  "GetSrtpKeyAndSaltLengths cs =
     (if cs = kSrtpAes128CmSha1_32 \<or> cs = kSrtpAes128CmSha1_80 then Some (16, 14)
      else if cs = kSrtpAeadAes128Gcm then Some (16, 12)
      else if cs = kSrtpAeadAes256Gcm then Some (32, 12)
      else None)"

definition IsGcmCryptoSuite :: "int \<Rightarrow> bool" where
  "IsGcmCryptoSuite cs = (cs = kSrtpAeadAes256Gcm \<or> cs = kSrtpAeadAes128Gcm)"

definition IsGcmCryptoSuiteName :: "string \<Rightarrow> bool" where
  "IsGcmCryptoSuiteName n = (n = kCsAeadAes256Gcm \<or> n = kCsAeadAes128Gcm)"

record CryptoOptions =
  enable_gcm_crypto_suites :: bool
  enable_aes128_sha1_32_crypto_cipher :: bool
  enable_aes128_sha1_80_crypto_cipher :: bool
  enable_encrypted_rtp_header_extensions :: bool
  require_frame_encryption :: bool

definition CryptoOptions_default :: CryptoOptions where
  "CryptoOptions_default =
     \<lparr>enable_gcm_crypto_suites = False, enable_aes128_sha1_32_crypto_cipher = False,
      enable_aes128_sha1_80_crypto_cipher = True, enable_encrypted_rtp_header_extensions = False,
      require_frame_encryption = False\<rparr>"

definition NoGcm :: CryptoOptions where
  "NoGcm = CryptoOptions_default\<lparr>enable_gcm_crypto_suites := False\<rparr>"

text \<open>\<^verbatim>\<open>RTC_CHECK(!crypto_suites.empty())\<close> aborts the process.\<close>

definition GetSupportedDtlsSrtpCryptoSuites :: "CryptoOptions \<Rightarrow> int list res" where
  "GetSupportedDtlsSrtpCryptoSuites opt =
     (let suites =
            (if enable_aes128_sha1_32_crypto_cipher opt then [kSrtpAes128CmSha1_32] else []) @
            (if enable_aes128_sha1_80_crypto_cipher opt then [kSrtpAes128CmSha1_80] else []) @
            (if enable_gcm_crypto_suites opt then [kSrtpAeadAes256Gcm, kSrtpAeadAes128Gcm] else [])
      in if suites = [] then crash AssertFailed else ok suites)"

definition CryptoOptions_eq :: "CryptoOptions \<Rightarrow> CryptoOptions \<Rightarrow> bool" where
  "CryptoOptions_eq a b =
     (enable_gcm_crypto_suites a = enable_gcm_crypto_suites b \<and>
      enable_aes128_sha1_32_crypto_cipher a = enable_aes128_sha1_32_crypto_cipher b \<and>
      enable_aes128_sha1_80_crypto_cipher a = enable_aes128_sha1_80_crypto_cipher b \<and>
      enable_encrypted_rtp_header_extensions a = enable_encrypted_rtp_header_extensions b \<and>
      require_frame_encryption a = require_frame_encryption b)"

lemma supported_suites_known:
  "GetSupportedDtlsSrtpCryptoSuites opt = ok suites \<Longrightarrow> cs \<in> set suites \<Longrightarrow>
   \<exists>k s. GetSrtpKeyAndSaltLengths cs = Some (k, s) \<and> 0 < k \<and> 0 < s"
  by (auto simp: GetSupportedDtlsSrtpCryptoSuites_def GetSrtpKeyAndSaltLengths_def suite_ids Let_def
      split: if_splits)

lemma default_suites: "GetSupportedDtlsSrtpCryptoSuites CryptoOptions_default = ok [kSrtpAes128CmSha1_80]"
  by (simp add: GetSupportedDtlsSrtpCryptoSuites_def CryptoOptions_default_def)

text \<open>
  Every suite a configuration offers has a name, key and salt lengths and survives the trip
  through its name, the offer is free of duplicates, and computing it aborts exactly when all
  three groups of suites are disabled.
\<close>

theorem offered_suites_sound:
  "(case GetSupportedDtlsSrtpCryptoSuites opt of
      Inl f \<Rightarrow> f = AssertFailed \<and> \<not> enable_gcm_crypto_suites opt \<and>
        \<not> enable_aes128_sha1_32_crypto_cipher opt \<and> \<not> enable_aes128_sha1_80_crypto_cipher opt
    | Inr suites \<Rightarrow> suites \<noteq> [] \<and> distinct suites \<and>
        list_all (\<lambda>cs. SrtpCryptoSuiteFromName (SrtpCryptoSuiteToName cs) = cs \<and>
          GetSrtpKeyAndSaltLengths cs \<noteq> None \<and>
          IsGcmCryptoSuite cs = IsGcmCryptoSuiteName (SrtpCryptoSuiteToName cs)) suites)"
  by (auto simp: GetSupportedDtlsSrtpCryptoSuites_def GetSrtpKeyAndSaltLengths_def suite_ids suite_names
      SrtpCryptoSuiteFromName_def SrtpCryptoSuiteToName_def IsGcmCryptoSuite_def IsGcmCryptoSuiteName_def
      Let_def)

end
