(* ===== verification/RtcBuffer.thy ===== *)
theory RtcBuffer
  imports SfuBase
begin

text \<open>
  \<^verbatim>\<open>rtc::BufferT\<close> of \<^verbatim>\<open>rtc_base/buffer.h\<close>: a growable array with a size and a capacity. The
  storage is a list of optional elements whose length is the capacity; \<open>None\<close> is memory that
  \<^verbatim>\<open>new T[n]\<close> has not initialised. \<open>buf_block\<close> counts the reallocations, so that a pointer taken
  before a write can be told from one that is still valid after it.

  The locale \<open>append_buffer\<close> is the interface the byte writer relies on: an invariant, a
  contents relation and the law that appending extends the contents.
\<close>

record 'a buffer =
  buf_size :: nat
  buf_store :: "'a option list"
  buf_block :: nat

definition capacity :: "'a buffer \<Rightarrow> nat" where
  "capacity b = length (buf_store b)"

definition IsConsistent :: "'a buffer \<Rightarrow> bool" where
  "IsConsistent b = (buf_size b \<le> capacity b)"

definition Buffer_empty :: "'a buffer" where
  "Buffer_empty = \<lparr>buf_size = 0, buf_store = [], buf_block = 0\<rparr>"

definition Buffer_sized :: "nat \<Rightarrow> nat \<Rightarrow> 'a buffer" where
  "Buffer_sized sz cap =
     \<lparr>buf_size = sz, buf_store = replicate (max sz cap) None, buf_block = 0\<rparr>"

definition Buffer_copy :: "'a list \<Rightarrow> nat \<Rightarrow> 'a buffer" where
  "Buffer_copy data cap =
     (let b = Buffer_sized (length data) cap
      in b\<lparr>buf_store := map Some data @ drop (length data) (buf_store b)\<rparr>)"

definition buf_data :: "'a buffer \<Rightarrow> 'a option list" where
  "buf_data b = take (buf_size b) (buf_store b)"

definition buf_eq :: "'a buffer \<Rightarrow> 'a buffer \<Rightarrow> bool" where
  "buf_eq a b = (if buf_size a \<noteq> buf_size b then False else buf_data a = buf_data b)"

definition EnsureCapacityWithHeadroom :: "nat \<Rightarrow> bool \<Rightarrow> 'a buffer \<Rightarrow> 'a buffer" where
  "EnsureCapacityWithHeadroom cap extra_headroom b =
     (if cap \<le> capacity b then b
      else
        let new_capacity =
              (if extra_headroom then max cap (capacity b + capacity b div 2) else cap)
        in b\<lparr>buf_store := buf_data b @ replicate (new_capacity - length (buf_data b)) None,
             buf_block := Suc (buf_block b)\<rparr>)"

definition AppendData :: "'a list \<Rightarrow> 'a buffer \<Rightarrow> 'a buffer" where
  "AppendData data b =
     (let new_size = buf_size b + length data;
          b' = EnsureCapacityWithHeadroom new_size True b
      in b'\<lparr>buf_store := take (buf_size b) (buf_store b') @ map Some data @
                          drop new_size (buf_store b'),
            buf_size := new_size\<rparr>)"

definition SetData :: "'a list \<Rightarrow> 'a buffer \<Rightarrow> 'a buffer" where
  "SetData data b = AppendData data (b\<lparr>buf_size := 0\<rparr>)"

definition SetSize :: "nat \<Rightarrow> 'a buffer \<Rightarrow> 'a buffer" where
  "SetSize sz b = (EnsureCapacityWithHeadroom sz True b)\<lparr>buf_size := sz\<rparr>"

definition EnsureCapacity :: "nat \<Rightarrow> 'a buffer \<Rightarrow> 'a buffer" where
  "EnsureCapacity cap b = EnsureCapacityWithHeadroom cap False b"

definition Clear :: "'a buffer \<Rightarrow> 'a buffer" where
  "Clear b = b\<lparr>buf_size := 0\<rparr>"

text \<open>The contents relation: a consistent buffer whose size elements are initialised to \<open>xs\<close>.\<close>

definition holds :: "'a buffer \<Rightarrow> 'a list \<Rightarrow> bool" where
  "holds b xs = (IsConsistent b \<and> buf_data b = map Some xs)"

section \<open>Capacity\<close>

lemma length_buf_data: "IsConsistent b \<Longrightarrow> length (buf_data b) = buf_size b"
  by (simp add: buf_data_def IsConsistent_def capacity_def)

lemma ensure_consistent: "IsConsistent b \<Longrightarrow> IsConsistent (EnsureCapacityWithHeadroom c e b)"
  using length_buf_data [of b]
  by (auto simp: EnsureCapacityWithHeadroom_def IsConsistent_def capacity_def Let_def)

lemma ensure_size [simp]: "buf_size (EnsureCapacityWithHeadroom c e b) = buf_size b"
  by (simp add: EnsureCapacityWithHeadroom_def Let_def)

lemma ensure_data [simp]:
  "IsConsistent b \<Longrightarrow> buf_data (EnsureCapacityWithHeadroom c e b) = buf_data b"
  using length_buf_data [of b]
  by (auto simp: EnsureCapacityWithHeadroom_def Let_def buf_data_def)

lemma ensure_capacity:
  "IsConsistent b \<Longrightarrow> c \<le> capacity (EnsureCapacityWithHeadroom c e b)"
  using length_buf_data [of b]
  by (auto simp: EnsureCapacityWithHeadroom_def Let_def capacity_def)

lemma ensure_capacity_mono:
  "IsConsistent b \<Longrightarrow> capacity b \<le> capacity (EnsureCapacityWithHeadroom c e b)"
  using length_buf_data [of b]
  by (auto simp: EnsureCapacityWithHeadroom_def Let_def capacity_def)

lemma ensure_growth:
  assumes "IsConsistent b" and "capacity b < c"
  shows "3 * capacity b \<le> 2 * capacity (EnsureCapacityWithHeadroom c True b) + 1"
proof -
  have "buf_size b \<le> capacity b" using assms(1) by (simp add: IsConsistent_def)
  then show ?thesis
    using assms length_buf_data [of b]
    by (auto simp: EnsureCapacityWithHeadroom_def Let_def capacity_def max_def)
qed

section \<open>Appending\<close>

lemma take_append_exact: "n = length xs \<Longrightarrow> take n (xs @ ys) = xs"
  by simp

lemma append_consistent: "IsConsistent b \<Longrightarrow> IsConsistent (AppendData xs b)"
  using ensure_capacity [of b "buf_size b + length xs" True]
  by (simp add: AppendData_def Let_def IsConsistent_def capacity_def)

lemma append_data:
  assumes "IsConsistent b"
  shows "buf_data (AppendData xs b) = buf_data b @ map Some xs"
proof -
  let ?n = "buf_size b + length xs"
  let ?b = "EnsureCapacityWithHeadroom ?n True b"
  have d: "take (buf_size b) (buf_store ?b) = buf_data b"
    using ensure_data [OF assms, of ?n True] by (simp add: buf_data_def)
  have "length (buf_data b) = buf_size b" by (rule length_buf_data [OF assms])
  then show ?thesis
    unfolding AppendData_def Let_def by (simp add: d buf_data_def [of "_\<lparr>buf_store := _, buf_size := _\<rparr>"])
qed

lemma append_no_realloc:
  "buf_size b + length xs \<le> capacity b \<Longrightarrow>
     buf_block (AppendData xs b) = buf_block b \<and> (IsConsistent b \<longrightarrow> capacity (AppendData xs b) = capacity b)"
  by (auto simp: AppendData_def Let_def EnsureCapacityWithHeadroom_def capacity_def IsConsistent_def)

lemma holds_size: "holds b xs \<Longrightarrow> buf_size b = length xs"
  using length_buf_data [of b] by (auto simp: holds_def)

lemma holds_empty [simp]: "holds Buffer_empty []"
  by (simp add: holds_def Buffer_empty_def IsConsistent_def capacity_def buf_data_def)

lemma holds_copy: "holds (Buffer_copy xs cap) xs"
  by (auto simp: holds_def Buffer_copy_def Buffer_sized_def IsConsistent_def capacity_def
      buf_data_def Let_def)

lemma holds_append: "holds b xs \<Longrightarrow> holds (AppendData ys b) (xs @ ys)"
  by (simp add: holds_def append_consistent append_data)

lemma consistent_reset: "IsConsistent b \<Longrightarrow> holds (b\<lparr>buf_size := 0\<rparr>) []"
  by (simp add: holds_def IsConsistent_def buf_data_def capacity_def)

lemma holds_set: "IsConsistent b \<Longrightarrow> holds (SetData xs b) xs"
  using holds_append [OF consistent_reset, of b xs] by (simp add: SetData_def)

lemma holds_clear: "IsConsistent b \<Longrightarrow> holds (Clear b) []"
  by (simp add: Clear_def consistent_reset)

lemma holds_ensure: "holds b xs \<Longrightarrow> holds (EnsureCapacity c b) xs"
  by (simp add: holds_def EnsureCapacity_def ensure_consistent)

lemma holds_truncate:
  assumes "holds b xs" and "n \<le> length xs"
  shows "holds (SetSize n b) (take n xs)"
proof -
  have n: "n \<le> buf_size b" "buf_size b \<le> capacity b"
    using assms holds_size [OF assms(1)] by (auto simp: holds_def IsConsistent_def)
  then have e: "EnsureCapacityWithHeadroom n True b = b"
    by (simp add: EnsureCapacityWithHeadroom_def)
  have "take n (buf_store b) = take n (buf_data b)" using n by (simp add: buf_data_def min_def)
  with assms n show ?thesis
    by (simp add: SetSize_def e holds_def IsConsistent_def buf_data_def [of "b\<lparr>buf_size := n\<rparr>"]
        take_map capacity_def)
qed

lemma SetSize_consistent: "IsConsistent b \<Longrightarrow> IsConsistent (SetSize n b)"
  using ensure_capacity [of b n True] by (simp add: SetSize_def IsConsistent_def capacity_def)

section \<open>The interface of a buffer class\<close>

locale append_buffer =
  fixes append :: "'e list \<Rightarrow> 'b \<Rightarrow> 'b"
    and contents :: "'b \<Rightarrow> 'e list \<Rightarrow> bool"
    and size_of :: "'b \<Rightarrow> nat"
  assumes append_contents: "contents b xs \<Longrightarrow> contents (append ys b) (xs @ ys)"
    and contents_size: "contents b xs \<Longrightarrow> size_of b = length xs"
begin

lemma append_append:
  "contents b xs \<Longrightarrow> contents (append zs (append ys b)) (xs @ ys @ zs)"
  using append_contents [of "append ys b" "xs @ ys" zs] append_contents [of b xs ys] by simp

lemma fold_append: "contents b xs \<Longrightarrow> contents (fold append yss b) (xs @ concat yss)"
proof (induction yss arbitrary: b xs)
  case Nil
  then show ?case by simp
next
  case (Cons ys yss)
  have "contents (append ys b) (xs @ ys)" by (rule append_contents [OF Cons.prems])
  from Cons.IH [OF this] show ?case by simp
qed

lemma append_size: "contents b xs \<Longrightarrow> size_of (append ys b) = size_of b + length ys"
  using contents_size [OF append_contents] contents_size by fastforce

end

interpretation rtc_buffer: append_buffer AppendData holds buf_size
  by unfold_locales (simp_all add: holds_append holds_size)

section \<open>Sequences of appends\<close>

lemma fold_append_block:
  "IsConsistent b \<Longrightarrow> buf_size b + length (concat yss) \<le> capacity b \<Longrightarrow>
   buf_block (fold AppendData yss b) = buf_block b"
proof (induction yss arbitrary: b)
  case Nil
  then show ?case by simp
next
  case (Cons ys yss)
  then have a: "buf_block (AppendData ys b) = buf_block b" "capacity (AppendData ys b) = capacity b"
    using append_no_realloc [of b ys] by simp_all
  moreover have "buf_size (AppendData ys b) = buf_size b + length ys"
    by (simp add: AppendData_def Let_def)
  ultimately have "buf_block (fold AppendData yss (AppendData ys b)) = buf_block (AppendData ys b)"
    using Cons.prems by (intro Cons.IH) (simp_all add: append_consistent)
  with a show ?case by simp
qed

text \<open>
  Any sequence of appends leaves exactly the old contents followed by the appended data,
  in order, and a pointer taken into the buffer before the appends stays valid (no
  reallocation) as long as the data fits the capacity.
\<close>

theorem buffer_appends:
  assumes "holds b xs"
  shows "holds (fold AppendData yss b) (xs @ concat yss) \<and>
    (length (xs @ concat yss) \<le> capacity b \<longrightarrow> buf_block (fold AppendData yss b) = buf_block b)"
  using fold_append_block [of b yss] holds_size [OF assms] rtc_buffer.fold_append [OF assms, of yss] assms
  by (simp add: holds_def [of b])

lemma buffer_appends_witness:
  "holds (fold AppendData [[3, 4], [5]] (Buffer_copy [1, 2 :: nat] 8)) [1, 2, 3, 4, 5] \<and>
   buf_block (fold AppendData [[3, 4], [5]] (Buffer_copy [1, 2 :: nat] 8)) = 0"
  using buffer_appends [OF holds_copy [of "[1, 2 :: nat]" 8], of "[[3, 4], [5]]"]
  by (simp add: Buffer_copy_def Buffer_sized_def capacity_def)

end
