(* ===== verification/Queues.thy ===== *)
theory Queues
  imports RtcBuffer
begin

text \<open>
  The two bounded queues: \<^verbatim>\<open>rtc::BufferQueue\<close> (\<^verbatim>\<open>rtc_base/buffer_queue.cc\<close>), which the DTLS stream
  keeps its received packets in and which recycles its buffers through a free list, and
  \<^verbatim>\<open>ThreadQueue\<close> (\<^verbatim>\<open>utils/threadqueue.hpp\<close>), whose operations run under its mutex and are atomic
  steps here; what a call does after its wait has ended, by a notification or by its timeout, is
  the operation, and a blocking push is a step that is enabled only when the flag allows it.

  The locale \<open>bounded_fifo\<close> is the contract of a bounded first-in-first-out queue; every run of a
  queue that satisfies it is a run of the reference queue on lists.
\<close>

section \<open>The contract\<close>

datatype 'e queue_op = Enq 'e | Deq

datatype 'e queue_reply = Accepted | Rejected | Got 'e | Nothing

fun ref_step :: "nat \<Rightarrow> ('e \<Rightarrow> 'e) \<Rightarrow> 'e queue_op \<Rightarrow> 'e list \<Rightarrow> 'e queue_reply \<times> 'e list" where
  "ref_step cap view (Enq e) xs = (if length xs < cap then (Accepted, xs @ [e]) else (Rejected, xs))"
| "ref_step cap view Deq [] = (Nothing, [])"
| "ref_step cap view Deq (x # xs) = (Got (view x), xs)"

fun ref_run :: "nat \<Rightarrow> ('e \<Rightarrow> 'e) \<Rightarrow> 'e queue_op list \<Rightarrow> 'e list \<Rightarrow> 'e queue_reply list \<times> 'e list" where
  "ref_run cap view [] xs = ([], xs)"
| "ref_run cap view (op # ops) xs =
     (case ref_step cap view op xs of (r, xs') \<Rightarrow> case ref_run cap view ops xs' of (rs, ys) \<Rightarrow> (r # rs, ys))"

fun queue_step :: "('e \<Rightarrow> 's \<Rightarrow> bool \<times> 's) \<Rightarrow> ('s \<Rightarrow> 'e option \<times> 's) \<Rightarrow> 'e queue_op \<Rightarrow> 's \<Rightarrow> 'e queue_reply \<times> 's" where
  "queue_step enq deq (Enq e) s = (case enq e s of (b, s') \<Rightarrow> (if b then Accepted else Rejected, s'))"
| "queue_step enq deq Deq s = (case deq s of (None, s') \<Rightarrow> (Nothing, s') | (Some e, s') \<Rightarrow> (Got e, s'))"

fun queue_run :: "('e \<Rightarrow> 's \<Rightarrow> bool \<times> 's) \<Rightarrow> ('s \<Rightarrow> 'e option \<times> 's) \<Rightarrow> 'e queue_op list \<Rightarrow> 's \<Rightarrow> 'e queue_reply list \<times> 's" where
  "queue_run enq deq [] s = ([], s)"
| "queue_run enq deq (op # ops) s =
     (case queue_step enq deq op s of (r, s') \<Rightarrow> case queue_run enq deq ops s' of (rs, t) \<Rightarrow> (r # rs, t))"

locale bounded_fifo =
  fixes items :: "'s \<Rightarrow> 'e list"
    and cap :: "'s \<Rightarrow> nat"
    and inv :: "'s \<Rightarrow> bool"
    and enq :: "'e \<Rightarrow> 's \<Rightarrow> bool \<times> 's"
    and deq :: "'s \<Rightarrow> 'e option \<times> 's"
    and view :: "'e \<Rightarrow> 'e"
  assumes enq_room: "inv s \<Longrightarrow> length (items s) < cap s \<Longrightarrow> fst (enq e s) \<and> items (snd (enq e s)) = items s @ [e]"
    and enq_full: "inv s \<Longrightarrow> cap s \<le> length (items s) \<Longrightarrow> \<not> fst (enq e s) \<and> items (snd (enq e s)) = items s"
    and enq_inv: "inv s \<Longrightarrow> inv (snd (enq e s)) \<and> cap (snd (enq e s)) = cap s"
    and deq_empty: "inv s \<Longrightarrow> items s = [] \<Longrightarrow> fst (deq s) = None \<and> items (snd (deq s)) = []"
    and deq_cons: "inv s \<Longrightarrow> items s = x # xs \<Longrightarrow> fst (deq s) = Some (view x) \<and> items (snd (deq s)) = xs"
    and deq_inv: "inv s \<Longrightarrow> inv (snd (deq s)) \<and> cap (snd (deq s)) = cap s"
begin

lemma step_refines:
  assumes "inv s"
  shows "ref_step (cap s) view op (items s) =
      (fst (queue_step enq deq op s), items (snd (queue_step enq deq op s))) \<and>
    inv (snd (queue_step enq deq op s)) \<and> cap (snd (queue_step enq deq op s)) = cap s"
proof (cases op)
  case (Enq e)
  show ?thesis
    using enq_room [OF assms, of e] enq_full [OF assms, of e] enq_inv [OF assms, of e]
    by (cases "length (items s) < cap s") (auto simp: Enq split: prod.splits)
next
  case Deq
  show ?thesis
    using deq_empty [OF assms] deq_cons [OF assms] deq_inv [OF assms]
    by (cases "items s") (auto simp: Deq split: prod.splits option.splits)
qed

lemma run_refines:
  "inv s \<Longrightarrow> ref_run (cap s) view ops (items s) =
     (fst (queue_run enq deq ops s), items (snd (queue_run enq deq ops s))) \<and>
   inv (snd (queue_run enq deq ops s)) \<and> cap (snd (queue_run enq deq ops s)) = cap s"
proof (induction ops arbitrary: s)
  case (Cons op ops)
  let ?s = "snd (queue_step enq deq op s)"
  note st = step_refines [OF Cons.prems, of op]
  from st have "inv ?s" "cap ?s = cap s" by auto
  from Cons.IH [OF this(1)] this(2) st show ?case by (auto split: prod.splits)
qed simp

end

section \<open>rtc::BufferQueue\<close>

record BufferQueue =
  bq_capacity :: nat
  bq_default_size :: nat
  bq_queue :: "8 word buffer list"
  bq_free_list :: "8 word buffer list"

definition BufferQueue_new :: "nat \<Rightarrow> nat \<Rightarrow> BufferQueue" where
  "BufferQueue_new cap default_size =
     \<lparr>bq_capacity = cap, bq_default_size = default_size, bq_queue = [], bq_free_list = []\<rparr>"

definition bq_size :: "BufferQueue \<Rightarrow> nat" where
  "bq_size q = length (bq_queue q)"

fun bq_clear_loop :: "8 word buffer list \<Rightarrow> 8 word buffer list \<Rightarrow> 8 word buffer list" where
  "bq_clear_loop [] free = free"
| "bq_clear_loop (b # bs) free = bq_clear_loop bs (free @ [b])"

definition bq_Clear :: "BufferQueue \<Rightarrow> BufferQueue" where
  "bq_Clear q = q\<lparr>bq_queue := [], bq_free_list := bq_clear_loop (bq_queue q) (bq_free_list q)\<rparr>"

text \<open>The bytes copied into the caller's memory; \<open>None\<close> when the call returns false.\<close>

definition ReadFront :: "nat \<Rightarrow> BufferQueue \<Rightarrow> bytes option \<times> BufferQueue" where
  "ReadFront bytes q =
     (case bq_queue q of
        [] \<Rightarrow> (None, q)
      | packet # rest \<Rightarrow>
          (Some (map the (take (min bytes (buf_size packet)) (buf_data packet))),
           q\<lparr>bq_queue := rest, bq_free_list := bq_free_list q @ [packet]\<rparr>))"

definition WriteBack :: "bytes \<Rightarrow> BufferQueue \<Rightarrow> bool \<times> BufferQueue" where
  "WriteBack data q =
     (if length (bq_queue q) = bq_capacity q then (False, q)
      else
        let (packet, free) =
              (if bq_free_list q \<noteq> [] then (last (bq_free_list q), butlast (bq_free_list q))
               else (Buffer_sized (length data) (bq_default_size q), bq_free_list q))
        in (True, q\<lparr>bq_free_list := free, bq_queue := bq_queue q @ [SetData data packet]\<rparr>))"

definition is_writable :: "BufferQueue \<Rightarrow> bool" where
  "is_writable q = (length (bq_queue q) < bq_capacity q)"

definition is_readable :: "BufferQueue \<Rightarrow> bool" where
  "is_readable q = (bq_queue q \<noteq> [])"

definition bq_inv :: "BufferQueue \<Rightarrow> bool" where
  "bq_inv q \<longleftrightarrow> length (bq_queue q) \<le> bq_capacity q \<and> list_all IsConsistent (bq_free_list q) \<and>
     list_all (\<lambda>b. holds b (map the (buf_data b))) (bq_queue q)"

definition bq_items :: "BufferQueue \<Rightarrow> bytes list" where
  "bq_items q = map (\<lambda>b. map the (buf_data b)) (bq_queue q)"

lemma Buffer_sized_consistent: "IsConsistent (Buffer_sized n c)"
  by (simp add: Buffer_sized_def IsConsistent_def capacity_def)

lemma holds_the: "holds b xs \<Longrightarrow> map the (buf_data b) = xs"
  by (simp add: holds_def comp_def)

lemma WriteBack_packet:
  assumes "bq_inv q" and "length (bq_queue q) \<noteq> bq_capacity q"
  shows "\<exists>b free. WriteBack data q = (True, q\<lparr>bq_free_list := free, bq_queue := bq_queue q @ [b]\<rparr>) \<and>
    holds b data \<and> list_all IsConsistent free"
proof (cases "bq_free_list q = []")
  case True
  let ?b = "SetData data (Buffer_sized (length data) (bq_default_size q))"
  have "holds ?b data" by (simp add: holds_set Buffer_sized_consistent)
  with True assms show ?thesis
    by (intro exI [of _ ?b] exI [of _ "[]"]) (simp add: WriteBack_def list_all_iff)
next
  case False
  then have "IsConsistent (last (bq_free_list q))" "list_all IsConsistent (butlast (bq_free_list q))"
    using assms(1) by (auto simp: bq_inv_def list_all_iff dest: in_set_butlastD)
  with False assms(2) show ?thesis
    by (intro exI [of _ "SetData data (last (bq_free_list q))"] exI [of _ "butlast (bq_free_list q)"])
      (simp add: WriteBack_def holds_set)
qed

lemma WriteBack_room:
  assumes "bq_inv q" and "length (bq_queue q) \<noteq> bq_capacity q"
  shows "fst (WriteBack data q)" and "bq_items (snd (WriteBack data q)) = bq_items q @ [data]"
    and "bq_inv (snd (WriteBack data q))" and "bq_capacity (snd (WriteBack data q)) = bq_capacity q"
proof -
  obtain b free where w: "WriteBack data q = (True, q\<lparr>bq_free_list := free, bq_queue := bq_queue q @ [b]\<rparr>)"
    and b: "holds b data" "list_all IsConsistent free"
    using WriteBack_packet [OF assms, of data] by blast
  note the_b = holds_the [OF b(1)]
  show "fst (WriteBack data q)" by (simp add: w)
  show "bq_items (snd (WriteBack data q)) = bq_items q @ [data]" by (simp add: w bq_items_def the_b)
  show "bq_inv (snd (WriteBack data q))"
    using assms b by (simp add: w bq_inv_def the_b)
  show "bq_capacity (snd (WriteBack data q)) = bq_capacity q" by (simp add: w)
qed

lemma WriteBack_full: "length (bq_queue q) = bq_capacity q \<Longrightarrow> WriteBack data q = (False, q)"
  by (simp add: WriteBack_def)

lemma ReadFront_cons:
  assumes "bq_inv q" and "bq_queue q = b # rest"
  shows "ReadFront n q = (Some (take n (map the (buf_data b))),
    q\<lparr>bq_queue := rest, bq_free_list := bq_free_list q @ [b]\<rparr>)"
proof -
  have "length (buf_data b) = buf_size b" using assms by (simp add: bq_inv_def holds_def length_buf_data)
  then have "take (min n (buf_size b)) (buf_data b) = take n (buf_data b)" by (simp add: min_def)
  with assms(2) show ?thesis by (simp add: ReadFront_def take_map)
qed

interpretation buffer_queue: bounded_fifo bq_items bq_capacity bq_inv WriteBack "ReadFront n" "take n" for n
proof
  fix s e
  assume i: "bq_inv s"
  show "length (bq_items s) < bq_capacity s \<Longrightarrow>
      fst (WriteBack e s) \<and> bq_items (snd (WriteBack e s)) = bq_items s @ [e]"
    using WriteBack_room(1,2) [OF i, of e] by (simp add: bq_items_def)
  show "bq_capacity s \<le> length (bq_items s) \<Longrightarrow>
      \<not> fst (WriteBack e s) \<and> bq_items (snd (WriteBack e s)) = bq_items s"
    using i WriteBack_full [of s e] by (simp add: bq_items_def bq_inv_def)
  show "bq_inv (snd (WriteBack e s)) \<and> bq_capacity (snd (WriteBack e s)) = bq_capacity s"
    using i WriteBack_room(3,4) [OF i, of e] WriteBack_full [of s e]
    by (cases "length (bq_queue s) = bq_capacity s") simp_all
next
  fix s n
  assume i: "bq_inv s"
  show "bq_items s = [] \<Longrightarrow> fst (ReadFront n s) = None \<and> bq_items (snd (ReadFront n s)) = []"
    by (simp add: ReadFront_def bq_items_def)
  show "bq_inv (snd (ReadFront n s)) \<and> bq_capacity (snd (ReadFront n s)) = bq_capacity s"
    using i by (auto simp: ReadFront_def bq_inv_def holds_def split: list.split)
  fix x xs
  show "bq_items s = x # xs \<Longrightarrow> fst (ReadFront n s) = Some (take n x) \<and> bq_items (snd (ReadFront n s)) = xs"
    using ReadFront_cons [OF i, of _ _ n] by (cases "bq_queue s") (auto simp: bq_items_def)
qed

lemma bq_clear_loop_eq: "bq_clear_loop bs free = free @ bs"
  by (induction bs arbitrary: free) simp_all

lemma bq_Clear_inv: "bq_inv q \<Longrightarrow> bq_inv (bq_Clear q) \<and> bq_items (bq_Clear q) = []"
  by (auto simp: bq_inv_def bq_Clear_def bq_items_def bq_clear_loop_eq holds_def list_all_iff)

lemma bq_inv_new: "bq_inv (BufferQueue_new c d) \<and> bq_items (BufferQueue_new c d) = []"
  by (simp add: bq_inv_def BufferQueue_new_def bq_items_def)

section \<open>ThreadQueue\<close>

record 'e ThreadQueue =
  tq_queue :: "'e list"
  tq_max :: int
  tq_isFull :: bool
  tq_isNotEmpty :: bool

definition ThreadQueue_new :: "int \<Rightarrow> 'e ThreadQueue" where
  "ThreadQueue_new m =
     \<lparr>tq_queue = [], tq_max = (if m < 0 then 1 else m), tq_isFull = False, tq_isNotEmpty = False\<rparr>"

text \<open>\<^verbatim>\<open>_queue.size() >= _max\<close>; the constructor keeps \<^verbatim>\<open>_max\<close> from being negative.\<close>

definition tq_at_max :: "'e list \<Rightarrow> 'e ThreadQueue \<Rightarrow> bool" where
  "tq_at_max q t = (tq_max t \<le> int (length q))"

definition push_back :: "'e \<Rightarrow> 'e ThreadQueue \<Rightarrow> 'e ThreadQueue" where
  "push_back val t =
     (let q = tq_queue t @ [val]
      in t\<lparr>tq_queue := q, tq_isFull := (if tq_at_max q t then True else tq_isFull t), tq_isNotEmpty := True\<rparr>)"

definition push_back_t :: "'e \<Rightarrow> 'e ThreadQueue \<Rightarrow> bool \<times> 'e ThreadQueue" where
  "push_back_t val t =
     (if tq_isFull t \<or> tq_at_max (tq_queue t) t then (False, t) else (True, push_back val t))"

text \<open>\<open>None\<close> is the default value with the flag false.\<close>

definition pop :: "'e ThreadQueue \<Rightarrow> 'e option \<times> 'e ThreadQueue" where
  "pop t =
     (if \<not> tq_isNotEmpty t then (None, t)
      else
        let val = hd (tq_queue t); q = tl (tq_queue t)
        in (Some val, t\<lparr>tq_queue := q,
              tq_isNotEmpty := (if length q = 0 then False else tq_isNotEmpty t),
              tq_isFull := (if \<not> tq_at_max q t then False else tq_isFull t)\<rparr>))"

definition tq_clear :: "'e ThreadQueue \<Rightarrow> 'e ThreadQueue" where
  "tq_clear t = t\<lparr>tq_queue := [], tq_isFull := False, tq_isNotEmpty := False\<rparr>"

text \<open>The threads take the mutex in any order; a blocking push proceeds only past its wait.\<close>

inductive tq_step :: "'e ThreadQueue \<Rightarrow> 'e ThreadQueue \<Rightarrow> bool" where
  tq_push: "\<not> tq_isFull t \<Longrightarrow> tq_step t (push_back v t)"
| tq_push_t: "tq_step t (snd (push_back_t v t))"
| tq_pop: "tq_step t (snd (pop t))"
| tq_clear: "tq_step t (tq_clear t)"

definition tq_inv :: "'e ThreadQueue \<Rightarrow> bool" where
  "tq_inv t \<longleftrightarrow> 1 \<le> tq_max t \<and> int (length (tq_queue t)) \<le> tq_max t \<and>
     (tq_isFull t \<longleftrightarrow> tq_max t = int (length (tq_queue t))) \<and> (tq_isNotEmpty t \<longleftrightarrow> tq_queue t \<noteq> [])"

lemma tq_inv_push: "tq_inv t \<Longrightarrow> \<not> tq_isFull t \<Longrightarrow> tq_inv (push_back v t)"
  by (auto simp: tq_inv_def push_back_def tq_at_max_def Let_def)

lemma tq_inv_push_t: "tq_inv t \<Longrightarrow> tq_inv (snd (push_back_t v t))"
  by (simp add: push_back_t_def tq_inv_push)

lemma tq_inv_pop: "tq_inv t \<Longrightarrow> tq_inv (snd (pop t))"
  by (cases "tq_queue t") (auto simp: tq_inv_def pop_def tq_at_max_def Let_def)

lemma tq_inv_clear: "tq_inv t \<Longrightarrow> tq_inv (tq_clear t)"
  by (auto simp: tq_inv_def tq_clear_def)

lemma tq_inv_new: "m \<noteq> 0 \<Longrightarrow> tq_inv (ThreadQueue_new m)"
  by (auto simp: tq_inv_def ThreadQueue_new_def)

lemma tq_step_inv: "tq_step t t' \<Longrightarrow> tq_inv t \<Longrightarrow> tq_inv t'"
  by (induction rule: tq_step.induct) (simp_all add: tq_inv_push tq_inv_push_t tq_inv_pop tq_inv_clear)

lemma tq_max_ops [simp]:
  "tq_max (push_back v t) = tq_max t" "tq_max (snd (push_back_t v t)) = tq_max t"
  "tq_max (snd (pop t)) = tq_max t"
  by (simp_all add: push_back_def push_back_t_def pop_def Let_def)

interpretation thread_queue: bounded_fifo tq_queue "\<lambda>t. nat (tq_max t)" tq_inv push_back_t pop id
proof
  fix s :: "'a ThreadQueue" and e :: 'a
  assume i: "tq_inv s"
  show "length (tq_queue s) < nat (tq_max s) \<Longrightarrow>
      fst (push_back_t e s) \<and> tq_queue (snd (push_back_t e s)) = tq_queue s @ [e]"
    using i by (auto simp: push_back_t_def push_back_def tq_inv_def tq_at_max_def Let_def)
  show "nat (tq_max s) \<le> length (tq_queue s) \<Longrightarrow>
      \<not> fst (push_back_t e s) \<and> tq_queue (snd (push_back_t e s)) = tq_queue s"
    using i by (auto simp: push_back_t_def tq_inv_def tq_at_max_def)
  show "tq_inv (snd (push_back_t e s)) \<and> nat (tq_max (snd (push_back_t e s))) = nat (tq_max s)"
    using tq_inv_push_t [OF i] by simp
  show "tq_queue s = [] \<Longrightarrow> fst (pop s) = None \<and> tq_queue (snd (pop s)) = []"
    using i by (simp add: pop_def tq_inv_def)
  show "tq_inv (snd (pop s)) \<and> nat (tq_max (snd (pop s))) = nat (tq_max s)"
    using tq_inv_pop [OF i] by simp
  fix x xs
  show "tq_queue s = x # xs \<Longrightarrow> fst (pop s) = Some (id x) \<and> tq_queue (snd (pop s)) = xs"
    using i by (simp add: pop_def tq_inv_def Let_def)
qed

section \<open>The queues\<close>

text \<open>
  C25: The packet queue of the DTLS stream is a bounded FIFO: on a new queue every sequence of
  writes and reads, with buffers recycled through the free list, gives the replies of a queue of
  lists of the same capacity (whole packets in order, each truncated to the reader's \<open>n\<close> bytes, a
  write refused exactly when the queue is full).
\<close>

theorem BufferQueue_is_fifo:
  "ref_run c (take n) ops [] =
     (let r = queue_run WriteBack (ReadFront n) ops (BufferQueue_new c d) in (fst r, bq_items (snd r)))"
  using buffer_queue.run_refines [of "BufferQueue_new c d" n ops] bq_inv_new [of c d]
  by (simp add: Let_def BufferQueue_new_def)

text \<open>
  C22: Whatever the interleaving of blocking and timed pushes, pops and clears of any threads, a
  \<^verbatim>\<open>ThreadQueue\<close> built with a bound other than zero keeps its two flags exact: it is marked full
  if and only if it holds its maximum and not empty if and only if it holds something, and it
  never holds more than its maximum.
\<close>

theorem ThreadQueue_flags_exact:
  assumes "tq_step\<^sup>*\<^sup>* (ThreadQueue_new m) t" and "m \<noteq> 0"
  shows "(tq_isFull t \<longleftrightarrow> tq_max t = int (length (tq_queue t))) \<and>
    (tq_isNotEmpty t \<longleftrightarrow> tq_queue t \<noteq> []) \<and> int (length (tq_queue t)) \<le> tq_max t"
proof -
  have "tq_inv t"
    using assms(1) by (induction rule: rtranclp_induct) (auto intro: tq_inv_new [OF assms(2)] tq_step_inv)
  then show ?thesis by (simp add: tq_inv_def)
qed

lemma ThreadQueue_flags_exact_witness:
  "let t = snd (pop (push_back 5 (ThreadQueue_new 1))) in
     \<not> tq_isFull t \<and> \<not> tq_isNotEmpty t \<and> tq_queue t = ([] :: nat list)"
proof -
  have "tq_step (ThreadQueue_new 1) (push_back (5 :: nat) (ThreadQueue_new 1))"
    by (rule tq_push) (simp add: ThreadQueue_new_def)
  moreover have "tq_step (push_back (5 :: nat) (ThreadQueue_new 1)) (snd (pop (push_back 5 (ThreadQueue_new 1))))"
    by (rule tq_pop)
  ultimately have "tq_step\<^sup>*\<^sup>* (ThreadQueue_new 1) (snd (pop (push_back 5 (ThreadQueue_new 1))) :: nat ThreadQueue)"
    by (meson r_into_rtranclp rtranclp_trans)
  from ThreadQueue_flags_exact [OF this] show ?thesis
    by (simp add: Let_def pop_def push_back_def ThreadQueue_new_def)
qed

text \<open>
  With the bound zero the queue deadlocks: after one push and one pop it is empty and still
  marked full, and no sequence of further pushes and pops, only a clear, lets a push through.
\<close>

theorem ThreadQueue_zero_deadlocks:
  "let t = snd (pop (push_back v (ThreadQueue_new 0))) in
     tq_queue t = [] \<and> tq_isFull t \<and> push_back_t w t = (False, t) \<and> pop t = (None, t)"
  by (simp add: Let_def pop_def push_back_def push_back_t_def ThreadQueue_new_def tq_at_max_def)

end
