(* ===== verification/ByteOrder.thy ===== *)
theory ByteOrder
  imports SfuBase
begin

text \<open>
  \<^verbatim>\<open>rtc_base/byte_order.h\<close> on a little-endian host: a word in memory is its bytes from the
  lowest up (\<open>le_bytes\<close>, \<open>le_word\<close>), the host-to-network conversions swap the bytes, and the
  \<^verbatim>\<open>GetBE\<close> and \<^verbatim>\<open>SetBE\<close> functions read and write memory through them. The lemmas show that
  what is written is the big-endian byte string of the value and that reading inverts writing.
\<close>

section \<open>Words in memory\<close>

definition le_bytes :: "nat \<Rightarrow> 'a::len word \<Rightarrow> bytes" where
  "le_bytes n w = map (\<lambda>i. ucast (drop_bit (8 * i) w)) [0..<n]"

fun le_word :: "bytes \<Rightarrow> 'a::len word" where
  "le_word [] = 0"
| "le_word (b # bs) = ucast b OR push_bit 8 (le_word bs)"

definition bswap :: "nat \<Rightarrow> 'a::len word \<Rightarrow> 'a word" where
  "bswap n w = le_word (rev (le_bytes n w))"

section \<open>Host and network order\<close>

definition HostToNetwork16 :: "u16 \<Rightarrow> u16" where
  "HostToNetwork16 n = bswap 2 n"

definition HostToNetwork32 :: "u32 \<Rightarrow> u32" where
  "HostToNetwork32 n = bswap 4 n"

definition HostToNetwork64 :: "u64 \<Rightarrow> u64" where
  "HostToNetwork64 n = bswap 8 n"

definition NetworkToHost16 :: "u16 \<Rightarrow> u16" where
  "NetworkToHost16 n = bswap 2 n"

definition NetworkToHost32 :: "u32 \<Rightarrow> u32" where
  "NetworkToHost32 n = bswap 4 n"

definition NetworkToHost64 :: "u64 \<Rightarrow> u64" where
  "NetworkToHost64 n = bswap 8 n"

section \<open>Reading and writing numbers in memory\<close>

text \<open>
  \<^verbatim>\<open>SetBE16(memory, v)\<close> overwrites the first bytes at \<^verbatim>\<open>memory\<close>; \<^verbatim>\<open>GetBE16(memory)\<close> reads them.
  A buffer that is too short is an out-of-bounds access.
\<close>

definition load :: "nat \<Rightarrow> bytes \<Rightarrow> 'a::len word res" where
  "load n m = (if n \<le> length m then ok (le_word (take n m)) else crash OutOfBounds)"

definition store :: "nat \<Rightarrow> 'a::len word \<Rightarrow> bytes \<Rightarrow> bytes res" where
  "store n v m = (if n \<le> length m then ok (le_bytes n v @ drop n m) else crash OutOfBounds)"

definition Set8 :: "bytes \<Rightarrow> nat \<Rightarrow> byte \<Rightarrow> bytes res" where
  "Set8 m offset v = (if offset < length m then ok (m[offset := v]) else crash OutOfBounds)"

definition Get8 :: "bytes \<Rightarrow> nat \<Rightarrow> byte res" where
  "Get8 m offset = nth_res m offset"

definition SetBE16 :: "bytes \<Rightarrow> u16 \<Rightarrow> bytes res" where
  "SetBE16 m v = store 2 (HostToNetwork16 v) m"

definition SetBE32 :: "bytes \<Rightarrow> u32 \<Rightarrow> bytes res" where
  "SetBE32 m v = store 4 (HostToNetwork32 v) m"

definition SetBE64 :: "bytes \<Rightarrow> u64 \<Rightarrow> bytes res" where
  "SetBE64 m v = store 8 (HostToNetwork64 v) m"

definition GetBE16 :: "bytes \<Rightarrow> u16 res" where
  "GetBE16 m = res_bind (load 2 m) (\<lambda>v. ok (NetworkToHost16 v))"

definition GetBE32 :: "bytes \<Rightarrow> u32 res" where
  "GetBE32 m = res_bind (load 4 m) (\<lambda>v. ok (NetworkToHost32 v))"

definition GetBE64 :: "bytes \<Rightarrow> u64 res" where
  "GetBE64 m = res_bind (load 8 m) (\<lambda>v. ok (NetworkToHost64 v))"

definition SetLE16 :: "bytes \<Rightarrow> u16 \<Rightarrow> bytes res" where
  "SetLE16 m v = store 2 v m"

definition SetLE32 :: "bytes \<Rightarrow> u32 \<Rightarrow> bytes res" where
  "SetLE32 m v = store 4 v m"

definition SetLE64 :: "bytes \<Rightarrow> u64 \<Rightarrow> bytes res" where
  "SetLE64 m v = store 8 v m"

definition GetLE16 :: "bytes \<Rightarrow> u16 res" where
  "GetLE16 m = load 2 m"

definition GetLE32 :: "bytes \<Rightarrow> u32 res" where
  "GetLE32 m = load 4 m"

definition GetLE64 :: "bytes \<Rightarrow> u64 res" where
  "GetLE64 m = load 8 m"

definition IsHostBigEndian :: bool where
  "IsHostBigEndian = False"

section \<open>Big-endian byte strings\<close>

text \<open>The specification the network functions are held against.\<close>

definition be_bytes :: "nat \<Rightarrow> 'a::len word \<Rightarrow> bytes" where
  "be_bytes n w = rev (le_bytes n w)"

definition be_word :: "bytes \<Rightarrow> 'a::len word" where
  "be_word bs = le_word (rev bs)"

section \<open>Lemmas\<close>

lemma length_le_bytes [simp, byte_simps]: "length (le_bytes n w) = n"
  by (simp add: le_bytes_def)

lemma length_be_bytes [simp, byte_simps]: "length (be_bytes n w) = n"
  by (simp add: be_bytes_def)

lemma bit_le_word:
  "bit (le_word bs :: 'a::len word) i \<longleftrightarrow>
     i < LENGTH('a) \<and> i div 8 < length bs \<and> bit (bs ! (i div 8)) (i mod 8)"
proof (induction bs arbitrary: i)
  case Nil
  then show ?case by simp
next
  case (Cons b bs)
  show ?case
  proof (cases "i < 8")
    case True
    then show ?thesis by (auto simp: bit_simps)
  next
    case False
    then have i: "i div 8 = Suc ((i - 8) div 8)" "i mod 8 = (i - 8) mod 8"
      by (simp_all add: le_div_geq le_mod_geq not_less)
    have "\<not> bit b i" using False by (auto dest: bit_imp_le_length)
    with False show ?thesis
      unfolding i by (auto simp: bit_simps Cons.IH)
  qed
qed

lemma nth_le_bytes: "i < n \<Longrightarrow> le_bytes n w ! i = ucast (drop_bit (8 * i) w)"
  by (simp add: le_bytes_def)

lemma le_word_le_bytes: "LENGTH('a) \<le> 8 * n \<Longrightarrow> le_word (le_bytes n w) = (w :: 'a::len word)"
proof (rule bit_eqI)
  fix i
  assume n: "LENGTH('a) \<le> 8 * n"
  show "bit (le_word (le_bytes n w) :: 'a word) i \<longleftrightarrow> bit w i"
  proof (cases "i < LENGTH('a)")
    case True
    with n have "i div 8 < n" by (simp add: less_mult_imp_div_less mult.commute)
    moreover have "8 * (i div 8) + i mod 8 = i" by simp
    ultimately show ?thesis using True
      by (auto simp: bit_le_word nth_le_bytes bit_simps)
  next
    case False
    then show ?thesis by (auto simp: bit_le_word dest: bit_imp_le_length)
  qed
qed

lemma le_bytes_le_word:
  "8 * length bs \<le> LENGTH('a) \<Longrightarrow> le_bytes (length bs) (le_word bs :: 'a::len word) = bs"
proof (rule nth_equalityI)
  fix i
  assume len: "8 * length bs \<le> LENGTH('a)" and "i < length (le_bytes (length bs) (le_word bs :: 'a word))"
  then have i: "i < length bs" by simp
  show "le_bytes (length bs) (le_word bs :: 'a word) ! i = bs ! i"
  proof (rule bit_eqI)
    fix j
    show "bit (le_bytes (length bs) (le_word bs :: 'a word) ! i) j \<longleftrightarrow> bit (bs ! i) j"
    proof (cases "j < 8")
      case True
      then have "(8 * i + j) div 8 = i" "(8 * i + j) mod 8 = j" "8 * i + j < LENGTH('a)"
        using i len by auto
      with i True show ?thesis by (simp add: nth_le_bytes bit_simps bit_le_word)
    next
      case False
      then show ?thesis by (auto dest: bit_imp_le_length)
    qed
  qed
qed simp

lemma be_word_be_bytes [byte_simps]:
  "LENGTH('a) \<le> 8 * n \<Longrightarrow> be_word (be_bytes n w) = (w :: 'a::len word)"
  by (simp add: be_word_def be_bytes_def le_word_le_bytes)

lemma be_bytes_be_word [byte_simps]:
  "8 * length bs \<le> LENGTH('a) \<Longrightarrow> be_bytes (length bs) (be_word bs :: 'a::len word) = bs"
  using le_bytes_le_word [of "rev bs", where 'a='a] by (simp add: be_word_def be_bytes_def)

text \<open>What a host word that was put into network order looks like in memory.\<close>

lemma le_bytes_bswap:
  "8 * n \<le> LENGTH('a) \<Longrightarrow> le_bytes n (bswap n w :: 'a::len word) = be_bytes n w"
  using le_bytes_le_word [of "rev (le_bytes n w)", where 'a='a]
  by (simp add: bswap_def be_bytes_def)

lemma bswap_le_word:
  "8 * length bs \<le> LENGTH('a) \<Longrightarrow> bswap (length bs) (le_word bs :: 'a::len word) = be_word bs"
  by (simp add: bswap_def be_word_def le_bytes_le_word)

lemma bswap_bswap: "LENGTH('a) = 8 * n \<Longrightarrow> bswap n (bswap n w) = (w :: 'a::len word)"
  using le_bytes_bswap [of n w] by (simp add: bswap_def [of n "bswap n w"] be_bytes_def le_word_le_bytes)

lemma HostToNetwork_bytes [byte_simps]:
  "le_bytes 2 (HostToNetwork16 a) = be_bytes 2 a"
  "le_bytes 4 (HostToNetwork32 b) = be_bytes 4 b"
  "le_bytes 8 (HostToNetwork64 c) = be_bytes 8 c"
  by (simp_all add: HostToNetwork16_def HostToNetwork32_def HostToNetwork64_def le_bytes_bswap)

lemma NetworkToHost_word [byte_simps]:
  "length p = 2 \<Longrightarrow> NetworkToHost16 (le_word p) = be_word p"
  "length q = 4 \<Longrightarrow> NetworkToHost32 (le_word q) = be_word q"
  "length r = 8 \<Longrightarrow> NetworkToHost64 (le_word r) = be_word r"
  using bswap_le_word [of p, where 'a=16] bswap_le_word [of q, where 'a=32]
    bswap_le_word [of r, where 'a=64]
  by (simp_all add: NetworkToHost16_def NetworkToHost32_def NetworkToHost64_def)

lemma NetworkToHost_HostToNetwork [simp, byte_simps]:
  "NetworkToHost16 (HostToNetwork16 a) = a" "NetworkToHost32 (HostToNetwork32 b) = b"
  "NetworkToHost64 (HostToNetwork64 c) = c"
  by (simp_all add: NetworkToHost16_def NetworkToHost32_def NetworkToHost64_def
      HostToNetwork16_def HostToNetwork32_def HostToNetwork64_def bswap_bswap)

lemma GetBE16_eq: "2 \<le> length m \<Longrightarrow> GetBE16 m = ok (be_word (take 2 m))"
  by (simp add: GetBE16_def load_def NetworkToHost_word)

lemma GetBE32_eq: "4 \<le> length m \<Longrightarrow> GetBE32 m = ok (be_word (take 4 m))"
  by (simp add: GetBE32_def load_def NetworkToHost_word)

lemma GetBE64_eq: "8 \<le> length m \<Longrightarrow> GetBE64 m = ok (be_word (take 8 m))"
  by (simp add: GetBE64_def load_def NetworkToHost_word)

lemma SetBE_eq:
  "2 \<le> length m \<Longrightarrow> SetBE16 m a = ok (be_bytes 2 a @ drop 2 m)"
  "4 \<le> length m \<Longrightarrow> SetBE32 m b = ok (be_bytes 4 b @ drop 4 m)"
  "8 \<le> length m \<Longrightarrow> SetBE64 m c = ok (be_bytes 8 c @ drop 8 m)"
  by (simp_all add: SetBE16_def SetBE32_def SetBE64_def store_def HostToNetwork_bytes)

lemma be_word2: "be_word [a, b] = (ucast b OR push_bit 8 (ucast a) :: 'a::len word)"
  by (simp add: be_word_def)

lemma be_bytes2: "be_bytes 2 (w :: u16) = [ucast (drop_bit 8 w), ucast w]"
  by (simp add: be_bytes_def le_bytes_def numeral_2_eq_2)

end
