(* ===== verification/ByteBuffer.thy ===== *)
theory ByteBuffer
  imports ByteOrder RtcBuffer
begin

text \<open>
  \<^verbatim>\<open>rtc::ByteBufferWriterT\<close> and \<^verbatim>\<open>rtc::ByteBufferReader\<close> of \<^verbatim>\<open>rtc_base/byte_buffer.{h,cc}\<close>. The
  writer is a template over the buffer class; the model passes the buffer's append operation
  as the first argument of every write. The reader is a position in a byte string; a read that
  fails returns \<open>None\<close> and the state it leaves behind, which for the varint read is not the
  state it started from.

  The locale \<open>codec\<close> is the contract between a writer's encoding and a reader's operation; each
  integer width is an interpretation of it, and sequences of values round-trip through it.
\<close>

section \<open>Writer\<close>

definition kDefaultCapacity :: nat where
  "kDefaultCapacity = 4096"

definition ByteBufferWriter :: "byte buffer" where
  "ByteBufferWriter = EnsureCapacity kDefaultCapacity Buffer_empty"

definition ByteBufferWriter_from :: "bytes \<Rightarrow> byte buffer" where
  "ByteBufferWriter_from bs = AppendData bs Buffer_empty"

definition WriteBytes :: "(bytes \<Rightarrow> 'b \<Rightarrow> 'b) \<Rightarrow> bytes \<Rightarrow> 'b \<Rightarrow> 'b" where
  "WriteBytes app val b = app val b"

definition WriteUInt8 :: "(bytes \<Rightarrow> 'b \<Rightarrow> 'b) \<Rightarrow> byte \<Rightarrow> 'b \<Rightarrow> 'b" where
  "WriteUInt8 app val b = WriteBytes app [val] b"

definition WriteUInt16 :: "(bytes \<Rightarrow> 'b \<Rightarrow> 'b) \<Rightarrow> u16 \<Rightarrow> 'b \<Rightarrow> 'b" where
  "WriteUInt16 app val b = WriteBytes app (le_bytes 2 (HostToNetwork16 val)) b"

definition WriteUInt24 :: "(bytes \<Rightarrow> 'b \<Rightarrow> 'b) \<Rightarrow> u32 \<Rightarrow> 'b \<Rightarrow> 'b" where
  "WriteUInt24 app val b = WriteBytes app (tl (le_bytes 4 (HostToNetwork32 val))) b"

definition WriteUInt32 :: "(bytes \<Rightarrow> 'b \<Rightarrow> 'b) \<Rightarrow> u32 \<Rightarrow> 'b \<Rightarrow> 'b" where
  "WriteUInt32 app val b = WriteBytes app (le_bytes 4 (HostToNetwork32 val)) b"

definition WriteUInt64 :: "(bytes \<Rightarrow> 'b \<Rightarrow> 'b) \<Rightarrow> u64 \<Rightarrow> 'b \<Rightarrow> 'b" where
  "WriteUInt64 app val b = WriteBytes app (le_bytes 8 (HostToNetwork64 val)) b"

function WriteUVarint :: "(bytes \<Rightarrow> 'b \<Rightarrow> 'b) \<Rightarrow> u64 \<Rightarrow> 'b \<Rightarrow> 'b" where
  "WriteUVarint app val b =
     (if 128 \<le> val
      then WriteUVarint app (drop_bit 7 val) (WriteBytes app [ucast val OR 128] b)
      else WriteBytes app [ucast val] b)"
  by pat_completeness auto
termination
proof (relation "measure (\<lambda>(app, val, b). unat val)", goal_cases)
  case (2 app val b)
  then have "val \<noteq> 0" by auto
  then show ?case by (simp add: unat_drop_bit_less)
qed simp

declare WriteUVarint.simps [simp del]

definition WriteString :: "(bytes \<Rightarrow> 'b \<Rightarrow> 'b) \<Rightarrow> string \<Rightarrow> 'b \<Rightarrow> 'b" where
  "WriteString app val b = WriteBytes app (bytes_of_string val) b"

definition ReserveWriteBuffer :: "nat \<Rightarrow> byte buffer \<Rightarrow> byte buffer" where
  "ReserveWriteBuffer len b = SetSize (buf_size b + len) b"

definition Resize :: "nat \<Rightarrow> byte buffer \<Rightarrow> byte buffer" where
  "Resize n b = SetSize n b"

section \<open>Reader\<close>

record reader =
  rd_bytes :: bytes
  rd_start :: nat
  rd_end :: nat

definition ByteBufferReader :: "bytes \<Rightarrow> reader" where
  "ByteBufferReader bs = \<lparr>rd_bytes = bs, rd_start = 0, rd_end = length bs\<rparr>"

definition rd_Length :: "reader \<Rightarrow> nat" where
  "rd_Length r = rd_end r - rd_start r"

definition ReadBytes :: "nat \<Rightarrow> reader \<Rightarrow> bytes option \<times> reader" where
  "ReadBytes len r =
     (if rd_Length r < len then (None, r)
      else (Some (take len (drop (rd_start r) (rd_bytes r))), r\<lparr>rd_start := rd_start r + len\<rparr>))"

definition Consume :: "nat \<Rightarrow> reader \<Rightarrow> bool \<times> reader" where
  "Consume n r =
     (if rd_Length r < n then (False, r) else (True, r\<lparr>rd_start := rd_start r + n\<rparr>))"

definition ReadString :: "nat \<Rightarrow> string \<Rightarrow> reader \<Rightarrow> string option \<times> reader" where
  "ReadString len val r =
     (if rd_Length r < len then (None, r)
      else (Some (val @ string_of_bytes (take len (drop (rd_start r) (rd_bytes r)))),
            r\<lparr>rd_start := rd_start r + len\<rparr>))"

definition ReadUInt8 :: "reader \<Rightarrow> byte option \<times> reader" where
  "ReadUInt8 r = (case ReadBytes 1 r of (v, r') \<Rightarrow> (map_option hd v, r'))"

definition ReadUInt16 :: "reader \<Rightarrow> u16 option \<times> reader" where
  "ReadUInt16 r =
     (case ReadBytes 2 r of (v, r') \<Rightarrow> (map_option (\<lambda>m. NetworkToHost16 (le_word m)) v, r'))"

definition ReadUInt24 :: "reader \<Rightarrow> u32 option \<times> reader" where
  "ReadUInt24 r =
     (case ReadBytes 3 r of
        (v, r') \<Rightarrow> (map_option (\<lambda>m. NetworkToHost32 (le_word (0 # m))) v, r'))"

definition ReadUInt32 :: "reader \<Rightarrow> u32 option \<times> reader" where
  "ReadUInt32 r =
     (case ReadBytes 4 r of (v, r') \<Rightarrow> (map_option (\<lambda>m. NetworkToHost32 (le_word m)) v, r'))"

definition ReadUInt64 :: "reader \<Rightarrow> u64 option \<times> reader" where
  "ReadUInt64 r =
     (case ReadBytes 8 r of (v, r') \<Rightarrow> (map_option (\<lambda>m. NetworkToHost64 (le_word m)) v, r'))"

text \<open>The loop runs for the shifts 0, 7, ..., 63; \<open>n\<close> counts the iterations that are left.\<close>

fun ReadUVarint_loop :: "nat \<Rightarrow> nat \<Rightarrow> u64 \<Rightarrow> reader \<Rightarrow> u64 option \<times> reader" where
  "ReadUVarint_loop 0 i v r = (None, r)"
| "ReadUVarint_loop (Suc n) i v r =
     (case ReadBytes 1 r of
        (None, r') \<Rightarrow> (None, r')
      | (Some m, r') \<Rightarrow>
          let byte = hd m; v' = v OR push_bit i (ucast byte AND 127)
          in if byte < 128 then (Some v', r') else ReadUVarint_loop n (i + 7) v' r')"

definition ReadUVarint :: "reader \<Rightarrow> u64 option \<times> reader" where
  "ReadUVarint r = ReadUVarint_loop 10 0 0 r"

section \<open>The encodings\<close>

text \<open>The bytes each write appends, and the bytes a reader still has in front of it.\<close>

function uvarint_bytes :: "u64 \<Rightarrow> bytes" where
  "uvarint_bytes val =
     (if 128 \<le> val then (ucast val OR 128) # uvarint_bytes (drop_bit 7 val) else [ucast val])"
  by pat_completeness auto
termination
proof (relation "measure unat", goal_cases)
  case (2 val)
  then have "val \<noteq> 0" by auto
  then show ?case by (simp add: unat_drop_bit_less)
qed simp

declare uvarint_bytes.simps [simp del]

definition rd_ahead :: "reader \<Rightarrow> bytes" where
  "rd_ahead r = take (rd_Length r) (drop (rd_start r) (rd_bytes r))"

definition rd_wf :: "reader \<Rightarrow> bool" where
  "rd_wf r = (rd_start r \<le> rd_end r \<and> rd_end r \<le> length (rd_bytes r))"

definition rd_skip :: "nat \<Rightarrow> reader \<Rightarrow> reader" where
  "rd_skip n r = r\<lparr>rd_start := rd_start r + n\<rparr>"

section \<open>What the writer appends\<close>

text \<open>
  The writes are stated for any buffer class that satisfies the locale's law over bytes.
\<close>

locale byte_writer = append_buffer append contents size_of
  for append :: "bytes \<Rightarrow> 'b \<Rightarrow> 'b"
    and contents :: "'b \<Rightarrow> bytes \<Rightarrow> bool"
    and size_of :: "'b \<Rightarrow> nat"
begin

lemma WriteBytes_contents: "contents b xs \<Longrightarrow> contents (WriteBytes append v b) (xs @ v)"
  by (simp add: WriteBytes_def append_contents)

lemma WriteUInt8_contents: "contents b xs \<Longrightarrow> contents (WriteUInt8 append v b) (xs @ [v])"
  by (simp add: WriteUInt8_def WriteBytes_contents)

lemma WriteUInt16_contents: "contents b xs \<Longrightarrow> contents (WriteUInt16 append v b) (xs @ be_bytes 2 v)"
  by (simp add: WriteUInt16_def WriteBytes_contents HostToNetwork_bytes)

lemma WriteUInt24_contents:
  "contents b xs \<Longrightarrow> contents (WriteUInt24 append v b) (xs @ tl (be_bytes 4 v))"
  by (simp add: WriteUInt24_def WriteBytes_contents HostToNetwork_bytes)

lemma WriteUInt32_contents: "contents b xs \<Longrightarrow> contents (WriteUInt32 append v b) (xs @ be_bytes 4 v)"
  by (simp add: WriteUInt32_def WriteBytes_contents HostToNetwork_bytes)

lemma WriteUInt64_contents: "contents b xs \<Longrightarrow> contents (WriteUInt64 append v b) (xs @ be_bytes 8 v)"
  by (simp add: WriteUInt64_def WriteBytes_contents HostToNetwork_bytes)

lemma WriteString_contents:
  "contents b xs \<Longrightarrow> contents (WriteString append s b) (xs @ bytes_of_string s)"
  by (simp add: WriteString_def WriteBytes_contents)

lemma WriteUVarint_contents:
  "contents b xs \<Longrightarrow> contents (WriteUVarint append v b) (xs @ uvarint_bytes v)"
proof (induction v arbitrary: b xs rule: uvarint_bytes.induct)
  case (1 v)
  show ?case
  proof (cases "128 \<le> v")
    case True
    from "1.IH" [OF True WriteBytes_contents [OF "1.prems", of "[ucast v OR 128]"]] True
    show ?thesis
      by (simp add: WriteUVarint.simps [of _ v] uvarint_bytes.simps [of v])
  next
    case False
    with "1.prems" show ?thesis
      by (simp add: WriteUVarint.simps [of _ v] uvarint_bytes.simps [of v] WriteBytes_contents)
  qed
qed

end

interpretation rtc_writer: byte_writer AppendData holds buf_size
  by unfold_locales

lemma holds_ByteBufferWriter: "holds ByteBufferWriter []"
  by (simp add: ByteBufferWriter_def holds_ensure)

lemma capacity_ByteBufferWriter: "capacity ByteBufferWriter = kDefaultCapacity"
  by (simp add: ByteBufferWriter_def EnsureCapacity_def EnsureCapacityWithHeadroom_def
      Buffer_empty_def capacity_def kDefaultCapacity_def buf_data_def)

lemmas writer_contents =
  rtc_writer.WriteUInt8_contents rtc_writer.WriteBytes_contents rtc_writer.WriteUInt16_contents
  rtc_writer.WriteUInt24_contents rtc_writer.WriteUInt32_contents rtc_writer.WriteUInt64_contents
  rtc_writer.WriteString_contents rtc_writer.WriteUVarint_contents

section \<open>What the reader returns\<close>

lemma rd_ahead_init [simp]: "rd_ahead (ByteBufferReader bs) = bs"
  by (simp add: rd_ahead_def rd_Length_def ByteBufferReader_def)

lemma rd_wf_init [simp]: "rd_wf (ByteBufferReader bs)"
  by (simp add: rd_wf_def ByteBufferReader_def)

lemma length_rd_ahead: "rd_wf r \<Longrightarrow> length (rd_ahead r) = rd_Length r"
  by (auto simp: rd_ahead_def rd_wf_def rd_Length_def)

lemma rd_ahead_skip: "rd_wf r \<Longrightarrow> n \<le> rd_Length r \<Longrightarrow> rd_ahead (rd_skip n r) = drop n (rd_ahead r)"
  by (simp add: rd_ahead_def rd_skip_def rd_Length_def rd_wf_def drop_take add.commute
      diff_diff_eq)

lemma rd_wf_skip: "rd_wf r \<Longrightarrow> n \<le> rd_Length r \<Longrightarrow> rd_wf (rd_skip n r)"
  by (auto simp: rd_wf_def rd_skip_def rd_Length_def)

lemma rd_skip_skip [simp]: "rd_skip m (rd_skip n r) = rd_skip (n + m) r"
  by (simp add: rd_skip_def add.assoc)

lemma rd_skip_0 [simp]: "rd_skip 0 r = r"
  by (simp add: rd_skip_def)

lemma ReadBytes_ahead:
  assumes "rd_wf r" and "rd_ahead r = xs @ ys"
  shows "ReadBytes (length xs) r = (Some xs, rd_skip (length xs) r)"
proof -
  have len: "length xs \<le> rd_Length r" using length_rd_ahead [OF assms(1)] assms(2) by simp
  have "take (length xs) (drop (rd_start r) (rd_bytes r)) = take (length xs) (rd_ahead r)"
    using len by (simp add: rd_ahead_def min_def)
  with assms(2) len show ?thesis by (simp add: ReadBytes_def rd_skip_def)
qed

lemma ReadBytes_fail: "rd_Length r < n \<Longrightarrow> ReadBytes n r = (None, r)"
  by (simp add: ReadBytes_def)

text \<open>Reading \<open>n\<close> values one after another, stopping at the first failure.\<close>

fun read_many :: "(reader \<Rightarrow> 'v option \<times> reader) \<Rightarrow> nat \<Rightarrow> reader \<Rightarrow> 'v list option \<times> reader" where
  "read_many dec 0 r = (Some [], r)"
| "read_many dec (Suc n) r =
     (case dec r of
        (None, r') \<Rightarrow> (None, r')
      | (Some v, r') \<Rightarrow> (case read_many dec n r' of (vs, r'') \<Rightarrow> (map_option ((#) v) vs, r'')))"

text \<open>The contract between an encoding and a read operation.\<close>

locale codec =
  fixes enc :: "'v \<Rightarrow> bytes"
    and dec :: "reader \<Rightarrow> 'v option \<times> reader"
    and valid :: "'v \<Rightarrow> bool"
  assumes dec_enc:
    "rd_wf r \<Longrightarrow> rd_ahead r = enc v @ rest \<Longrightarrow> valid v \<Longrightarrow> dec r = (Some v, rd_skip (length (enc v)) r)"
begin

lemma read_many_enc:
  "rd_wf r \<Longrightarrow> rd_ahead r = concat (map enc vs) @ rest \<Longrightarrow> list_all valid vs \<Longrightarrow>
   read_many dec (length vs) r = (Some vs, rd_skip (length (concat (map enc vs))) r)"
proof (induction vs arbitrary: r)
  case Nil
  then show ?case by simp
next
  case (Cons v vs)
  let ?n = "length (enc v)"
  from Cons.prems have ah: "rd_ahead r = enc v @ (concat (map enc vs) @ rest)" by simp
  have d: "dec r = (Some v, rd_skip ?n r)"
    using Cons.prems(1,3) ah by (auto intro: dec_enc)
  have n: "?n \<le> rd_Length r" using length_rd_ahead [OF Cons.prems(1)] ah by simp
  have "rd_ahead (rd_skip ?n r) = concat (map enc vs) @ rest"
    using rd_ahead_skip [OF Cons.prems(1) n] ah by simp
  from Cons.IH [OF rd_wf_skip [OF Cons.prems(1) n] this] Cons.prems(3) d
  show ?case by simp
qed

lemma roundtrip: "valid v \<Longrightarrow> fst (dec (ByteBufferReader (enc v))) = Some v"
  using dec_enc [of "ByteBufferReader (enc v)" v "[]"] by simp

end

interpretation codec8: codec "\<lambda>v. [v]" ReadUInt8 "\<lambda>_. True"
proof
  fix r :: reader and v :: byte and rest
  assume "rd_wf r" and "rd_ahead r = [v] @ rest"
  from ReadBytes_ahead [OF this] show "ReadUInt8 r = (Some v, rd_skip (length [v]) r)"
    by (simp add: ReadUInt8_def)
qed

interpretation codec16: codec "be_bytes 2" ReadUInt16 "\<lambda>_. True"
proof
  fix r :: reader and v :: u16 and rest
  assume "rd_wf r" and "rd_ahead r = be_bytes 2 v @ rest"
  from ReadBytes_ahead [OF this]
  show "ReadUInt16 r = (Some v, rd_skip (length (be_bytes 2 v)) r)"
    by (simp add: ReadUInt16_def NetworkToHost_word be_word_be_bytes)
qed

interpretation codec24: codec "\<lambda>v. tl (be_bytes 4 v)" ReadUInt24 "\<lambda>v. unat v < 2 ^ 24"
proof
  fix r :: reader and v :: u32 and rest
  assume wf: "rd_wf r" and ah: "rd_ahead r = tl (be_bytes 4 v) @ rest" and v: "unat v < 2 ^ 24"
  have "be_bytes 4 v ! 0 = le_bytes 4 v ! 3" by (simp add: be_bytes_def rev_nth)
  also have "\<dots> = ucast (drop_bit 24 v)" by (simp add: nth_le_bytes)
  also have "drop_bit 24 v = 0" using v by (intro word_unat_eq_iff [THEN iffD2]) (simp only: unat_drop_bit_div, simp)
  finally have "be_bytes 4 v ! 0 = 0" by simp
  then have "0 # tl (be_bytes 4 v) = be_bytes 4 v"
    by (cases "be_bytes 4 v") (auto dest: arg_cong [of "be_bytes 4 v" "[]" length])
  then have "NetworkToHost32 (le_word (0 # tl (be_bytes 4 v))) = v"
    by (simp only: NetworkToHost_word length_be_bytes) (simp add: be_word_be_bytes)
  with ReadBytes_ahead [OF wf ah]
  show "ReadUInt24 r = (Some v, rd_skip (length (tl (be_bytes 4 v))) r)"
    by (simp add: ReadUInt24_def del: le_word.simps)
qed

interpretation codec32: codec "be_bytes 4" ReadUInt32 "\<lambda>_. True"
proof
  fix r :: reader and v :: u32 and rest
  assume "rd_wf r" and "rd_ahead r = be_bytes 4 v @ rest"
  from ReadBytes_ahead [OF this]
  show "ReadUInt32 r = (Some v, rd_skip (length (be_bytes 4 v)) r)"
    by (simp add: ReadUInt32_def NetworkToHost_word be_word_be_bytes)
qed

interpretation codec64: codec "be_bytes 8" ReadUInt64 "\<lambda>_. True"
proof
  fix r :: reader and v :: u64 and rest
  assume "rd_wf r" and "rd_ahead r = be_bytes 8 v @ rest"
  from ReadBytes_ahead [OF this]
  show "ReadUInt64 r = (Some v, rd_skip (length (be_bytes 8 v)) r)"
    by (simp add: ReadUInt64_def NetworkToHost_word be_word_be_bytes)
qed

section \<open>Varints\<close>

lemma varint_split:
  fixes v w :: u64
  shows "(v OR push_bit i (take_bit 7 w)) OR push_bit (i + 7) (drop_bit 7 w) = v OR push_bit i w"
proof (rule bit_eqI)
  fix n
  show "bit ((v OR push_bit i (take_bit 7 w)) OR push_bit (i + 7) (drop_bit 7 w)) n \<longleftrightarrow>
      bit (v OR push_bit i w) n"
  proof (cases "n < i + 7")
    case True
    then show ?thesis by (auto simp: bit_simps)
  next
    case False
    then have "7 + (n - (i + 7)) = n - i" by simp
    with False show ?thesis by (auto simp: bit_simps)
  qed
qed

lemma varint_low: "ucast (ucast (w :: u64) OR (128 :: byte)) AND (127 :: u64) = take_bit 7 w"
proof -
  have m: "(127 :: u64) = mask 7" by (simp add: mask_eq_exp_minus_1)
  have e: "bit (128 :: byte) n \<longleftrightarrow> n = 7" "bit (128 :: u64) n \<longleftrightarrow> n = 7"
    "bit (128 :: int) n \<longleftrightarrow> n = 7" "bit (128 :: nat) n \<longleftrightarrow> n = 7" for n
    using bit_exp_iff [where 'a=byte, of 7 n] bit_exp_iff [where 'a=u64, of 7 n]
      bit_exp_iff [where 'a=int, of 7 n] bit_exp_iff [where 'a=nat, of 7 n] by auto
  show ?thesis
    unfolding m take_bit_eq_mask [symmetric]
    by (rule bit_eqI) (auto simp: bit_simps e)
qed

lemma varint_high: "\<not> (ucast (w :: u64) OR (128 :: byte)) < 128"
  by (simp add: not_less le_word_or1)

lemma ReadUVarint_loop_enc:
  "rd_wf r \<Longrightarrow> rd_ahead r = uvarint_bytes val @ rest \<Longrightarrow> unat val < 2 ^ (7 * n) \<Longrightarrow> 0 < n \<Longrightarrow>
   ReadUVarint_loop n i v r =
     (Some (v OR push_bit i val), rd_skip (length (uvarint_bytes val)) r)"
proof (induction val arbitrary: n i v r rule: uvarint_bytes.induct)
  case (1 val)
  then obtain m where n: "n = Suc m" by (cases n) auto
  show ?case
  proof (cases "128 \<le> val")
    case True
    let ?b = "ucast val OR 128 :: byte"
    have bs: "uvarint_bytes val = ?b # uvarint_bytes (drop_bit 7 val)"
      using True by (simp add: uvarint_bytes.simps [of val])
    with "1.prems"(2) have ah: "rd_ahead r = [?b] @ (uvarint_bytes (drop_bit 7 val) @ rest)" by simp
    have rd: "ReadBytes 1 r = (Some [?b], rd_skip 1 r)"
      using ReadBytes_ahead [OF "1.prems"(1) ah] by simp
    have len: "1 \<le> rd_Length r" using length_rd_ahead [OF "1.prems"(1)] ah by simp
    have wf: "rd_wf (rd_skip 1 r)" by (rule rd_wf_skip [OF "1.prems"(1) len])
    have ah': "rd_ahead (rd_skip 1 r) = uvarint_bytes (drop_bit 7 val) @ rest"
      using rd_ahead_skip [OF "1.prems"(1) len] ah by simp
    have "unat val < 128 * 2 ^ (7 * m)" using "1.prems"(3) n by (simp add: power_add)
    then have lt: "unat (drop_bit 7 val) < 2 ^ (7 * m)"
      by (simp add: unat_drop_bit_div less_mult_imp_div_less mult.commute)
    have "128 \<le> unat val" using True by (simp add: word_le_nat_alt)
    with \<open>unat val < 128 * 2 ^ (7 * m)\<close> have "0 < m" by (cases m) auto
    from "1.IH" [OF True wf ah' lt this, of "i + 7" "v OR push_bit i (take_bit 7 val)"] rd
    show ?thesis
      by (simp add: n bs varint_low varint_high varint_split Let_def del: push_bit_and)
  next
    case False
    then have lt: "val < 128" by simp
    have bs: "uvarint_bytes val = [ucast val]"
      using False by (simp add: uvarint_bytes.simps [of val])
    have rd: "ReadBytes 1 r = (Some [ucast val], rd_skip 1 r)"
      using ReadBytes_ahead [of r "[ucast val]" rest] "1.prems" bs by simp
    have "unat val < 128" using lt by (simp add: word_less_nat_alt)
    then have b: "unat (ucast val :: byte) = unat val" and "take_bit 7 val = val"
      by (simp_all add: unsigned_ucast_eq take_bit_nat_eq_self word_unat_eq_iff unsigned_take_bit_eq)
    moreover have "(127 :: u64) = mask 7" by (simp add: mask_eq_exp_minus_1)
    ultimately have "val AND 127 = val" by (simp only: take_bit_eq_mask [symmetric])
    moreover from b have "(ucast (ucast val :: byte) :: u64) = val"
      by (simp add: word_unat_eq_iff unsigned_ucast_eq unsigned_take_bit_eq take_bit_nat_eq_self)
    ultimately show ?thesis
      using rd b \<open>unat val < 128\<close> by (simp add: n bs Let_def word_less_nat_alt del: push_bit_and)
  qed
qed

interpretation codec_varint: codec uvarint_bytes ReadUVarint "\<lambda>_. True"
proof
  fix r :: reader and v :: u64 and rest
  assume "rd_wf r" and "rd_ahead r = uvarint_bytes v @ rest"
  moreover have "unat v < 2 ^ (7 * 10)"
    using unsigned_less [of v, where 'a=nat] by simp
  ultimately show "ReadUVarint r = (Some v, rd_skip (length (uvarint_bytes v)) r)"
    using ReadUVarint_loop_enc [of r v rest 10 0 0] by (simp add: ReadUVarint_def)
qed

section \<open>Whole messages\<close>

text \<open>The reader built on a writer: \<^verbatim>\<open>Construct(buf.Data(), buf.Length())\<close>.\<close>

definition ByteBufferReader_of :: "byte buffer \<Rightarrow> reader" where
  "ByteBufferReader_of w = ByteBufferReader (map the (buf_data w))"

text \<open>A message is a sequence of fields of any of the types the buffers support.\<close>

datatype field =
    F8 byte
  | F16 u16
  | F24 u32
  | F32 u32
  | F64 u64
  | FVar u64
  | FBytes bytes

fun field_ok :: "field \<Rightarrow> bool" where
  "field_ok (F24 v) = (unat v < 2 ^ 24)"
| "field_ok _ = True"

fun write_field :: "field \<Rightarrow> byte buffer \<Rightarrow> byte buffer" where
  "write_field (F8 v) = WriteUInt8 AppendData v"
| "write_field (F16 v) = WriteUInt16 AppendData v"
| "write_field (F24 v) = WriteUInt24 AppendData v"
| "write_field (F32 v) = WriteUInt32 AppendData v"
| "write_field (F64 v) = WriteUInt64 AppendData v"
| "write_field (FVar v) = WriteUVarint AppendData v"
| "write_field (FBytes v) = WriteBytes AppendData v"

text \<open>Reading a field of the same type (and, for bytes, the same length).\<close>

fun read_field :: "field \<Rightarrow> reader \<Rightarrow> field option \<times> reader" where
  "read_field (F8 _) r = (case ReadUInt8 r of (v, r') \<Rightarrow> (map_option F8 v, r'))"
| "read_field (F16 _) r = (case ReadUInt16 r of (v, r') \<Rightarrow> (map_option F16 v, r'))"
| "read_field (F24 _) r = (case ReadUInt24 r of (v, r') \<Rightarrow> (map_option F24 v, r'))"
| "read_field (F32 _) r = (case ReadUInt32 r of (v, r') \<Rightarrow> (map_option F32 v, r'))"
| "read_field (F64 _) r = (case ReadUInt64 r of (v, r') \<Rightarrow> (map_option F64 v, r'))"
| "read_field (FVar _) r = (case ReadUVarint r of (v, r') \<Rightarrow> (map_option FVar v, r'))"
| "read_field (FBytes bs) r = (case ReadBytes (length bs) r of (v, r') \<Rightarrow> (map_option FBytes v, r'))"

fun read_fields :: "field list \<Rightarrow> reader \<Rightarrow> field option list \<times> reader" where
  "read_fields [] r = ([], r)"
| "read_fields (f # fs) r =
     (case read_field f r of (v, r') \<Rightarrow> (case read_fields fs r' of (vs, r'') \<Rightarrow> (v # vs, r'')))"

fun field_bytes :: "field \<Rightarrow> bytes" where
  "field_bytes (F8 v) = [v]"
| "field_bytes (F16 v) = be_bytes 2 v"
| "field_bytes (F24 v) = tl (be_bytes 4 v)"
| "field_bytes (F32 v) = be_bytes 4 v"
| "field_bytes (F64 v) = be_bytes 8 v"
| "field_bytes (FVar v) = uvarint_bytes v"
| "field_bytes (FBytes v) = v"

lemma write_field_contents: "holds b xs \<Longrightarrow> holds (write_field f b) (xs @ field_bytes f)"
  by (cases f) (simp_all add: writer_contents)

lemma write_fields_contents:
  "holds b xs \<Longrightarrow> holds (fold write_field fs b) (xs @ concat (map field_bytes fs))"
proof (induction fs arbitrary: b xs)
  case Nil
  then show ?case by simp
next
  case (Cons f fs)
  from Cons.IH [OF write_field_contents [OF Cons.prems, of f]] show ?case by simp
qed

lemma read_field_ahead:
  assumes "rd_wf r" and "rd_ahead r = field_bytes f @ rest" and "field_ok f"
  shows "read_field f r = (Some f, rd_skip (length (field_bytes f)) r)"
  using assms
  by (cases f)
    (simp_all add: codec8.dec_enc codec16.dec_enc codec24.dec_enc codec32.dec_enc codec64.dec_enc
      codec_varint.dec_enc ReadBytes_ahead)

lemma read_fields_ahead:
  "rd_wf r \<Longrightarrow> rd_ahead r = concat (map field_bytes fs) @ rest \<Longrightarrow> list_all field_ok fs \<Longrightarrow>
   read_fields fs r = (map Some fs, rd_skip (length (concat (map field_bytes fs))) r)"
proof (induction fs arbitrary: r)
  case Nil
  then show ?case by simp
next
  case (Cons f fs)
  let ?n = "length (field_bytes f)"
  from Cons.prems have ah: "rd_ahead r = field_bytes f @ (concat (map field_bytes fs) @ rest)"
    and f: "field_ok f" and fs: "list_all field_ok fs" by simp_all
  note d = read_field_ahead [OF Cons.prems(1) ah f]
  have n: "?n \<le> rd_Length r" using length_rd_ahead [OF Cons.prems(1)] ah by simp
  have "rd_ahead (rd_skip ?n r) = concat (map field_bytes fs) @ rest"
    using rd_ahead_skip [OF Cons.prems(1) n] ah by simp
  from Cons.IH [OF rd_wf_skip [OF Cons.prems(1) n] this fs] d show ?case by simp
qed

lemma reader_of_holds: "holds w bs \<Longrightarrow> ByteBufferReader_of w = ByteBufferReader bs"
  by (simp add: ByteBufferReader_of_def holds_def comp_def)

text \<open>
  C26: Whatever sequence of 8-, 16-, 24-, 32- and 64-bit integers, varints and byte strings a
  \<^verbatim>\<open>ByteBufferWriter\<close> has written, a \<^verbatim>\<open>ByteBufferReader\<close> on it that reads the same types gets exactly
  the values back and ends at the end of the buffer. (The 24-bit write keeps three bytes, so its
  values must fit in them.)
\<close>

theorem message_roundtrip:
  assumes "list_all field_ok fs"
  shows "case read_fields fs (ByteBufferReader_of (fold write_field fs ByteBufferWriter)) of
    (vs, r) \<Rightarrow> vs = map Some fs \<and> rd_Length r = 0"
proof -
  let ?bs = "concat (map field_bytes fs)"
  have "holds (fold write_field fs ByteBufferWriter) ?bs"
    using write_fields_contents [OF holds_ByteBufferWriter] by simp
  then have r: "ByteBufferReader_of (fold write_field fs ByteBufferWriter) = ByteBufferReader ?bs"
    by (rule reader_of_holds)
  have "read_fields fs (ByteBufferReader ?bs) = (map Some fs, rd_skip (length ?bs) (ByteBufferReader ?bs))"
    using assms by (intro read_fields_ahead [where rest = "[]"]) simp_all
  moreover have "rd_Length (rd_skip (length ?bs) (ByteBufferReader ?bs)) = 0"
    by (simp add: rd_Length_def rd_skip_def ByteBufferReader_def)
  ultimately show ?thesis by (simp only: r prod.case)
qed

lemma message_roundtrip_witness:
  "case read_fields [F16 0x0101, FVar 300, F24 70000, FBytes [1, 2]]
      (ByteBufferReader_of (fold write_field [F16 0x0101, FVar 300, F24 70000, FBytes [1, 2]] ByteBufferWriter)) of
    (vs, r) \<Rightarrow> vs = map Some [F16 0x0101, FVar 300, F24 70000, FBytes [1, 2]] \<and> rd_Length r = 0"
  by (rule message_roundtrip) simp

end
