(* ===== verification/Crc.thy ===== *)
theory Crc
  imports SfuBase
begin

text \<open>
  The two checksums of the program: CRC-32 (\<^verbatim>\<open>rtc_base/crc32.cc\<close>, used for the STUN fingerprint
  and the ICE foundation) with its generated table, and the CRC-16 of \<^verbatim>\<open>utils/sutil.cpp\<close> with its
  literal table. Each table-driven loop is shown equal to the bit-serial division by the
  polynomial, updates compose over concatenation, and CRC-32 distinguishes messages that differ
  in one byte.
\<close>

section \<open>CRC-32\<close>

definition kCrc32Polynomial :: u32 where
  "kCrc32Polynomial = 0xEDB88320"

definition crc32_bit :: "u32 \<Rightarrow> u32" where
  "crc32_bit c = (if c AND 1 \<noteq> 0 then kCrc32Polynomial XOR drop_bit 1 c else drop_bit 1 c)"

definition LoadCrc32Table :: "u32 list" where
  "LoadCrc32Table = map (\<lambda>i. (crc32_bit ^^ 8) (word_of_nat i)) [0..<256]"

definition crc32_byte :: "u32 \<Rightarrow> byte \<Rightarrow> u32" where
  "crc32_byte c u = LoadCrc32Table ! unat ((c XOR ucast u) AND 0xFF) XOR drop_bit 8 c"

definition UpdateCrc32 :: "u32 \<Rightarrow> bytes \<Rightarrow> u32" where
  "UpdateCrc32 start buf = foldl crc32_byte (start XOR 0xFFFFFFFF) buf XOR 0xFFFFFFFF"

definition ComputeCrc32 :: "bytes \<Rightarrow> u32" where
  "ComputeCrc32 buf = UpdateCrc32 0 buf"

text \<open>
  The reference: the register of IEEE 802.3, fed one bit at a time. The generator is given by its
  exponents below 32; the register is reflected, so the coefficient of \<open>x\<close> to the \<open>e\<close> stands at bit \<open>31 - e\<close>.
\<close>

definition crc32_exponents :: "nat list" where
  "crc32_exponents = [26, 23, 22, 16, 12, 11, 10, 8, 7, 5, 4, 2, 1, 0]"

definition crc32_serial_bit :: "u32 \<Rightarrow> u32" where
  "crc32_serial_bit c =
     (if bit c 0 then foldr (\<lambda>e. flip_bit (31 - e)) crc32_exponents (drop_bit 1 c) else drop_bit 1 c)"

definition crc32_serial :: "u32 \<Rightarrow> byte \<Rightarrow> u32" where
  "crc32_serial c u = (crc32_serial_bit ^^ 8) (c XOR ucast u)"

section \<open>CRC-16\<close>

definition crc16tab :: "u16 list" where
  "crc16tab = [
    0x0000, 0x1021, 0x2042, 0x3063, 0x4084, 0x50a5, 0x60c6, 0x70e7,
    0x8108, 0x9129, 0xa14a, 0xb16b, 0xc18c, 0xd1ad, 0xe1ce, 0xf1ef,
    0x1231, 0x0210, 0x3273, 0x2252, 0x52b5, 0x4294, 0x72f7, 0x62d6,
    0x9339, 0x8318, 0xb37b, 0xa35a, 0xd3bd, 0xc39c, 0xf3ff, 0xe3de,
    0x2462, 0x3443, 0x0420, 0x1401, 0x64e6, 0x74c7, 0x44a4, 0x5485,
    0xa56a, 0xb54b, 0x8528, 0x9509, 0xe5ee, 0xf5cf, 0xc5ac, 0xd58d,
    0x3653, 0x2672, 0x1611, 0x0630, 0x76d7, 0x66f6, 0x5695, 0x46b4,
    0xb75b, 0xa77a, 0x9719, 0x8738, 0xf7df, 0xe7fe, 0xd79d, 0xc7bc,
    0x48c4, 0x58e5, 0x6886, 0x78a7, 0x0840, 0x1861, 0x2802, 0x3823,
    0xc9cc, 0xd9ed, 0xe98e, 0xf9af, 0x8948, 0x9969, 0xa90a, 0xb92b,
    0x5af5, 0x4ad4, 0x7ab7, 0x6a96, 0x1a71, 0x0a50, 0x3a33, 0x2a12,
    0xdbfd, 0xcbdc, 0xfbbf, 0xeb9e, 0x9b79, 0x8b58, 0xbb3b, 0xab1a,
    0x6ca6, 0x7c87, 0x4ce4, 0x5cc5, 0x2c22, 0x3c03, 0x0c60, 0x1c41,
    0xedae, 0xfd8f, 0xcdec, 0xddcd, 0xad2a, 0xbd0b, 0x8d68, 0x9d49,
    0x7e97, 0x6eb6, 0x5ed5, 0x4ef4, 0x3e13, 0x2e32, 0x1e51, 0x0e70,
    0xff9f, 0xefbe, 0xdfdd, 0xcffc, 0xbf1b, 0xaf3a, 0x9f59, 0x8f78,
    0x9188, 0x81a9, 0xb1ca, 0xa1eb, 0xd10c, 0xc12d, 0xf14e, 0xe16f,
    0x1080, 0x00a1, 0x30c2, 0x20e3, 0x5004, 0x4025, 0x7046, 0x6067,
    0x83b9, 0x9398, 0xa3fb, 0xb3da, 0xc33d, 0xd31c, 0xe37f, 0xf35e,
    0x02b1, 0x1290, 0x22f3, 0x32d2, 0x4235, 0x5214, 0x6277, 0x7256,
    0xb5ea, 0xa5cb, 0x95a8, 0x8589, 0xf56e, 0xe54f, 0xd52c, 0xc50d,
    0x34e2, 0x24c3, 0x14a0, 0x0481, 0x7466, 0x6447, 0x5424, 0x4405,
    0xa7db, 0xb7fa, 0x8799, 0x97b8, 0xe75f, 0xf77e, 0xc71d, 0xd73c,
    0x26d3, 0x36f2, 0x0691, 0x16b0, 0x6657, 0x7676, 0x4615, 0x5634,
    0xd94c, 0xc96d, 0xf90e, 0xe92f, 0x99c8, 0x89e9, 0xb98a, 0xa9ab,
    0x5844, 0x4865, 0x7806, 0x6827, 0x18c0, 0x08e1, 0x3882, 0x28a3,
    0xcb7d, 0xdb5c, 0xeb3f, 0xfb1e, 0x8bf9, 0x9bd8, 0xabbb, 0xbb9a,
    0x4a75, 0x5a54, 0x6a37, 0x7a16, 0x0af1, 0x1ad0, 0x2ab3, 0x3a92,
    0xfd2e, 0xed0f, 0xdd6c, 0xcd4d, 0xbdaa, 0xad8b, 0x9de8, 0x8dc9,
    0x7c26, 0x6c07, 0x5c64, 0x4c45, 0x3ca2, 0x2c83, 0x1ce0, 0x0cc1,
    0xef1f, 0xff3e, 0xcf5d, 0xdf7c, 0xaf9b, 0xbfba, 0x8fd9, 0x9ff8,
    0x6e17, 0x7e36, 0x4e55, 0x5e74, 0x2e93, 0x3eb2, 0x0ed1, 0x1ef0]"

definition crc16_byte :: "u16 \<Rightarrow> byte \<Rightarrow> u16" where
  "crc16_byte crc b = push_bit 8 crc XOR crc16tab ! unat ((drop_bit 8 crc XOR scast b) AND 0x00FF)"

definition crc16 :: "bytes \<Rightarrow> u16" where
  "crc16 buf = foldl crc16_byte 0 buf"

definition crc16_bit :: "u16 \<Rightarrow> u16" where
  "crc16_bit c = (if bit c 15 then push_bit 1 c XOR 0x1021 else push_bit 1 c)"

definition crc16_serial :: "u16 \<Rightarrow> byte \<Rightarrow> u16" where
  "crc16_serial c b = (crc16_bit ^^ 8) (c XOR push_bit 8 (ucast b))"

section \<open>CRC-32: linearity\<close>

lemma xor_left_cancel [simp]: "a XOR (a XOR b) = (b :: 'a::len word)"
  by (rule bit_eqI) (auto simp: bit_simps)

lemma xor_right_cancel [simp]: "(b XOR a) XOR a = (b :: 'a::len word)"
  by (rule bit_eqI) (auto simp: bit_simps)

lemma xor_cancel_left: "(c XOR a = c XOR b) = (a = (b :: 'a::len word))"
  by (metis xor_left_cancel)

lemma xor_cancel_right: "(a XOR c = b XOR c) = (a = (b :: 'a::len word))"
  by (metis xor_right_cancel)

lemma and_1_xor: "(a XOR b) AND 1 \<noteq> 0 \<longleftrightarrow> (a AND 1 \<noteq> 0) \<noteq> (b AND 1 \<noteq> (0 :: u32))"
  by (simp add: and_one_eq odd_iff_mod_2_eq_one [symmetric] even_xor_iff)

lemma crc32_bit_xor: "crc32_bit (a XOR b) = crc32_bit a XOR crc32_bit b"
  unfolding crc32_bit_def and_1_xor by (auto simp: drop_bit_xor ac_simps)

lemma crc32_bits_xor: "(crc32_bit ^^ n) (a XOR b) = (crc32_bit ^^ n) a XOR (crc32_bit ^^ n) b"
  by (induction n) (simp_all add: crc32_bit_xor)

lemma crc32_bits_high: "take_bit n c = 0 \<Longrightarrow> (crc32_bit ^^ n) c = drop_bit n c"
proof (induction n)
  case 0
  then show ?case by simp
next
  case (Suc n)
  have low: "\<not> bit c i" if "i < Suc n" for i
    using arg_cong [OF Suc.prems, of "\<lambda>x. bit x i"] that by (simp add: bit_simps)
  then have "take_bit n c = 0" by (intro bit_eqI) (auto simp: bit_simps)
  with Suc.IH have ih: "(crc32_bit ^^ n) c = drop_bit n c" .
  have "\<not> bit (drop_bit n c) 0" using low [of n] by (simp add: bit_simps)
  then have "drop_bit n c AND 1 = 0" by (simp add: and_one_eq bit_0 even_iff_mod_2_eq_zero)
  then have "crc32_bit (drop_bit n c) = drop_bit 1 (drop_bit n c)" by (simp add: crc32_bit_def)
  with ih show ?case by simp
qed

lemma and_255_take_bit: "w AND 0xFF = take_bit 8 (w :: 'a::len word)"
proof -
  have "(0xFF :: 'a word) = mask 8" by (simp add: mask_eq_exp_minus_1)
  then show ?thesis by (simp only: take_bit_eq_mask)
qed

lemma crc32_table_nth:
  "LoadCrc32Table ! unat ((c :: u32) AND 0xFF) = (crc32_bit ^^ 8) (c AND 0xFF)"
proof -
  have "unat (c AND 0xFF) < 256"
    unfolding and_255_take_bit by (simp add: unsigned_take_bit_eq take_bit_nat_less_exp [of 8, simplified])
  then show ?thesis by (simp add: LoadCrc32Table_def)
qed

lemma flips_xor: "foldr (\<lambda>e. flip_bit (31 - e)) es w = foldr (\<lambda>e. flip_bit (31 - e)) es 0 XOR (w :: u32)"
proof (induction es)
  case (Cons e es)
  then show ?case by (simp only: foldr.simps comp_apply flip_bit_eq_xor) (simp add: ac_simps)
qed simp

lemma crc32_exponents_polynomial: "foldr (\<lambda>e. flip_bit (31 - e)) crc32_exponents (0 :: u32) = kCrc32Polynomial"
  by (simp add: crc32_exponents_def kCrc32Polynomial_def flip_bit_eq_xor)

lemma crc32_serial_bit_eq: "crc32_serial_bit = crc32_bit"
  by (rule ext, simp only: crc32_serial_bit_def flips_xor [of crc32_exponents "drop_bit 1 _"] crc32_exponents_polynomial)
    (simp add: crc32_bit_def bit_0 and_one_eq odd_iff_mod_2_eq_one)

lemma crc32_serial_eq: "crc32_serial c u = (crc32_bit ^^ 8) (c XOR ucast u)"
  by (simp only: crc32_serial_def crc32_serial_bit_eq)

lemma crc32_byte_serial: "crc32_byte c u = crc32_serial c u"
proof -
  let ?x = "c XOR ucast u" let ?lo = "?x AND 0xFF" let ?hi = "?x XOR ?lo"
  have split: "?x = ?lo XOR ?hi" by (simp add: ac_simps)
  have "take_bit 8 ?hi = 0"
    unfolding and_255_take_bit by (rule bit_eqI) (auto simp: bit_simps)
  then have hi: "(crc32_bit ^^ 8) ?hi = drop_bit 8 ?hi" by (rule crc32_bits_high)
  have drop: "drop_bit 8 ?hi = drop_bit 8 c"
    unfolding and_255_take_bit by (rule bit_eqI) (auto simp: bit_simps dest: bit_imp_le_length)
  have "crc32_serial c u = (crc32_bit ^^ 8) (?lo XOR ?hi)"
    by (simp only: crc32_serial_eq split [symmetric])
  also have "\<dots> = (crc32_bit ^^ 8) ?lo XOR (crc32_bit ^^ 8) ?hi" by (rule crc32_bits_xor)
  also have "\<dots> = (crc32_bit ^^ 8) ?lo XOR drop_bit 8 c" by (simp only: hi drop)
  also have "\<dots> = crc32_byte c u" by (simp only: crc32_byte_def crc32_table_nth)
  finally show ?thesis by simp
qed

lemma UpdateCrc32_append: "UpdateCrc32 (UpdateCrc32 start xs) ys = UpdateCrc32 start (xs @ ys)"
  by (simp add: UpdateCrc32_def)

section \<open>CRC-32: injectivity\<close>

lemma crc32_bit_eq_0: "crc32_bit z = 0 \<Longrightarrow> z = 0"
proof (rule ccontr)
  assume z: "crc32_bit z = 0" "z \<noteq> 0"
  show False
  proof (cases "z AND 1 = 0")
    case True
    with z have d: "drop_bit 1 z = 0" by (simp add: crc32_bit_def)
    have "bit z i \<longleftrightarrow> bit (0 :: u32) i" for i
      using arg_cong [OF d, of "\<lambda>x. bit x (i - 1)"] True
      by (cases i) (auto simp: bit_simps and_one_eq bit_0 even_iff_mod_2_eq_zero)
    then have "z = 0" by (auto intro: bit_eqI)
    with z(2) show False by simp
  next
    case False
    with z have "kCrc32Polynomial XOR drop_bit 1 z = 0" by (simp add: crc32_bit_def)
    then have "\<not> bit (kCrc32Polynomial XOR drop_bit 1 z) 31" by simp
    then show False by (auto simp: bit_simps kCrc32Polynomial_def dest: bit_imp_le_length)
  qed
qed

lemma crc32_bits_inj: "(crc32_bit ^^ n) a = (crc32_bit ^^ n) b \<Longrightarrow> a = b"
proof (induction n)
  case 0
  then show ?case by simp
next
  case (Suc n)
  let ?a = "(crc32_bit ^^ n) a" and ?b = "(crc32_bit ^^ n) b"
  from Suc.prems have "crc32_bit (?a XOR ?b) = 0" by (simp add: crc32_bit_xor)
  then have "?a XOR ?b = 0" by (rule crc32_bit_eq_0)
  then have "?a = ?b" by (metis xor_left_cancel xor.right_neutral)
  then show ?case by (rule Suc.IH)
qed

lemma crc32_byte_inj_state: "crc32_byte c u = crc32_byte d u \<Longrightarrow> c = d"
  unfolding crc32_byte_serial crc32_serial_eq
  by (drule crc32_bits_inj) (simp only: xor_cancel_right)

lemma crc32_byte_inj_byte: "crc32_byte c u = crc32_byte c w \<Longrightarrow> u = w"
proof -
  assume "crc32_byte c u = crc32_byte c w"
  then have "c XOR ucast u = c XOR ucast w"
    unfolding crc32_byte_serial crc32_serial_eq by (rule crc32_bits_inj)
  then have "(ucast u :: u32) = ucast w" by (simp only: xor_cancel_left)
  then have e: "bit (ucast u :: u32) i = bit (ucast w :: u32) i" for i by simp
  have "bit u i = bit w i" if "i < 8" for i
    using that e [of i] by (simp add: bit_simps)
  then show "u = w" by (intro bit_word_eqI) simp
qed

lemma crc32_fold_inj: "foldl crc32_byte c ys = foldl crc32_byte d ys \<Longrightarrow> c = d"
proof (induction ys arbitrary: c d)
  case Nil
  then show ?case by simp
next
  case (Cons y ys)
  then have "crc32_byte c y = crc32_byte d y" by simp
  then show ?case by (rule crc32_byte_inj_state)
qed

section \<open>CRC-16\<close>

lemma crc16_bit_xor: "crc16_bit (a XOR b) = crc16_bit a XOR crc16_bit b"
  by (simp add: crc16_bit_def bit_simps push_bit_xor ac_simps)

lemma crc16_bits_xor: "(crc16_bit ^^ n) (a XOR b) = (crc16_bit ^^ n) a XOR (crc16_bit ^^ n) b"
  by (induction n) (simp_all add: crc16_bit_xor)

lemma crc16_bits_low:
  "(\<And>i. 16 - n \<le> i \<Longrightarrow> \<not> bit c i) \<Longrightarrow> n \<le> 16 \<Longrightarrow> (crc16_bit ^^ n) c = push_bit n c"
proof (induction n)
  case 0
  then show ?case by simp
next
  case (Suc n)
  then have ih: "(crc16_bit ^^ n) c = push_bit n c" by (intro Suc.IH) auto
  have "\<not> bit (push_bit n c) 15"
    using Suc.prems(1) [of "15 - n"] Suc.prems(2) by (auto simp: bit_simps)
  then have "crc16_bit (push_bit n c) = push_bit 1 (push_bit n c)"
    by (simp add: crc16_bit_def)
  with ih show ?case by (simp add: push_bit_push_bit)
qed

text \<open>
  A table of a linear function is built by doubling: the entries from \<open>2 ^ n\<close> on are the
  entries before it, shifted by the value at \<open>2 ^ n\<close>. The literal table is checked against
  this, so only its eight generators are computed bit by bit.
\<close>

definition double_by :: "'a::len word \<Rightarrow> 'a word list \<Rightarrow> 'a word list" where
  "double_by b t = t @ map (\<lambda>x. b XOR x) t"

fun doubling :: "'a::len word list \<Rightarrow> 'a word list" where
  "doubling [] = [0]"
| "doubling (b # bs) = double_by b (doubling bs)"

lemma word_of_nat_high:
  assumes "i < 2 ^ n" and "n < LENGTH('a)"
  shows "(word_of_nat (2 ^ n + i) :: 'a::len word) = 2 ^ n XOR word_of_nat i"
proof -
  have "\<not> bit (word_of_nat i :: 'a word) n"
    using assms(1) by (simp add: bit_of_nat_iff bit_iff_odd [of i])
  then have "(2 ^ n :: 'a word) AND word_of_nat i = 0"
    by (intro bit_eqI) (auto simp: bit_simps)
  then show ?thesis by (simp add: disjunctive_add_eq_xor)
qed

lemma doubling_linear:
  fixes f :: "'a::len word \<Rightarrow> 'a word"
  assumes lin: "\<And>a b. f (a XOR b) = f a XOR f b" and "n \<le> LENGTH('a)"
  shows "doubling (map (\<lambda>k. f (2 ^ k)) (rev [0..<n])) = map (\<lambda>i. f (word_of_nat i)) [0..<2 ^ n]"
  using assms(2)
proof (induction n)
  case 0
  have "f 0 = 0" using lin [of 0 0] by simp
  then show ?case by simp
next
  case (Suc n)
  let ?t = "map (\<lambda>i. f (word_of_nat i)) [0..<2 ^ n]"
  have up: "[0..<2 ^ Suc n] = [0..<2 ^ n] @ map (\<lambda>i. 2 ^ n + i) [0..<2 ^ n]"
    by (rule nth_equalityI) (auto simp: nth_append)
  have "f (word_of_nat (2 ^ n + i)) = f (2 ^ n) XOR f (word_of_nat i)" if "i < 2 ^ n" for i
    using that Suc.prems by (subst word_of_nat_high) (auto simp: lin)
  then have "map (\<lambda>i. f (word_of_nat (2 ^ n + i))) [0..<2 ^ n] = map (\<lambda>x. f (2 ^ n) XOR x) ?t"
    by (auto simp del: of_nat_add)
  with Suc show ?case unfolding up by (simp add: double_by_def comp_def)
qed

lemma funpow_8: "(f ^^ 8) x = f (f (f (f (f (f (f (f x)))))))"
  by (simp add: eval_nat_numeral)

lemma crc16_generators:
  "map (\<lambda>k. (crc16_bit ^^ 8) (push_bit 8 (2 ^ k))) (rev [0..<8]) =
     [0x9188, 0x48c4, 0x2462, 0x1231, 0x8108, 0x4084, 0x2042, 0x1021]"
  by (simp add: upt_rec funpow_8 crc16_bit_def)

lemma crc16tab_doubling:
  "crc16tab = doubling [0x9188, 0x48c4, 0x2462, 0x1231, 0x8108, 0x4084, 0x2042, 0x1021]"
  by (simp add: crc16tab_def double_by_def)

lemma crc16tab_eq:
  "crc16tab = map (\<lambda>i. (crc16_bit ^^ 8) (push_bit 8 (word_of_nat i))) [0..<256]"
proof -
  have "doubling (map (\<lambda>k. (crc16_bit ^^ 8) (push_bit 8 (2 ^ k))) (rev [0..<8])) =
      map (\<lambda>i. (crc16_bit ^^ 8) (push_bit 8 (word_of_nat i))) [0..<2 ^ 8]"
    by (rule doubling_linear) (simp_all add: push_bit_xor crc16_bits_xor)
  then show ?thesis unfolding crc16_generators crc16tab_doubling by simp
qed

lemma crc16_byte_serial: "crc16_byte c b = crc16_serial c b"
proof -
  let ?lo = "take_bit 8 c" let ?t = "drop_bit 8 c XOR ucast b"
  have idx: "(drop_bit 8 c XOR scast b) AND 0x00FF = take_bit 8 ?t"
    unfolding and_255_take_bit
    by (rule bit_eqI) (auto simp: bit_simps bit_signed_iff)
  have t: "take_bit 8 ?t = ?t"
    by (rule bit_eqI) (auto simp: bit_simps dest: bit_imp_le_length)
  then have lt: "unat ?t < 256"
    by (metis unsigned_take_bit_eq take_bit_nat_less_exp [of 8, simplified])
  have "c XOR push_bit 8 (ucast b) = push_bit 8 ?t XOR ?lo"
    by (rule bit_eqI) (auto simp: bit_simps dest: bit_imp_le_length)
  then have "crc16_serial c b = (crc16_bit ^^ 8) (push_bit 8 ?t) XOR (crc16_bit ^^ 8) ?lo"
    by (simp only: crc16_serial_def crc16_bits_xor)
  also have "(crc16_bit ^^ 8) ?lo = push_bit 8 ?lo"
    by (rule crc16_bits_low) (auto simp: bit_simps)
  also have "push_bit 8 ?lo = push_bit 8 c"
    by (rule bit_eqI) (auto simp: bit_simps)
  also have "(crc16_bit ^^ 8) (push_bit 8 ?t) = crc16tab ! unat ?t"
    using lt by (simp add: crc16tab_eq)
  finally show ?thesis
    unfolding crc16_byte_def idx t by (simp only: xor.commute)
qed

section \<open>The checksums\<close>

lemma foldl_crc32_serial: "foldl crc32_byte c xs = foldl crc32_serial c xs"
  by (induction xs arbitrary: c) (simp_all add: crc32_byte_serial)

lemma foldl_crc16_serial: "foldl crc16_byte c xs = foldl crc16_serial c xs"
  by (induction xs arbitrary: c) (simp_all add: crc16_byte_serial)

text \<open>
  C31: The table-driven CRC-32 of \<^verbatim>\<open>rtc_base/crc32.cc\<close> and the CRC-16 of \<^verbatim>\<open>SUtil::crc16\<close>, with its 256
  literal constants, compute on every input what the bit-serial division by the polynomials
  0xEDB88320 (reflected) and 0x1021 computes.
\<close>

theorem crc_tables_are_bit_serial:
  "UpdateCrc32 start xs = foldl crc32_serial (start XOR 0xFFFFFFFF) xs XOR 0xFFFFFFFF \<and>
   crc16 xs = foldl crc16_serial 0 xs"
  by (simp add: UpdateCrc32_def crc16_def foldl_crc32_serial foldl_crc16_serial)

lemma crc32_byte_change:
  assumes "u \<noteq> w"
  shows "ComputeCrc32 (xs @ u # ys) \<noteq> ComputeCrc32 (xs @ w # ys)"
proof
  assume "ComputeCrc32 (xs @ u # ys) = ComputeCrc32 (xs @ w # ys)"
  then have "crc32_byte (foldl crc32_byte 0xFFFFFFFF xs) u = crc32_byte (foldl crc32_byte 0xFFFFFFFF xs) w"
    by (simp add: ComputeCrc32_def UpdateCrc32_def xor_cancel_right) (rule crc32_fold_inj [of _ ys])
  then have "u = w" by (rule crc32_byte_inj_byte)
  with assms show False by simp
qed

text \<open>
  The fingerprint of a STUN packet is sensitive to every byte: changing one byte of the
  covered text, at any position, changes its CRC-32, whatever the rest of the text is.
\<close>

theorem crc32_detects_byte_change:
  assumes "u \<noteq> w"
  shows "ComputeCrc32 (xs @ u # ys) \<noteq> ComputeCrc32 (xs @ w # ys)"
  by (rule crc32_byte_change [OF assms])

lemma crc32_detects_byte_change_witness:
  "(1 :: byte) \<noteq> 2 \<and> ComputeCrc32 ([7, 9] @ 1 # [5]) \<noteq> ComputeCrc32 ([7, 9] @ 2 # [5])"
proof
  show "(1 :: byte) \<noteq> 2" by simp
  then show "ComputeCrc32 ([7, 9] @ 1 # [5]) \<noteq> ComputeCrc32 ([7, 9] @ 2 # [5])"
    by (rule crc32_detects_byte_change)
qed

end
