(* ===== verification/Sutil.thy ===== *)
theory Sutil
  imports SfuBase
begin

text \<open>
  The string and time helpers of \<^verbatim>\<open>utils/sutil.cpp\<close>. A \<^verbatim>\<open>char\<close> is a HOL character, so
  \<^verbatim>\<open>(unsigned char)c\<close> is \<open>of_char c\<close>. The loop of \<^verbatim>\<open>split\<close> does not end when the splitter is empty;
  it is a \<^theory_text>\<open>partial_function\<close>, and its termination for every other splitter is proved. The
  files, the clock and the process id are outside the model.
\<close>

section \<open>Trimming and compacting\<close>

definition blank :: "char \<Rightarrow> bool" where
  "blank c = (c = CHR '' '')"

text \<open>
  \<open>i\<close> is the index of the first character that is not a blank, \<open>j1\<close> is \<^verbatim>\<open>j + 1\<close> for the index
  \<^verbatim>\<open>j\<close> of the last one; the result is \<^verbatim>\<open>str.substr(i, j + 1)\<close>.
\<close>

definition trim :: "string \<Rightarrow> string" where
  "trim str =
     (let i = length (takeWhile blank str);
          j1 = length str - length (takeWhile blank (rev str))
      in take j1 (drop i str))"

fun compact_loop :: "bool \<Rightarrow> string \<Rightarrow> string \<Rightarrow> string" where
  "compact_loop in_string [] tmp = tmp"
| "compact_loop in_string (ch # rest) tmp =
     (if isspace ch \<and> \<not> in_string then compact_loop in_string rest tmp
      else compact_loop (if ch = CHR 0x22 then \<not> in_string else in_string) rest (tmp @ [ch]))"

definition toCompactString :: "string \<Rightarrow> string" where
  "toCompactString str = compact_loop False str []"

definition is_newline_or_tab :: "char \<Rightarrow> bool" where
  "is_newline_or_tab c = (c = CHR 0x0A \<or> c = CHR 0x09)"

fun compact_with_loop :: "bool \<Rightarrow> string \<Rightarrow> string \<Rightarrow> string" where
  "compact_with_loop in_string [] out_str = out_str"
| "compact_with_loop in_string (ch # rest) out_str =
     (if isspace ch \<and> \<not> in_string then compact_with_loop in_string rest out_str
      else if is_newline_or_tab ch \<and> \<not> in_string then compact_with_loop in_string rest out_str
      else compact_with_loop (if ch = CHR 0x22 then \<not> in_string else in_string) rest
             (out_str @ [ch]))"

definition toCompactStringWith :: "string \<Rightarrow> string \<Rightarrow> nat \<Rightarrow> string" where
  "toCompactStringWith in_str out_str header_len =
     compact_with_loop False in_str (out_str @ replicate header_len (CHR 0x00))"

section \<open>Paths\<close>

function win_path_loop :: "string \<Rightarrow> nat \<Rightarrow> string" where
  "win_path_loop temp off =
     (case str_find temp [CHR ''/''] off of
        None \<Rightarrow> temp
      | Some pos \<Rightarrow> win_path_loop (temp[pos := CHR 0x5C]) (pos + 2))"
  by pat_completeness auto
termination
proof (relation "measure (\<lambda>(temp, off). length temp + 2 - off)", goal_cases)
  case (2 temp off pos)
  from str_find_SomeD(1,2) [OF 2] have "off \<le> pos" "pos + 1 \<le> length temp" by auto
  then show ?case by simp
qed simp

declare win_path_loop.simps [simp del]

definition toWinStylePath :: "string \<Rightarrow> string" where
  "toWinStylePath path = win_path_loop path 0"

section \<open>Hexadecimal text\<close>

definition kHexStr :: string where
  "kHexStr = ''0123456789abcdef''"

definition hex_digit :: "nat \<Rightarrow> char" where
  "hex_digit n = kHexStr ! n"

text \<open>\<^verbatim>\<open>%02x\<close> of an unsigned char.\<close>

definition printf_02x :: "char \<Rightarrow> string" where
  "printf_02x c = [hex_digit (of_char c div 16), hex_digit (of_char c mod 16)]"

fun str2Hex_loop :: "string \<Rightarrow> string \<Rightarrow> string" where
  "str2Hex_loop [] outstr = outstr"
| "str2Hex_loop (c # cs) outstr = str2Hex_loop cs (outstr @ printf_02x c)"

definition str2Hex :: "string \<Rightarrow> string" where
  "str2Hex str = str2Hex_loop str ''''"

text \<open>\<^verbatim>\<open>strtol(tmp, \&p, 16)\<close>: blanks, a sign, an optional \<^verbatim>\<open>0x\<close>, then the longest run of digits.\<close>

definition hex_value :: "char \<Rightarrow> nat option" where
  "hex_value c =
     (let n = (of_char c :: nat)
      in if 48 \<le> n \<and> n \<le> 57 then Some (n - 48)
         else if 65 \<le> n \<and> n \<le> 70 then Some (n - 55)
         else if 97 \<le> n \<and> n \<le> 102 then Some (n - 87)
         else None)"

fun hex_run :: "nat \<Rightarrow> string \<Rightarrow> nat" where
  "hex_run acc [] = acc"
| "hex_run acc (c # cs) = (case hex_value c of None \<Rightarrow> acc | Some d \<Rightarrow> hex_run (16 * acc + d) cs)"

definition hex_unsigned :: "string \<Rightarrow> nat" where
  "hex_unsigned s =
     (case s of
        z # x # d # rest \<Rightarrow>
          if z = CHR ''0'' \<and> (x = CHR ''x'' \<or> x = CHR ''X'') \<and> hex_value d \<noteq> None
          then hex_run 0 (d # rest) else hex_run 0 s
      | _ \<Rightarrow> hex_run 0 s)"

definition strtol16 :: "string \<Rightarrow> int" where
  "strtol16 s =
     (case skip_space s of
        [] \<Rightarrow> 0
      | c # cs \<Rightarrow>
          if c = CHR ''-'' then - int (hex_unsigned cs)
          else if c = CHR ''+'' then int (hex_unsigned cs)
          else int (hex_unsigned (c # cs)))"

text \<open>\<^verbatim>\<open>(char)\<close> of a long keeps its low eight bits.\<close>

definition char_cast :: "int \<Rightarrow> char" where
  "char_cast i = char_of (nat (i mod 256))"

text \<open>
  \<^verbatim>\<open>tmp\<close> holds the pair and a terminating zero, so an embedded zero ends the text early: a NUL is
  no digit, blank or sign, and \<open>strtol16\<close> stops there as well.
\<close>

fun hex2Str :: "string \<Rightarrow> string" where
  "hex2Str (a # b # rest) = char_cast (strtol16 [a, b]) # hex2Str rest"
| "hex2Str _ = []"

fun buffer2Hex :: "string \<Rightarrow> string" where
  "buffer2Hex [] = []"
| "buffer2Hex (c # cs) =
     kHexStr ! ((of_char c AND 0xf0) div 16) # kHexStr ! (of_char c AND 0x0f) # buffer2Hex cs"

section \<open>Time\<close>

text \<open>The \<^verbatim>\<open>gettimeofday\<close> branch, over the fields of the \<^verbatim>\<open>timeval\<close>.\<close>

definition getTimeStampMilli :: "int \<Rightarrow> int \<Rightarrow> int" where
  "getTimeStampMilli tv_sec tv_usec = tv_sec * 1000 + tv_usec div 1000"

definition getTimeStampMicro :: "int \<Rightarrow> int \<Rightarrow> int" where
  "getTimeStampMicro tv_sec tv_usec = tv_sec * 1000 + tv_usec"

record tm =
  tm_year :: nat
  tm_mon :: nat
  tm_mday :: nat
  tm_hour :: nat
  tm_min :: nat
  tm_sec :: nat

definition pad2 :: "string \<Rightarrow> string" where
  "pad2 s = (if length s = 1 then CHR ''0'' # s else s)"

definition toDateTimeString :: "tm \<Rightarrow> string" where
  "toDateTimeString t =
     (let yearStr = dec_nat (tm_year t + 1900);
          monthStr = dec_nat (tm_mon t + 1);
          dayStr = dec_nat (tm_mday t);
          hourStr = dec_nat (tm_hour t);
          minuteStr = pad2 (dec_nat (tm_min t));
          secondStr = pad2 (dec_nat (tm_sec t))
      in yearStr @ ''-'' @ monthStr @ ''-'' @ dayStr @ '' '' @ hourStr @ '':'' @ minuteStr @ '':'' @
         secondStr)"

section \<open>Splitting\<close>

partial_function (option) split_loop ::
  "'a list \<Rightarrow> 'a list \<Rightarrow> nat \<Rightarrow> nat option \<Rightarrow> 'a list list \<Rightarrow> 'a list list option" where
  "split_loop text splitter offset pos vecs =
     (case pos of
        None \<Rightarrow>
          Some (if offset < length text then vecs @ [drop offset text] else vecs)
      | Some p \<Rightarrow>
          split_loop text splitter (p + length splitter)
            (str_find text splitter (p + length splitter))
            (if p - offset > 0 then vecs @ [take (p - offset) (drop offset text)] else vecs))"

definition split :: "'a list \<Rightarrow> 'a list \<Rightarrow> 'a list list option" where
  "split text splitter = split_loop text splitter 0 (str_find text splitter 0) []"

text \<open>The call as its callers see it: a loop that never ends is a fault.\<close>

definition split_r :: "'a list \<Rightarrow> 'a list \<Rightarrow> 'a list list res" where
  "split_r text splitter =
     (case split text splitter of None \<Rightarrow> crash Diverges | Some v \<Rightarrow> ok v)"

section \<open>Reference definitions\<close>

fun compact :: "bool \<Rightarrow> string \<Rightarrow> string" where
  "compact in_string [] = []"
| "compact in_string (ch # rest) =
     (if isspace ch \<and> \<not> in_string then compact in_string rest
      else ch # compact (if ch = CHR 0x22 then \<not> in_string else in_string) rest)"

definition win_char :: "char \<Rightarrow> char" where
  "win_char c = (if c = CHR ''/'' then CHR 0x5C else c)"

text \<open>The fields between separators, empty ones dropped.\<close>

function tokens :: "'a \<Rightarrow> 'a list \<Rightarrow> 'a list list" where
  "tokens c xs =
     (let w = takeWhile (\<lambda>x. x \<noteq> c) xs; r = dropWhile (\<lambda>x. x \<noteq> c) xs
      in (if w = [] then [] else [w]) @ (if r = [] then [] else tokens c (tl r)))"
  by pat_completeness auto
termination
proof (relation "measure (length \<circ> snd)", goal_cases)
  case (2 c xs w r)
  then have "r \<noteq> []" "r = dropWhile (\<lambda>x. x \<noteq> c) xs" by auto
  then have "length (tl r) < length r" "length r \<le> length xs"
    by (simp_all add: length_dropWhile_le)
  then show ?case by simp
qed simp

declare tokens.simps [simp del]

fun join_by :: "'a \<Rightarrow> 'a list list \<Rightarrow> 'a list" where
  "join_by c [] = []"
| "join_by c [t] = t"
| "join_by c (t # ts) = t @ c # join_by c ts"

section \<open>Trimming and compacting: lemmas\<close>

lemma takeWhile_blanks:
  "core \<noteq> [] \<Longrightarrow> \<not> blank (hd core) \<Longrightarrow>
   takeWhile blank (replicate i (CHR '' '') @ core @ ys) = replicate i (CHR '' '')"
  by (induction i) (auto simp: blank_def neq_Nil_conv)

lemma trim_core:
  assumes core: "core \<noteq> []" "\<not> blank (hd core)" "\<not> blank (last core)"
  shows "trim (replicate i (CHR '' '') @ core @ replicate t (CHR '' '')) =
    core @ replicate (min i t) (CHR '' '')"
proof -
  let ?s = "replicate i (CHR '' '') @ core @ replicate t (CHR '' '')"
  have i: "takeWhile blank ?s = replicate i (CHR '' '')"
    by (rule takeWhile_blanks [OF core(1,2)])
  have "takeWhile blank (rev ?s) = replicate t (CHR '' '')"
    using takeWhile_blanks [of "rev core" t "replicate i (CHR '' '')"] core
    by (simp add: hd_rev)
  with i show ?thesis by (simp add: trim_def Let_def min_def)
qed

lemma compact_loop_eq: "compact_loop b s tmp = tmp @ compact b s"
  by (induction b s tmp rule: compact_loop.induct) auto

lemma newline_or_tab_space: "is_newline_or_tab c \<Longrightarrow> isspace c"
  by (auto simp: is_newline_or_tab_def isspace_def)

lemma compact_with_loop_eq: "compact_with_loop b s out = out @ compact b s"
  by (induction b s out rule: compact_with_loop.induct) (auto dest: newline_or_tab_space)

lemma compact_idem: "compact b (compact b s) = compact b s"
  by (induction b s rule: compact.induct) auto

lemma toCompactString_eq: "toCompactString s = compact False s"
  by (simp add: toCompactString_def compact_loop_eq)

lemma toCompactStringWith_eq:
  "toCompactStringWith s out n = out @ replicate n (CHR 0x00) @ toCompactString s"
  by (simp add: toCompactStringWith_def compact_with_loop_eq toCompactString_eq)

section \<open>Paths: lemmas\<close>

definition no_double_slash_from :: "nat \<Rightarrow> string \<Rightarrow> bool" where
  "no_double_slash_from off s =
     (\<forall>k. off \<le> k \<longrightarrow> Suc k < length s \<longrightarrow> \<not> (s ! k = CHR ''/'' \<and> s ! Suc k = CHR ''/''))"

lemma no_slash_win_map: "CHR ''/'' \<notin> set s \<Longrightarrow> map win_char s = s"
  by (auto simp: win_char_def intro: map_idI)

lemma win_path_loop_eq:
  "no_double_slash_from off s \<Longrightarrow>
   win_path_loop s off = take off s @ map win_char (drop off s)"
proof (induction s off rule: win_path_loop.induct)
  case (1 s off)
  show ?case
  proof (cases "str_find s [CHR ''/''] off")
    case None
    then have "CHR ''/'' \<notin> set (drop off s)"
      by (cases "off \<le> length s") (auto simp: str_find_single split: if_splits)
    with None show ?thesis by (simp add: win_path_loop.simps [of s off] no_slash_win_map)
  next
    case (Some p)
    note f = str_find_SomeD [OF Some]
    let ?s = "s[p := CHR 0x5C]"
    have sp: "s ! p = CHR ''/''" "p < length s" using f(2,3)
      by (auto simp: take_Suc_conv_app_nth hd_drop_conv_nth take_Suc)
    have clean: "s ! k \<noteq> CHR ''/''" if "off \<le> k" "k < p" for k
      using f(4) [OF that] that sp(2) by (auto simp: prefix_def drop_Suc Cons_nth_drop_Suc [symmetric])
    have nd: "no_double_slash_from (p + 2) ?s"
      using "1.prems" f(1) by (auto simp: no_double_slash_from_def)
    have step: "win_path_loop s off = take (p + 2) ?s @ map win_char (drop (p + 2) ?s)"
      using Some "1.IH" [OF Some nd] by (simp add: win_path_loop.simps [of s off])
    have nxt: "Suc p < length s \<Longrightarrow> s ! Suc p \<noteq> CHR ''/''"
      using "1.prems" f(1) sp by (auto simp: no_double_slash_from_def)
    show ?thesis unfolding step
    proof (rule nth_equalityI)
      show "length (take (p + 2) ?s @ map win_char (drop (p + 2) ?s)) =
          length (take off s @ map win_char (drop off s))" by simp
    next
      fix k
      assume "k < length (take (p + 2) ?s @ map win_char (drop (p + 2) ?s))"
      then have k: "k < length s" by simp
      show "(take (p + 2) ?s @ map win_char (drop (p + 2) ?s)) ! k =
          (take off s @ map win_char (drop off s)) ! k"
      proof (cases "k < p + 2")
        case True
        then consider "k < off" | "off \<le> k" "k < p" | "k = p" | "k = Suc p" by linarith
        then show ?thesis
          using k True f(1) sp clean [of k] nxt
          by cases (auto simp: nth_append win_char_def)
      next
        case False
        then have "Suc (Suc (k - 2)) = k" by simp
        with False show ?thesis using k f(1) by (auto simp: nth_append)
      qed
    qed
  qed
qed

section \<open>Hexadecimal text: lemmas\<close>

lemma less_16_cases:
  assumes "(n::nat) < 16"
  shows "n \<in> {0, 1, 2, 3, 4, 5, 6, 7, 8, 9, 10, 11, 12, 13, 14, 15}"
  unfolding insert_iff empty_iff using assms by presburger

lemma hex_digit_props:
  assumes "n < 16"
  shows "hex_value (hex_digit n) = Some n" "\<not> isspace (hex_digit n)"
    "hex_digit n \<noteq> CHR ''-''" "hex_digit n \<noteq> CHR ''+''"
  using less_16_cases [OF assms]
  by (auto simp: hex_digit_def kHexStr_def hex_value_def isspace_def)

lemma of_char_div_16 [simp]: "(of_char c :: nat) div 16 < 16"
proof -
  have "(of_char c :: nat) < 256" by simp
  then show ?thesis by (simp only: less_mult_imp_div_less [of _ 16 16, simplified])
qed

lemma strtol16_printf: "char_cast (strtol16 (printf_02x c)) = c"
proof -
  have "strtol16 (printf_02x c) = int (of_char c)"
    by (simp add: strtol16_def printf_02x_def hex_digit_props hex_unsigned_def)
  then show ?thesis by (simp add: char_cast_def nat_mod_distrib)
qed

lemma str2Hex_loop_eq: "str2Hex_loop s out = out @ concat (map printf_02x s)"
  by (induction s out rule: str2Hex_loop.induct) auto

lemma str2Hex_eq: "str2Hex s = concat (map printf_02x s)"
  by (simp add: str2Hex_def str2Hex_loop_eq)

lemma hex2Str_concat: "hex2Str (concat (map printf_02x s)) = s"
  by (induction s) (simp_all add: printf_02x_def strtol16_printf [unfolded printf_02x_def])

lemma nat_and_240: "(n AND 240) div 16 = n div 16 mod (16 :: nat)"
proof -
  have "(n AND 240) div 16 = drop_bit 4 (n AND 240)" by (simp add: drop_bit_eq_div)
  also have "\<dots> = drop_bit 4 n AND 15" by simp
  also have "\<dots> = take_bit 4 (drop_bit 4 n)" by (simp add: take_bit_eq_mask mask_eq_exp_minus_1)
  finally show ?thesis by (simp add: drop_bit_eq_div take_bit_eq_mod)
qed

lemma nat_and_15: "n AND 15 = n mod (16 :: nat)"
  using take_bit_eq_mask [of 4 n] by (simp add: mask_eq_exp_minus_1 take_bit_eq_mod)

lemma buffer2Hex_eq: "buffer2Hex s = concat (map printf_02x s)"
  by (induction s) (simp_all add: printf_02x_def hex_digit_def nat_and_240 nat_and_15)

section \<open>Splitting: lemmas\<close>

lemma split_loop_total:
  assumes "splitter \<noteq> []"
  shows "pos = None \<or> offset \<le> the pos \<and> the pos + length splitter \<le> length text \<Longrightarrow>
    \<exists>v. split_loop text splitter offset pos vecs = Some v"
proof (induction "length text - offset" arbitrary: offset pos vecs rule: less_induct)
  case less
  show ?case
  proof (cases pos)
    case None
    then show ?thesis by (simp add: split_loop.simps)
  next
    case (Some p)
    let ?o = "p + length splitter" and ?n = "str_find text splitter (p + length splitter)"
    have "0 < length splitter" "offset \<le> p" "p + length splitter \<le> length text"
      using assms less.prems Some by auto
    then have lt: "length text - ?o < length text - offset" by arith
    have "?n = None \<or> ?o \<le> the ?n \<and> the ?n + length splitter \<le> length text"
      using str_find_SomeD(1,2) [of "text" splitter ?o] by (cases ?n) auto
    from less.hyps [OF lt this] Some show ?thesis by (subst split_loop.simps) auto
  qed
qed

lemma tokens_sep:
  "c \<in> set xs \<Longrightarrow>
   tokens c xs = (if takeWhile (\<lambda>x. x \<noteq> c) xs = [] then [] else [takeWhile (\<lambda>x. x \<noteq> c) xs]) @
     tokens c (tl (dropWhile (\<lambda>x. x \<noteq> c) xs))"
  by (subst tokens.simps) (auto simp: Let_def)

lemma tokens_no_sep: "c \<notin> set xs \<Longrightarrow> tokens c xs = (if xs = [] then [] else [xs])"
proof -
  assume "c \<notin> set xs"
  then have "takeWhile (\<lambda>x. x \<noteq> c) xs = xs" "dropWhile (\<lambda>x. x \<noteq> c) xs = []"
    by (auto simp: takeWhile_eq_all_conv)
  then show ?thesis by (simp only: tokens.simps [of c xs] Let_def) simp
qed

lemma takeWhile_drop_index:
  "c \<in> set xs \<Longrightarrow> drop (Suc (length (takeWhile (\<lambda>x. x \<noteq> c) xs))) xs = tl (dropWhile (\<lambda>x. x \<noteq> c) xs)"
  by (simp add: dropWhile_eq_drop tl_drop drop_Suc)

lemma split_loop_char:
  "offset \<le> length text \<Longrightarrow>
   split_loop text [c] offset (str_find text [c] offset) vecs = Some (vecs @ tokens c (drop offset text))"
proof (induction "length text - offset" arbitrary: offset vecs rule: less_induct)
  case less
  let ?xs = "drop offset text" let ?w = "takeWhile (\<lambda>x. x \<noteq> c) ?xs"
  show ?case
  proof (cases "c \<in> set ?xs")
    case True
    let ?p = "offset + length ?w"
    have f: "str_find text [c] offset = Some ?p" using True less.prems by (simp add: str_find_single)
    have p: "?p + 1 \<le> length text" using str_find_SomeD(2) [OF f] by simp
    have w: "take (length ?w) ?xs = ?w" by (metis takeWhile_eq_take)
    have r: "drop (Suc ?p) text = tl (dropWhile (\<lambda>x. x \<noteq> c) ?xs)"
      using takeWhile_drop_index [OF True] by (simp add: add.commute)
    have t: "tokens c ?xs = (if ?w = [] then [] else [?w]) @ tokens c (drop (Suc ?p) text)"
      unfolding r by (rule tokens_sep [OF True])
    have lt: "length text - Suc ?p < length text - offset" using p by simp
    have ih: "\<And>v. split_loop text [c] (Suc ?p) (str_find text [c] (Suc ?p)) v =
        Some (v @ tokens c (drop (Suc ?p) text))"
      using p by (intro less.hyps [OF lt]) simp
    show ?thesis
      unfolding f t
      using ih [of vecs]
      by (subst split_loop.simps, cases "?w = []") (simp_all add: ih w del: takeWhile_eq_Nil_iff)
  next
    case False
    then have f: "str_find text [c] offset = None" using less.prems by (simp add: str_find_single)
    show ?thesis
      using f less.prems by (subst split_loop.simps) (auto simp: tokens_no_sep [OF False])
  qed
qed

lemma split_char: "split text [c] = Some (tokens c text)"
  using split_loop_char [of 0 "text" c "[]"] by (simp add: split_def)

lemma split_r_char [simp]: "split_r text [c] = ok (tokens c text)"
  by (simp add: split_r_def split_char)

lemma tokens_wf: "t \<in> set (tokens c xs) \<Longrightarrow> t \<noteq> [] \<and> c \<notin> set t"
proof (induction c xs rule: tokens.induct)
  case (1 c xs)
  show ?case
    using "1.prems" "1.IH" [OF refl refl]
    by (subst (asm) tokens.simps) (auto simp: Let_def split: if_splits dest: set_takeWhileD)
qed

lemma tokens_append_sep:
  assumes "t \<noteq> []" and "c \<notin> set t"
  shows "tokens c (t @ c # xs) = t # tokens c xs" and "tokens c t = [t]"
proof -
  have t: "\<And>x. x \<in> set t \<Longrightarrow> x \<noteq> c" using assms(2) by auto
  have "takeWhile (\<lambda>x. x \<noteq> c) (t @ c # xs) = t" "dropWhile (\<lambda>x. x \<noteq> c) (t @ c # xs) = c # xs"
    using t by (auto simp: takeWhile_append dropWhile_append)
  then show "tokens c (t @ c # xs) = t # tokens c xs"
    using assms(1) by (subst tokens.simps) (simp add: Let_def)
  show "tokens c t = [t]" using assms by (simp add: tokens_no_sep)
qed

lemma tokens_join:
  "\<forall>t \<in> set ts. t \<noteq> [] \<and> c \<notin> set t \<Longrightarrow> tokens c (join_by c ts) = ts"
  by (induction c ts rule: join_by.induct) (simp_all add: tokens_append_sep tokens_no_sep)

lemma split_total: "splitter \<noteq> [] \<Longrightarrow> \<exists>v. split text splitter = Some v"
  unfolding split_def using str_find_SomeD(1,2) [of "text" splitter 0]
  by (intro split_loop_total) (cases "str_find text splitter 0"; auto)+

lemma str_find_empty: "off \<le> length text \<Longrightarrow> str_find text [] off = Some off"
  by (cases "drop off text") (auto simp: str_find_def)

lemma split_loop_empty:
  "split_loop text splitter offset pos vecs = Some v \<Longrightarrow>
   splitter = [] \<longrightarrow> (\<forall>p. pos = Some p \<longrightarrow> \<not> p \<le> length text)" for v
  by (rule split_loop.raw_induct
      [where P = "\<lambda>text splitter _ pos _ _. splitter = [] \<longrightarrow> (\<forall>p. pos = Some p \<longrightarrow> \<not> p \<le> length text)"])
    (fastforce simp: str_find_empty split: option.splits)+

section \<open>The helpers\<close>

text \<open>
  C34: \<^verbatim>\<open>SUtil::split\<close> returns for every text exactly when the splitter is not empty; the empty
  splitter makes its loop run forever on every text.
\<close>

theorem split_returns_iff: "(\<exists>vecs. split text splitter = Some vecs) \<longleftrightarrow> splitter \<noteq> []"
  using split_total [of splitter "text"] split_loop_empty [of "text" splitter 0 "Some 0" "[]"]
  by (auto simp: split_def str_find_empty)

text \<open>
  With a one-character splitter \<^verbatim>\<open>SUtil::split\<close> yields the non-empty fields between the
  separators, in order: it inverts joining any list of non-empty fields free of the separator,
  and every field of a result is non-empty and free of it.
\<close>

theorem split_inverts_join:
  assumes "\<forall>t \<in> set ts. t \<noteq> [] \<and> c \<notin> set t"
  shows "split (join_by c ts) [c] = Some ts \<and>
    (\<forall>t \<in> set (the (split text [c])). t \<noteq> [] \<and> c \<notin> set t)"
  using assms by (auto simp: split_char tokens_join dest: tokens_wf)

lemma split_inverts_join_witness:
  "split (join_by CHR '' '' [''a=group:BUNDLE'', ''0'', ''1'']) '' '' =
     Some [''a=group:BUNDLE'', ''0'', ''1'']"
  using split_inverts_join [of "[''a=group:BUNDLE'', ''0'', ''1'']" "CHR '' ''"] by simp

text \<open>
  \<^verbatim>\<open>hex2Str\<close> inverts \<^verbatim>\<open>str2Hex\<close> on every byte string, zero bytes and bytes above 0x7f included,
  and \<^verbatim>\<open>buffer2Hex\<close> prints the same text as \<^verbatim>\<open>str2Hex\<close>.
\<close>

theorem hex_roundtrip: "hex2Str (str2Hex s) = s \<and> buffer2Hex s = str2Hex s"
  by (simp add: str2Hex_eq hex2Str_concat buffer2Hex_eq)

end
