(* ===== verification/StringEncode.thy ===== *)
theory StringEncode
  imports Sutil
begin

text \<open>
  \<^verbatim>\<open>rtc_base/string_encode.cc\<close>: hexadecimal text with an optional delimiter, the field splitters
  \<^verbatim>\<open>split\<close>, \<^verbatim>\<open>tokenize\<close> and \<^verbatim>\<open>tokenize_first\<close>, \<^verbatim>\<open>join\<close> and the printers. The delimiter zero means
  no delimiter, as in the code. A \<^verbatim>\<open>for\<close> loop over the source's indices is a fold over \<open>[0..<n]\<close>.
  Decoding writes into a caller's buffer of \<open>buflen\<close> characters, and a write behind its end is a
  fault of the model. The code's return value is the length of the text the model returns.
\<close>

section \<open>Hexadecimal text\<close>

definition HEX :: string where
  "HEX = ''0123456789abcdef''"

definition hex_encode_char :: "nat \<Rightarrow> char" where
  "hex_encode_char val = (if val < 16 then HEX ! val else CHR 0x21)"

definition hex_decode_char :: "char \<Rightarrow> nat option" where
  "hex_decode_char ch =
     (let n = (of_char ch :: nat)
      in if 48 \<le> n \<and> n \<le> 57 then Some (n - 48)
         else if 65 \<le> n \<and> n \<le> 70 then Some (n - 65 + 10)
         else if 97 \<le> n \<and> n \<le> 102 then Some (n - 97 + 10)
         else None)"

definition hex_encode_output_length :: "nat \<Rightarrow> char \<Rightarrow> nat" where
  "hex_encode_output_length srclen delimiter =
     (if delimiter \<noteq> CHR 0x00 \<and> 0 < srclen then srclen * 3 - 1 else srclen * 2)"

fun hex_encode_loop :: "char \<Rightarrow> string \<Rightarrow> string" where
  "hex_encode_loop delimiter [] = []"
| "hex_encode_loop delimiter (ch # rest) =
     hex_encode_char (of_char ch div 16 mod 16) # hex_encode_char (of_char ch mod 16) #
     (if delimiter \<noteq> CHR 0x00 \<and> rest \<noteq> [] then delimiter # hex_encode_loop delimiter rest
      else hex_encode_loop delimiter rest)"

text \<open>The string is allocated full of zeros and overwritten from its start.\<close>

definition hex_encode_with_delimiter :: "string \<Rightarrow> char \<Rightarrow> string" where
  "hex_encode_with_delimiter source delimiter =
     (let s = replicate (hex_encode_output_length (length source) delimiter) (CHR 0x00);
          out = hex_encode_loop delimiter source
      in out @ drop (length out) s)"

definition hex_encode :: "string \<Rightarrow> string" where
  "hex_encode source = hex_encode_with_delimiter source (CHR 0x00)"

fun hex_decode_loop :: "nat \<Rightarrow> char \<Rightarrow> string \<Rightarrow> string \<Rightarrow> string res" where
  "hex_decode_loop buflen delimiter [] out = ok out"
| "hex_decode_loop buflen delimiter [_] out = ok []"
| "hex_decode_loop buflen delimiter (a # b # rest) out =
     (case hex_decode_char a of
        None \<Rightarrow> ok []
      | Some h1 \<Rightarrow>
          (case hex_decode_char b of
             None \<Rightarrow> ok []
           | Some h2 \<Rightarrow>
               if buflen \<le> length out then crash OutOfBounds
               else
                 let out' = out @ [char_of (16 * h1 + h2)]
                 in if delimiter \<noteq> CHR 0x00 \<and> 1 < length rest
                    then if hd rest \<noteq> delimiter then ok []
                         else hex_decode_loop buflen delimiter (tl rest) out'
                    else hex_decode_loop buflen delimiter rest out'))"

definition hex_decode_with_delimiter :: "nat \<Rightarrow> string \<Rightarrow> char \<Rightarrow> string res" where
  "hex_decode_with_delimiter buflen source delimiter =
     (if buflen = 0 then ok []
      else
        let srclen = length source;
            needed = (if delimiter \<noteq> CHR 0x00 then (srclen + 1) div 3 else srclen div 2)
        in if buflen < needed then ok [] else hex_decode_loop buflen delimiter source [])"

definition hex_decode :: "nat \<Rightarrow> string \<Rightarrow> string res" where
  "hex_decode buflen source = hex_decode_with_delimiter buflen source (CHR 0x00)"

section \<open>Fields\<close>

definition tokenize_step :: "string \<Rightarrow> char \<Rightarrow> nat \<Rightarrow> nat \<times> string list \<Rightarrow> nat \<times> string list" where
  "tokenize_step source delimiter i st =
     (case st of (lst, flds) \<Rightarrow>
        if source ! i = delimiter
        then (i + 1, if i \<noteq> lst then flds @ [take (i - lst) (drop lst source)] else flds)
        else (lst, flds))"

definition tokenize :: "string \<Rightarrow> char \<Rightarrow> string list" where
  "tokenize source delimiter =
     (case fold (tokenize_step source delimiter) [0..<length source] (0, []) of
        (lst, flds) \<Rightarrow>
          if lst \<noteq> length source then flds @ [take (length source - lst) (drop lst source)]
          else flds)"

definition tokenize_first :: "string \<Rightarrow> char \<Rightarrow> (string \<times> string) option" where
  "tokenize_first source delimiter =
     (case str_find source [delimiter] 0 of
        None \<Rightarrow> None
      | Some left_pos \<Rightarrow>
          let right_pos =
                left_pos + 1 + length (takeWhile (\<lambda>c. c = delimiter) (drop (left_pos + 1) source))
          in Some (take left_pos source, drop right_pos source))"

definition join :: "string list \<Rightarrow> char \<Rightarrow> string" where
  "join source delimiter =
     (if length source = 0 then []
      else fold (\<lambda>i s. (if i \<noteq> 0 then s @ [delimiter] else s) @ source ! i) [0..<length source] [])"

definition split_step :: "string \<Rightarrow> char \<Rightarrow> nat \<Rightarrow> nat \<times> string list \<Rightarrow> nat \<times> string list" where
  "split_step source delimiter i st =
     (case st of (lst, flds) \<Rightarrow>
        if source ! i = delimiter then (i + 1, flds @ [take (i - lst) (drop lst source)])
        else (lst, flds))"

definition rtc_split :: "string \<Rightarrow> char \<Rightarrow> string list" where
  "rtc_split source delimiter =
     (case fold (split_step source delimiter) [0..<length source] (0, []) of
        (lst, flds) \<Rightarrow> flds @ [drop lst source])"

section \<open>Printing and reading values\<close>

definition ToString_bool :: "bool \<Rightarrow> string" where
  "ToString_bool b = (if b then ''true'' else ''false'')"

definition FromString_bool :: "string \<Rightarrow> bool option" where
  "FromString_bool s = (if s = ''false'' then Some False else if s = ''true'' then Some True else None)"

definition ToString_u64 :: "u64 \<Rightarrow> string" where
  "ToString_u64 s = dec_nat (unat s)"

definition ToString_s64 :: "u64 \<Rightarrow> string" where
  "ToString_s64 s = dec_int (sint s)"

section \<open>References\<close>

text \<open>The fields between delimiters, empty ones kept.\<close>

fun split_fields :: "char \<Rightarrow> string \<Rightarrow> string list" where
  "split_fields d [] = [[]]"
| "split_fields d (c # cs) = (if c = d then [] # split_fields d cs
     else case split_fields d cs of [] \<Rightarrow> [[c]] | f # fs \<Rightarrow> (c # f) # fs)"

section \<open>Hexadecimal text: lemmas\<close>

lemma length_hex_encode_loop:
  "length (hex_encode_loop d s) = hex_encode_output_length (length s) d"
proof (induction s)
  case (Cons c s)
  then show ?case by (cases s) (auto simp: hex_encode_output_length_def)
qed (simp add: hex_encode_output_length_def)

lemma hex_encode_with_delimiter_eq: "hex_encode_with_delimiter s d = hex_encode_loop d s"
  by (simp add: hex_encode_with_delimiter_def Let_def length_hex_encode_loop)

lemma hex_encode_char_eq: "n < 16 \<Longrightarrow> hex_encode_char n = hex_digit n"
  by (simp add: hex_encode_char_def hex_digit_def HEX_def kHexStr_def)

lemma hex_decode_char_eq: "hex_decode_char c = hex_value c"
  by (simp add: hex_decode_char_def hex_value_def Let_def)

lemma hex_decode_char_bound: "hex_decode_char c = Some v \<Longrightarrow> v < 16"
  by (auto simp: hex_decode_char_def Let_def split: if_splits)

lemma decode_encode_char: "n < 16 \<Longrightarrow> hex_decode_char (hex_encode_char n) = Some n"
  by (drule less_16_cases) (auto simp: hex_encode_char_def HEX_def hex_decode_char_def Let_def)

lemma char_of_nibbles: "char_of (16 * ((of_char c :: nat) div 16 mod 16) + of_char c mod 16) = c"
proof -
  have "(of_char c :: nat) < 256" by simp
  then have "(of_char c :: nat) div 16 mod 16 = of_char c div 16" by simp
  then have "16 * ((of_char c :: nat) div 16 mod 16) + of_char c mod 16 = of_char c" by simp
  then show ?thesis by (metis char_of_char)
qed

lemma hex_decode_loop_encode:
  assumes "length out + length s \<le> buflen" and "d = CHR 0x00 \<or> hex_decode_char d = None"
  shows "hex_decode_loop buflen d (hex_encode_loop d s) out = ok (out @ s)"
  using assms(1)
proof (induction s arbitrary: out)
  case Nil
  then show ?case by simp
next
  case (Cons c s)
  then have ih: "hex_decode_loop buflen d (hex_encode_loop d s) (out @ [c]) = ok (out @ c # s)"
    using Cons.IH [of "out @ [c]"] by simp
  have "s \<noteq> [] \<Longrightarrow> 1 < length (hex_encode_loop d s)" by (cases s) auto
  with ih Cons.prems show ?case
    by (cases "s = []") (auto simp: decode_encode_char char_of_nibbles Let_def)
qed

lemma hex_decode_encode:
  assumes "s \<noteq> []" and "length s \<le> buflen" and "d = CHR 0x00 \<or> hex_decode_char d = None"
  shows "hex_decode_with_delimiter buflen (hex_encode_with_delimiter s d) d = ok s"
proof -
  have "hex_decode_loop buflen d (hex_encode_loop d s) [] = ok s"
    using hex_decode_loop_encode [of "[]" s buflen d] assms by simp
  then show ?thesis
    using assms less_le_trans [of 0 "length s" buflen]
    by (auto simp: hex_decode_with_delimiter_def hex_encode_with_delimiter_eq Let_def
        length_hex_encode_loop hex_encode_output_length_def)
qed

text \<open>The bound the decoder computes before its loop is enough for every input.\<close>

lemma hex_decode_loop_bound:
  "length out + (if d \<noteq> CHR 0x00 then (length src + 1) div 3 else length src div 2) \<le> buflen \<Longrightarrow>
   is_ok (hex_decode_loop buflen d src out)"
proof (induction buflen d src out rule: hex_decode_loop.induct)
  case (3 buflen d a b rest out)
  show ?case
  proof (cases "hex_decode_char a = None \<or> hex_decode_char b = None")
    case True
    then show ?thesis by (auto split: option.split)
  next
    case False
    then obtain h1 h2 where h: "hex_decode_char a = Some h1" "hex_decode_char b = Some h2" by auto
    have "\<not> buflen \<le> length out" using "3.prems" by (auto split: if_splits)
    then show ?thesis
      using "3.IH" [OF h _ refl] "3.prems" h
      by (cases rest) (auto simp: Let_def split: if_splits)
  qed
qed auto

section \<open>Fields: lemmas\<close>

lemma split_fields_nonempty [simp]: "split_fields d s \<noteq> []"
  by (cases s) (auto split: list.split)

lemma split_fields_no_delim: "d \<notin> set s \<Longrightarrow> split_fields d s = [s]"
  by (induction s) auto

lemma split_fields_append: "d \<notin> set w \<Longrightarrow> split_fields d (w @ d # s) = w # split_fields d s"
  by (induction w) auto

lemma split_fields_free: "f \<in> set (split_fields d s) \<Longrightarrow> d \<notin> set f"
proof (induction s arbitrary: f)
  case (Cons c s)
  then show ?case by (cases "split_fields d s") (auto split: if_splits)
qed simp

lemma join_by_split_fields: "join_by d (split_fields d s) = s"
proof (induction s)
  case (Cons c s)
  obtain f fs where f: "split_fields d s = f # fs" by (cases "split_fields d s") auto
  with Cons show ?case by (cases fs) auto
qed simp

lemma split_fields_join_by:
  "fs \<noteq> [] \<Longrightarrow> \<forall>f \<in> set fs. d \<notin> set f \<Longrightarrow> split_fields d (join_by d fs) = fs"
  by (induction d fs rule: join_by.induct) (simp_all add: split_fields_no_delim split_fields_append)

lemma join_snoc: "ts \<noteq> [] \<Longrightarrow> join_by d (ts @ [t]) = join_by d ts @ d # t"
proof (induction ts)
  case (Cons x ts)
  then show ?case by (cases ts) auto
qed simp

lemma join_eq: "join ts d = join_by d ts"
proof -
  have "fold (\<lambda>i s. (if i \<noteq> 0 then s @ [d] else s) @ ts ! i) [0..<n] [] = join_by d (take n ts)"
    if "n \<le> length ts" for n
    using that
  proof (induction n)
    case (Suc n)
    then have t: "take (Suc n) ts = take n ts @ [ts ! n]" by (simp add: take_Suc_conv_app_nth)
    have "n \<noteq> 0 \<Longrightarrow> take n ts \<noteq> []" using Suc.prems by auto
    with Suc show ?case using t by (cases "n = 0") (auto simp: join_snoc simp del: take_Suc)
  qed simp
  from this [of "length ts"] show ?thesis by (simp add: join_def)
qed

text \<open>Both splitters scan the source once; the scan from \<open>i\<close> on sees the field begun at \<open>lst\<close>.\<close>

lemma split_scan:
  assumes "lst \<le> i" and "i \<le> length s" and "d \<notin> set (take (i - lst) (drop lst s))"
  shows "(case fold (split_step s d) [i..<length s] (lst, fs) of (l, f) \<Rightarrow> f @ [drop l s]) =
    fs @ split_fields d (drop lst s)"
  using assms
proof (induction "length s - i" arbitrary: i lst fs)
  case 0
  then show ?case by (simp add: split_fields_no_delim)
next
  case (Suc n)
  let ?w = "take (i - lst) (drop lst s)"
  from Suc have i: "i < length s" by simp
  have up: "[i..<length s] = i # [Suc i..<length s]" using i by (simp add: upt_conv_Cons)
  have w: "drop lst s = ?w @ s ! i # drop (Suc i) s"
    using Suc.prems i by (metis Cons_nth_drop_Suc append_take_drop_id drop_drop le_add_diff_inverse2)
  show ?case
  proof (cases "s ! i = d")
    case True
    have "split_fields d (drop lst s) = ?w # split_fields d (drop (Suc i) s)"
      using Suc.prems(3) by (subst w) (simp add: True split_fields_append)
    then show ?thesis
      using Suc.hyps(1) [of "Suc i" "Suc i" "fs @ [?w]"] Suc.hyps(2) i
      by (simp add: up split_step_def True)
  next
    case False
    have "take (Suc i - lst) (drop lst s) = ?w @ [s ! i]"
      using Suc.prems(1) i by (simp add: Suc_diff_le take_Suc_conv_app_nth)
    then show ?thesis
      using Suc.hyps(1) [of "Suc i" lst fs] Suc.hyps(2) Suc.prems i False
      by (simp add: up split_step_def)
  qed
qed

lemma rtc_split_eq: "rtc_split s d = split_fields d s"
  using split_scan [of 0 0 s d "[]"] by (simp add: rtc_split_def)

lemma dropWhile_to_delim: "d \<in> set s \<Longrightarrow> \<exists>r. dropWhile (\<lambda>x. x \<noteq> d) s = d # r"
  by (induction s) auto

lemma tokens_split_fields: "tokens d s = filter (\<lambda>f. f \<noteq> []) (split_fields d s)"
proof (induction d s rule: tokens.induct)
  case (1 d s)
  let ?w = "takeWhile (\<lambda>x. x \<noteq> d) s"
  show ?case
  proof (cases "d \<in> set s")
    case True
    obtain r where r: "dropWhile (\<lambda>x. x \<noteq> d) s = d # r"
      using dropWhile_to_delim [OF True] by auto
    have w: "d \<notin> set ?w" by (auto dest: set_takeWhileD)
    have s: "s = ?w @ d # r" by (metis r takeWhile_dropWhile_id)
    have f: "split_fields d s = ?w # split_fields d r"
      using split_fields_append [OF w, of r] by (simp only: s [symmetric])
    have t: "tokens d s = (if ?w = [] then [] else [?w]) @ tokens d r"
      using tokens_sep [OF True] r by (simp only: list.sel)
    have "tokens d r = filter (\<lambda>f. f \<noteq> []) (split_fields d r)"
      using "1.IH" [OF refl refl] by (simp only: r list.sel) simp
    then show ?thesis unfolding t f by (simp only: filter.simps) simp
  next
    case False
    then show ?thesis by (simp add: tokens_no_sep split_fields_no_delim)
  qed
qed

lemma tokenize_scan:
  assumes "lst \<le> i" and "i \<le> length s"
  shows "fold (tokenize_step s d) [i..<length s] (lst, filter (\<lambda>f. f \<noteq> []) fs) =
    (case fold (split_step s d) [i..<length s] (lst, fs) of (l, f) \<Rightarrow> (l, filter (\<lambda>f. f \<noteq> []) f)) \<and>
    fst (fold (split_step s d) [i..<length s] (lst, fs)) \<le> length s"
  using assms
proof (induction "length s - i" arbitrary: i lst fs)
  case 0
  then show ?case by simp
next
  case (Suc n)
  then have up: "[i..<length s] = i # [Suc i..<length s]" by (simp add: upt_conv_Cons)
  from Suc.hyps(2) Suc.prems have ne: "take (i - lst) (drop lst s) = [] \<longleftrightarrow> i = lst"
    by (cases "i = lst") auto
  show ?case
    using Suc.hyps(1) [of "Suc i" "Suc i" "fs @ [take (i - lst) (drop lst s)]"]
      Suc.hyps(1) [of "Suc i" lst fs] Suc.hyps(2) Suc.prems
    by (auto simp: up tokenize_step_def split_step_def ne)
qed

lemma tokenize_eq: "tokenize s d = tokens d s"
proof -
  obtain l f where lf: "fold (split_step s d) [0..<length s] (0, []) = (l, f)" by fastforce
  with tokenize_scan [of 0 0 s d "[]"] have l: "l \<le> length s"
    and t: "fold (tokenize_step s d) [0..<length s] (0, []) = (l, filter (\<lambda>f. f \<noteq> []) f)" by auto
  have "tokens d s = filter (\<lambda>f. f \<noteq> []) (f @ [drop l s])"
    by (simp only: tokens_split_fields rtc_split_eq [symmetric] rtc_split_def lf prod.case)
  with l t show ?thesis by (simp add: tokenize_def)
qed

section \<open>The encoders and splitters\<close>

text \<open>
  The hexadecimal decoder never writes behind the end of the caller's buffer, whatever the
  buffer's size, the source and the delimiter are, and it inverts the encoder on every non-empty
  text that fits the buffer, with any delimiter that is not itself a hexadecimal digit.
\<close>

theorem hex_codec_safe_and_inverse:
  "is_ok (hex_decode_with_delimiter buflen source d) \<and>
   (s \<noteq> [] \<and> length s \<le> buflen \<and> (d = CHR 0x00 \<or> hex_decode_char d = None) \<longrightarrow>
      hex_decode_with_delimiter buflen (hex_encode_with_delimiter s d) d = ok s)"
  using hex_decode_loop_bound [of "[]" d source buflen] hex_decode_encode [of s buflen d]
  by (auto simp: hex_decode_with_delimiter_def Let_def)

lemma hex_codec_safe_and_inverse_witness:
  "hex_decode_with_delimiter 64 (hex_encode_with_delimiter ''hi'' (CHR '':'')) (CHR '':'') = ok ''hi''"
  using hex_codec_safe_and_inverse [of 64 "[]" "CHR '':''" "''hi''"]
  by (simp add: hex_decode_char_def)

text \<open>
  \<^verbatim>\<open>rtc::split\<close> loses nothing: joining its fields with the delimiter gives the source back;
  \<^verbatim>\<open>rtc::tokenize\<close> returns exactly its non-empty fields, and so does \<^verbatim>\<open>SUtil::split\<close>, the
  project's own splitter, for a one-character splitter.
\<close>

theorem splitters_agree:
  "join (rtc_split source d) d = source \<and>
   tokenize source d = filter (\<lambda>f. f \<noteq> []) (rtc_split source d) \<and>
   split source [d] = Some (tokenize source d)"
  by (simp add: join_eq rtc_split_eq join_by_split_fields tokenize_eq tokens_split_fields split_char)

end
