(* ===== verification/Digest.thy ===== *)
theory Digest
  imports StringEncode
begin

text \<open>
  \<^verbatim>\<open>rtc_base/openssl_digest.cc\<close>, \<^verbatim>\<open>rtc_base/message_digest.cc\<close> and \<^verbatim>\<open>rtc_base/ssl_fingerprint.cc\<close>: the
  digest object over OpenSSL, digests and HMACs of buffers and strings, and certificate
  fingerprints. OpenSSL itself is the parameter \<open>evp\<close>: the hash function of each algorithm and
  its size; \<open>evp_documented\<close> states what its manual promises of them, that a digest has the size
  reported for its algorithm and the sizes of the six algorithms. A size of zero returned by
  the code is the empty byte list.
\<close>

section \<open>OpenSSL\<close>

datatype evp_md = EVP_md5 | EVP_sha1 | EVP_sha224 | EVP_sha256 | EVP_sha384 | EVP_sha512

record evp =
  evp_hash :: "evp_md \<Rightarrow> bytes \<Rightarrow> bytes"
  EVP_MD_size :: "evp_md \<Rightarrow> nat"

definition evp_documented :: "evp \<Rightarrow> bool" where
  "evp_documented e \<longleftrightarrow>
     (\<forall>md x. length (evp_hash e md x) = EVP_MD_size e md) \<and>
     map (EVP_MD_size e) [EVP_md5, EVP_sha1, EVP_sha224, EVP_sha256, EVP_sha384, EVP_sha512] =
       [16, 20, 28, 32, 48, 64]"

section \<open>The digest object\<close>

definition DIGEST_MD5 :: string where "DIGEST_MD5 = ''md5''"
definition DIGEST_SHA_1 :: string where "DIGEST_SHA_1 = ''sha-1''"
definition DIGEST_SHA_224 :: string where "DIGEST_SHA_224 = ''sha-224''"
definition DIGEST_SHA_256 :: string where "DIGEST_SHA_256 = ''sha-256''"
definition DIGEST_SHA_384 :: string where "DIGEST_SHA_384 = ''sha-384''"
definition DIGEST_SHA_512 :: string where "DIGEST_SHA_512 = ''sha-512''"

lemmas digest_names = DIGEST_MD5_def DIGEST_SHA_1_def DIGEST_SHA_224_def DIGEST_SHA_256_def
  DIGEST_SHA_384_def DIGEST_SHA_512_def

definition GetDigestEVP :: "string \<Rightarrow> evp_md option" where
  "GetDigestEVP algorithm =
     (if algorithm = DIGEST_MD5 then Some EVP_md5
      else if algorithm = DIGEST_SHA_1 then Some EVP_sha1
      else if algorithm = DIGEST_SHA_224 then Some EVP_sha224
      else if algorithm = DIGEST_SHA_256 then Some EVP_sha256
      else if algorithm = DIGEST_SHA_384 then Some EVP_sha384
      else if algorithm = DIGEST_SHA_512 then Some EVP_sha512
      else None)"

text \<open>\<^verbatim>\<open>EVP_MD_type\<close> tells the six digests apart; any other type is \<open>None\<close> here.\<close>

fun GetDigestName :: "evp_md option \<Rightarrow> string option" where
  "GetDigestName (Some EVP_md5) = Some DIGEST_MD5"
| "GetDigestName (Some EVP_sha1) = Some DIGEST_SHA_1"
| "GetDigestName (Some EVP_sha224) = Some DIGEST_SHA_224"
| "GetDigestName (Some EVP_sha256) = Some DIGEST_SHA_256"
| "GetDigestName (Some EVP_sha384) = Some DIGEST_SHA_384"
| "GetDigestName (Some EVP_sha512) = Some DIGEST_SHA_512"
| "GetDigestName None = None"

definition GetDigestSize :: "evp \<Rightarrow> string \<Rightarrow> nat option" where
  "GetDigestSize e algorithm = map_option (EVP_MD_size e) (GetDigestEVP algorithm)"

text \<open>The context keeps the bytes fed since the last initialisation.\<close>

record digest =
  dg_md :: "evp_md option"
  dg_ctx :: bytes

definition OpenSSLDigest :: "string \<Rightarrow> digest" where
  "OpenSSLDigest algorithm = \<lparr>dg_md = GetDigestEVP algorithm, dg_ctx = []\<rparr>"

definition digest_Size :: "evp \<Rightarrow> digest \<Rightarrow> nat" where
  "digest_Size e d = (case dg_md d of None \<Rightarrow> 0 | Some md \<Rightarrow> EVP_MD_size e md)"

definition digest_Update :: "bytes \<Rightarrow> digest \<Rightarrow> digest" where
  "digest_Update buf d = (case dg_md d of None \<Rightarrow> d | Some _ \<Rightarrow> d\<lparr>dg_ctx := dg_ctx d @ buf\<rparr>)"

definition digest_Finish :: "evp \<Rightarrow> nat \<Rightarrow> digest \<Rightarrow> bytes \<times> digest" where
  "digest_Finish e len d =
     (case dg_md d of
        None \<Rightarrow> ([], d)
      | Some md \<Rightarrow>
          if len < digest_Size e d then ([], d) else (evp_hash e md (dg_ctx d), d\<lparr>dg_ctx := []\<rparr>))"

definition MessageDigestFactory_Create :: "evp \<Rightarrow> string \<Rightarrow> digest option" where
  "MessageDigestFactory_Create e alg =
     (let d = OpenSSLDigest alg in if digest_Size e d = 0 then None else Some d)"

section \<open>Digests and HMACs\<close>

definition kBlockSize :: nat where "kBlockSize = 64"

definition IsFips180DigestAlgorithm :: "string \<Rightarrow> bool" where
  "IsFips180DigestAlgorithm alg =
     (alg = DIGEST_SHA_1 \<or> alg = DIGEST_SHA_224 \<or> alg = DIGEST_SHA_256 \<or> alg = DIGEST_SHA_384 \<or>
      alg = DIGEST_SHA_512)"

definition ComputeDigest_obj :: "evp \<Rightarrow> bytes \<Rightarrow> nat \<Rightarrow> digest \<Rightarrow> bytes \<times> digest" where
  "ComputeDigest_obj e input out_len d = digest_Finish e out_len (digest_Update input d)"

definition ComputeDigest :: "evp \<Rightarrow> string \<Rightarrow> bytes \<Rightarrow> nat \<Rightarrow> bytes" where
  "ComputeDigest e alg input out_len =
     (case MessageDigestFactory_Create e alg of
        None \<Rightarrow> []
      | Some d \<Rightarrow> fst (ComputeDigest_obj e input out_len d))"

definition ComputeDigest_hex :: "evp \<Rightarrow> string \<Rightarrow> string \<Rightarrow> string option" where
  "ComputeDigest_hex e alg input =
     (case MessageDigestFactory_Create e alg of
        None \<Rightarrow> None
      | Some d \<Rightarrow>
          Some (hex_encode (string_of_bytes
            (fst (ComputeDigest_obj e (bytes_of_string input) (digest_Size e d) d)))))"

definition ComputeHmac_obj :: "evp \<Rightarrow> bytes \<Rightarrow> bytes \<Rightarrow> nat \<Rightarrow> digest \<Rightarrow> bytes \<times> digest" where
  "ComputeHmac_obj e key input out_len d =
     (let block_len = kBlockSize
      in if digest_Size e d > 32 then ([], d)
         else
           let (new_key, d1) =
                 (if length key > block_len
                  then let (k, d') = ComputeDigest_obj e key block_len d
                       in (take (digest_Size e d) k @ replicate (block_len - digest_Size e d) 0, d')
                  else (key @ replicate (block_len - length key) 0, d));
               o_pad = map (\<lambda>k. 0x5c XOR k) new_key;
               i_pad = map (\<lambda>k. 0x36 XOR k) new_key;
               (inner, d2) =
                 digest_Finish e (digest_Size e d) (digest_Update input (digest_Update i_pad d1))
           in digest_Finish e out_len (digest_Update inner (digest_Update o_pad d2)))"

definition ComputeHmac :: "evp \<Rightarrow> string \<Rightarrow> bytes \<Rightarrow> bytes \<Rightarrow> nat \<Rightarrow> bytes" where
  "ComputeHmac e alg key input out_len =
     (case MessageDigestFactory_Create e alg of
        None \<Rightarrow> []
      | Some d \<Rightarrow> fst (ComputeHmac_obj e key input out_len d))"

definition ComputeHmac_hex :: "evp \<Rightarrow> string \<Rightarrow> string \<Rightarrow> string \<Rightarrow> string option" where
  "ComputeHmac_hex e alg key input =
     (case MessageDigestFactory_Create e alg of
        None \<Rightarrow> None
      | Some d \<Rightarrow>
          Some (hex_encode (string_of_bytes
            (fst (ComputeHmac_obj e (bytes_of_string key) (bytes_of_string input) (digest_Size e d) d)))))"

section \<open>Fingerprints\<close>

record SSLFingerprint =
  fp_algorithm :: string
  fp_digest :: bytes

definition kMaxSize :: nat where "kMaxSize = 64"

definition toupper :: "char \<Rightarrow> char" where
  "toupper c = (let n = (of_char c :: nat) in if 97 \<le> n \<and> n \<le> 122 then char_of (n - 32) else c)"

definition CreateUniqueFromRfc4572 :: "string \<Rightarrow> string \<Rightarrow> SSLFingerprint option res" where
  "CreateUniqueFromRfc4572 algorithm fingerprint =
     (if algorithm = [] \<or> \<not> IsFips180DigestAlgorithm algorithm then ok None
      else if fingerprint = [] then ok None
      else
        res_bind (hex_decode_with_delimiter kMaxSize fingerprint (CHR '':''))
          (\<lambda>val. if length val = 0 then ok None
                   else ok (Some \<lparr>fp_algorithm = algorithm, fp_digest = bytes_of_string val\<rparr>)))"

definition GetRfc4572Fingerprint :: "SSLFingerprint \<Rightarrow> string" where
  "GetRfc4572Fingerprint fp =
     map toupper (hex_encode_with_delimiter (string_of_bytes (fp_digest fp)) (CHR '':''))"

definition fp_ToString :: "SSLFingerprint \<Rightarrow> string" where
  "fp_ToString fp = fp_algorithm fp @ '' '' @ GetRfc4572Fingerprint fp"

definition fp_eq :: "SSLFingerprint \<Rightarrow> SSLFingerprint \<Rightarrow> bool" where
  "fp_eq a b = (fp_algorithm a = fp_algorithm b \<and> fp_digest a = fp_digest b)"

section \<open>References\<close>

text \<open>RFC 2104: the key padded to a block, and the two nested hashes.\<close>

definition hmac_key :: "evp \<Rightarrow> evp_md \<Rightarrow> bytes \<Rightarrow> bytes" where
  "hmac_key e md key =
     (let k = (if length key > 64 then evp_hash e md key else key) in k @ replicate (64 - length k) 0)"

definition rfc2104_hmac :: "evp \<Rightarrow> evp_md \<Rightarrow> bytes \<Rightarrow> bytes \<Rightarrow> bytes" where
  "rfc2104_hmac e md key input =
     (let K = hmac_key e md key; H = evp_hash e md
      in H (map ((XOR) 0x5c) K @ H (map ((XOR) 0x36) K @ input)))"

section \<open>Lemmas\<close>

lemma evp_sizes:
  assumes "evp_documented e"
  shows "length (evp_hash e md x) = EVP_MD_size e md"
    and "EVP_MD_size e EVP_md5 = 16" "EVP_MD_size e EVP_sha1 = 20" "EVP_MD_size e EVP_sha224 = 28"
      "EVP_MD_size e EVP_sha256 = 32" "EVP_MD_size e EVP_sha384 = 48" "EVP_MD_size e EVP_sha512 = 64"
  using assms by (simp_all add: evp_documented_def)

lemma EVP_MD_size_pos: "evp_documented e \<Longrightarrow> 0 < EVP_MD_size e md"
  by (cases md) (simp_all add: evp_sizes)

lemma GetDigestName_EVP: "GetDigestEVP alg = Some md \<Longrightarrow> GetDigestName (Some md) = Some alg"
  by (auto simp: GetDigestEVP_def split: if_splits)

lemma factory_Some:
  "evp_documented e \<Longrightarrow> GetDigestEVP alg = Some md \<Longrightarrow>
   MessageDigestFactory_Create e alg = Some \<lparr>dg_md = Some md, dg_ctx = []\<rparr>"
  using EVP_MD_size_pos [of e md]
  by (simp add: MessageDigestFactory_Create_def OpenSSLDigest_def digest_Size_def Let_def)

lemma factory_None: "GetDigestEVP alg = None \<Longrightarrow> MessageDigestFactory_Create e alg = None"
  by (simp add: MessageDigestFactory_Create_def OpenSSLDigest_def digest_Size_def Let_def)

lemma ComputeDigest_eq:
  "evp_documented e \<Longrightarrow> GetDigestEVP alg = Some md \<Longrightarrow>
   ComputeDigest e alg input out_len = (if out_len < EVP_MD_size e md then [] else evp_hash e md input)"
  by (simp add: ComputeDigest_def factory_Some ComputeDigest_obj_def digest_Finish_def
      digest_Update_def digest_Size_def)

lemma ComputeHmac_eq:
  assumes "evp_documented e" and "GetDigestEVP alg = Some md"
  shows "ComputeHmac e alg key input out_len =
    (if EVP_MD_size e md > 32 \<or> out_len < EVP_MD_size e md then [] else rfc2104_hmac e md key input)"
  using assms
  by (simp add: ComputeHmac_def factory_Some ComputeHmac_obj_def Let_def digest_Size_def
      digest_Finish_def digest_Update_def ComputeDigest_obj_def rfc2104_hmac_def hmac_key_def
      kBlockSize_def evp_sizes(1) comp_def)

lemma hex_decode_toupper: "hex_decode_char (toupper c) = hex_decode_char c"
  by (auto simp: hex_decode_char_def toupper_def Let_def)

lemma toupper_colon: "toupper c = CHR '':'' \<longleftrightarrow> c = CHR '':''"
proof -
  have "(char_of (n - 32) :: char) \<noteq> CHR '':''" if "97 \<le> n" "n \<le> 122" for n :: nat
  proof
    assume "(char_of (n - 32) :: char) = CHR '':''"
    then have "(of_char (char_of (n - 32) :: char) :: nat) = of_char (CHR '':'')" by simp
    with that show False by simp
  qed
  then show ?thesis by (auto simp: toupper_def Let_def)
qed

lemma hex_decode_loop_toupper:
  "hex_decode_loop n (CHR '':'') (map toupper s) out = hex_decode_loop n (CHR '':'') s out"
proof (induction n "CHR '':''" s out rule: hex_decode_loop.induct)
  case (3 buflen a b rest out)
  then show ?case
    by (cases rest) (auto simp: hex_decode_toupper toupper_colon Let_def split: option.split)
qed auto

section \<open>Digests, HMACs and fingerprints\<close>

text \<open>
  C23: \<^verbatim>\<open>rtc::ComputeHmac\<close> is the HMAC of RFC 2104 for every key, longer than a block or not, for
  each algorithm whose digest has at most 32 bytes, and reports failure (zero) for an unknown
  algorithm, a longer digest or an output buffer that is too small.
\<close>

theorem ComputeHmac_is_rfc2104:
  assumes "evp_documented e"
  shows "ComputeHmac e alg key input out_len =
    (case GetDigestEVP alg of
       None \<Rightarrow> []
     | Some md \<Rightarrow>
         if EVP_MD_size e md > 32 \<or> out_len < EVP_MD_size e md then []
         else rfc2104_hmac e md key input)"
  using assms
  by (cases "GetDigestEVP alg") (simp_all add: ComputeHmac_eq, simp add: ComputeHmac_def factory_None)

definition sample_evp :: evp where
  "sample_evp =
     (let sz = (\<lambda>md. case md of EVP_md5 \<Rightarrow> 16 | EVP_sha1 \<Rightarrow> 20 | EVP_sha224 \<Rightarrow> 28 | EVP_sha256 \<Rightarrow> 32 |
                 EVP_sha384 \<Rightarrow> 48 | EVP_sha512 \<Rightarrow> 64)
      in \<lparr>evp_hash = \<lambda>md x. replicate (sz md) (fold (XOR) x 0), EVP_MD_size = sz\<rparr>)"

lemma sample_evp_documented: "evp_documented sample_evp"
  by (auto simp: evp_documented_def sample_evp_def Let_def)

lemma ComputeHmac_is_rfc2104_witness:
  "evp_documented sample_evp \<and>
   ComputeHmac sample_evp ''sha-1'' [1, 2] [3] 20 = rfc2104_hmac sample_evp EVP_sha1 [1, 2] [3]"
  using ComputeHmac_is_rfc2104 [OF sample_evp_documented, of "''sha-1''" "[1, 2]" "[3]" 20]
    evp_sizes(3) [OF sample_evp_documented] sample_evp_documented
  by (simp add: GetDigestEVP_def digest_names)

lemma CreateUnique_never_overruns: "is_ok (CreateUniqueFromRfc4572 alg printed)"
proof -
  have "is_ok (hex_decode_with_delimiter kMaxSize printed (CHR '':''))"
    using hex_decode_loop_bound [of "[]" "CHR '':''" printed kMaxSize]
    by (simp add: hex_decode_with_delimiter_def Let_def)
  then show "is_ok (CreateUniqueFromRfc4572 alg printed)"
    by (auto simp: CreateUniqueFromRfc4572_def is_ok_iff)
qed

lemma fingerprint_parse_print:
  assumes a: "IsFips180DigestAlgorithm (fp_algorithm fp)" "fp_digest fp \<noteq> []" "length (fp_digest fp) \<le> kMaxSize"
  shows "CreateUniqueFromRfc4572 (fp_algorithm fp) (GetRfc4572Fingerprint fp) = ok (Some fp)"
proof -
  let ?s = "string_of_bytes (fp_digest fp)" let ?h = "hex_encode_with_delimiter ?s (CHR '':'')"
  have s: "?s \<noteq> []" "length ?s \<le> kMaxSize"
    using a by (auto simp: string_of_bytes_def)
  have "hex_decode_with_delimiter kMaxSize ?h (CHR '':'') = ok ?s"
    using s by (intro hex_decode_encode) (simp_all add: hex_decode_char_def)
  then have "hex_decode_with_delimiter kMaxSize (map toupper ?h) (CHR '':'') = ok ?s"
    by (simp only: hex_decode_with_delimiter_def hex_decode_loop_toupper length_map)
  moreover have "?h \<noteq> []" using s(1) by (cases ?s) (simp_all add: hex_encode_with_delimiter_eq)
  ultimately show "CreateUniqueFromRfc4572 (fp_algorithm fp) (GetRfc4572Fingerprint fp) = ok (Some fp)"
    using a s by (auto simp: CreateUniqueFromRfc4572_def GetRfc4572Fingerprint_def
        IsFips180DigestAlgorithm_def digest_names)
qed

text \<open>
  C27: A certificate fingerprint printed as in RFC 4572 (upper-case hexadecimal bytes between
  colons) and parsed again gives the same fingerprint, for every FIPS 180 algorithm and digest
  of 1 to 64 bytes; parsing never overruns its 64-byte buffer, whatever text a peer sends.
\<close>

theorem fingerprint_roundtrip:
  "is_ok (CreateUniqueFromRfc4572 alg printed) \<and>
   (IsFips180DigestAlgorithm (fp_algorithm fp) \<and> fp_digest fp \<noteq> [] \<and> length (fp_digest fp) \<le> kMaxSize \<longrightarrow>
      CreateUniqueFromRfc4572 (fp_algorithm fp) (GetRfc4572Fingerprint fp) = ok (Some fp))"
  by (simp add: CreateUnique_never_overruns fingerprint_parse_print)

lemma fingerprint_roundtrip_witness:
  "CreateUniqueFromRfc4572 ''sha-256''
      (GetRfc4572Fingerprint \<lparr>fp_algorithm = ''sha-256'', fp_digest = [0xAB, 0x01]\<rparr>) =
    ok (Some \<lparr>fp_algorithm = ''sha-256'', fp_digest = [0xAB, 0x01]\<rparr>)"
  using fingerprint_roundtrip [of "[]" "[]" "\<lparr>fp_algorithm = ''sha-256'', fp_digest = [0xAB, 0x01]\<rparr>"]
  by (simp add: IsFips180DigestAlgorithm_def digest_names kMaxSize_def)

end
