(* ===== verification/Stun.thy ===== *)
theory Stun
  imports ByteBuffer Crc Digest
begin

text \<open>
  \<^verbatim>\<open>udp/stun.{h,cpp}\<close>: recognising, parsing, authenticating and answering STUN packets. A datagram
  is its list of bytes; a read behind its end is the fault \<open>OutOfBounds\<close>, since what lies there is
  whatever the receive buffer held before. The header is read through a little-endian structure
  with bit fields, as the compiler lays it out: \<^verbatim>\<open>prefix\<close> is the two top bits of the second byte.

  \<open>validate\<close> changes the length field of the datagram while it computes the message integrity, so
  it returns the datagram as well. The response is written into a \<^verbatim>\<open>ByteBufferWriter\<close> through a
  pointer into its buffer, which a reallocation would leave dangling (\<open>StalePointer\<close>).

  An address is what the code observes of an \<^verbatim>\<open>uvcore::IpAddress\<close>: its port, the four bytes of its
  \<^verbatim>\<open>sin_addr\<close> as the host loads them, and its text.
\<close>

section \<open>Data\<close>

record IpAddress =
  ip_port :: u16
  ip_s_addr :: u32
  ip_text :: string

record IceParameter =
  ice_mode :: string
  ufrag :: string
  passwd :: string

record stun_header =
  msg_type :: u16
  hdr_prefix :: u16
  msg_len :: u16
  msg_cookie :: u32
  trans_id :: bytes

text \<open>A field the code has not set yet is \<open>None\<close>.\<close>

datatype StunAttribute =
    StunAttributeUsername (at_type: u16) (at_len: u16) (remote_ufrag: string) (local_ufrag: string)
  | StunAttributeIntegrity (at_type: u16) (at_len: u16) (endpos: "nat option") (hmac_sha1: bytes)
  | StunAttributeIceControlling (at_type: u16) (at_len: u16) (ctl_text: string)
  | StunAttributePriority (at_type: u16) (at_len: u16) (priority: "u32 option")
  | StunAttributeFingerPrint (at_type: u16) (at_len: u16) (fp: u32)
  | StunAttributeXorAddress (at_type: u16) (at_len: u16) (xaddr: IpAddress) (family: byte)

record StunPacket =
  hdr :: stun_header
  cls :: u16
  stun_method :: u16
  attris :: "StunAttribute list"

definition STUN_HEADER_SIZE :: nat where "STUN_HEADER_SIZE = 20"
definition FINGER_PRINT_ATTRI_SIZE :: nat where "FINGER_PRINT_ATTRI_SIZE = 8"
definition k_stun_magic_cookie :: u32 where "k_stun_magic_cookie = 0x2112A442"
definition STUN_FINGERPRINT_XOR_VALUE :: u32 where "STUN_FINGERPRINT_XOR_VALUE = 0x5354554e"
definition k_stun_message_integrity_size :: nat where "k_stun_message_integrity_size = 20"
definition magic_cookie :: bytes where "magic_cookie = [0x21, 0x12, 0xA4, 0x42]"

definition STUN_BINDING_RESPONSE :: u16 where "STUN_BINDING_RESPONSE = 0x0101"
definition STUN_USERNAME :: u16 where "STUN_USERNAME = 0x0006"
definition STUN_MESSAGE_INTEGRITY :: u16 where "STUN_MESSAGE_INTEGRITY = 0x0008"
definition STUN_XOR_MAPPED_ADDRESS :: u16 where "STUN_XOR_MAPPED_ADDRESS = 0x0020"
definition STUN_PRIORITY :: u16 where "STUN_PRIORITY = 0x0024"
definition STUN_USE_CANDIDATE :: u16 where "STUN_USE_CANDIDATE = 0x0025"
definition STUN_FINGERPRINT :: u16 where "STUN_FINGERPRINT = 0x8028"
definition STUN_ICE_CONTROLLING :: u16 where "STUN_ICE_CONTROLLING = 0x802A"

lemmas stun_sizes = STUN_HEADER_SIZE_def FINGER_PRINT_ATTRI_SIZE_def k_stun_message_integrity_size_def

lemmas stun_types = STUN_BINDING_RESPONSE_def STUN_USERNAME_def STUN_MESSAGE_INTEGRITY_def
  STUN_XOR_MAPPED_ADDRESS_def STUN_PRIORITY_def STUN_USE_CANDIDATE_def STUN_FINGERPRINT_def
  STUN_ICE_CONTROLLING_def

section \<open>Recognising and parsing\<close>

text \<open>\<open>n\<close> bytes from the offset \<open>off\<close> of a datagram.\<close>

definition read_block :: "bytes \<Rightarrow> nat \<Rightarrow> nat \<Rightarrow> bytes res" where
  "read_block data off n = (if off + n \<le> length data then ok (take n (drop off data)) else crash OutOfBounds)"

text \<open>\<^verbatim>\<open>(stun_header*)data\<close>.\<close>

definition load_header :: "bytes \<Rightarrow> stun_header" where
  "load_header data =
     (let w = (le_word (take 2 data) :: u16)
      in \<lparr>msg_type = w AND 0x3FFF,
          hdr_prefix = drop_bit 14 w,
          msg_len = le_word (take 2 (drop 2 data)),
          msg_cookie = le_word (take 4 (drop 4 data)),
          trans_id = take 12 (drop 8 data)\<rparr>)"

definition is_stun :: "bytes \<Rightarrow> bool" where
  "is_stun data =
     (if length data \<ge> STUN_HEADER_SIZE \<and> data ! 0 < 3 \<and>
         data ! 4 = magic_cookie ! 0 \<and> data ! 5 = magic_cookie ! 1 \<and>
         data ! 6 = magic_cookie ! 2 \<and> data ! 7 = magic_cookie ! 3
      then (if hdr_prefix (load_header data) = 0 then True else False)
      else False)"

definition read_2bytes :: "bytes \<Rightarrow> u16 res" where
  "read_2bytes data = (if 2 \<le> length data then ok (le_word [data ! 1, data ! 0]) else crash OutOfBounds)"

definition validate_fingerprint :: "bytes \<Rightarrow> bool res" where
  "validate_fingerprint data =
     (if length data < FINGER_PRINT_ATTRI_SIZE then crash OutOfBounds
      else
        let finger_print = drop (length data - FINGER_PRINT_ATTRI_SIZE) data
        in res_bind (GetBE16 finger_print) (\<lambda>type.
           res_bind (GetBE16 (drop 2 finger_print)) (\<lambda>flen.
           res_bind (GetBE32 (drop 4 finger_print)) (\<lambda>fp.
             if type \<noteq> STUN_FINGERPRINT then ok True
             else if flen \<noteq> 4 then ok False
             else
               let crc32 = ComputeCrc32 (take (length data - FINGER_PRINT_ATTRI_SIZE) data);
                   crc2 = crc32 XOR STUN_FINGERPRINT_XOR_VALUE
               in ok (fp = crc2)))))"

text \<open>\<^verbatim>\<open>get_real_len\<close> works on 16-bit temporaries.\<close>

definition get_real_len :: "nat \<Rightarrow> nat" where
  "get_real_len len =
     (if len mod 4 \<noteq> 0
      then let ret = (word_of_nat (len div 4) :: u16) in unat ((ret + 1) * 4)
      else unat (word_of_nat len :: u16))"

text \<open>
  One attribute of \<^verbatim>\<open>parse_attri\<close>: the attribute the body appends, if any, and the distance it
  moves \<^verbatim>\<open>pos\<close>. \<open>at\<close> is the offset of the attribute in the datagram.
\<close>

definition parse_one :: "bytes \<Rightarrow> nat \<Rightarrow> u16 \<Rightarrow> u16 \<Rightarrow> (StunAttribute list \<times> nat) res" where
  "parse_one data at type flen =
     (let body = at + 4; n = unat flen
      in if type = STUN_USERNAME then
           res_bind (read_block data body n) (\<lambda>str.
           res_bind (split_r (string_of_bytes str) '':'') (\<lambda>vecs.
             ok ([if length vecs = 2 then StunAttributeUsername type flen (vecs ! 0) (vecs ! 1)
                  else StunAttributeUsername type flen [] []], get_real_len n + 4)))
         else if type = STUN_MESSAGE_INTEGRITY then
           res_bind (read_block data body n) (\<lambda>str.
             ok ([StunAttributeIntegrity type flen (Some at) str], n + 4))
         else if type = STUN_ICE_CONTROLLING then
           res_bind (read_block data body n) (\<lambda>str.
             ok ([StunAttributeIceControlling type flen (string_of_bytes str)], get_real_len n + 4))
         else if type = STUN_USE_CANDIDATE then
           ok ([StunAttributePriority type flen None], get_real_len n + 4)
         else if type = STUN_PRIORITY then
           res_bind (GetBE32 (drop body data)) (\<lambda>v.
             ok ([StunAttributePriority type flen (Some v)], get_real_len n + 4))
         else ok ([], get_real_len n + 4))"

text \<open>The loop; its first argument is the number of rounds left of \<^verbatim>\<open>counter < 20\<close>.\<close>

fun parse_attri_loop :: "nat \<Rightarrow> bytes \<Rightarrow> nat \<Rightarrow> StunAttribute list \<Rightarrow> StunAttribute list res" where
  "parse_attri_loop 0 data pos acc = ok acc"
| "parse_attri_loop (Suc left) data pos acc =
     (if pos + 4 + STUN_HEADER_SIZE < length data
      then
        let at = STUN_HEADER_SIZE + pos
        in res_bind (GetBE16 (drop at data)) (\<lambda>type.
           res_bind (GetBE16 (drop (at + 2) data)) (\<lambda>flen.
           res_bind (parse_one data at type flen) (\<lambda>(new, step).
             parse_attri_loop left data (pos + step) (acc @ new))))
      else ok acc)"

definition parse_attri :: "bytes \<Rightarrow> StunAttribute list res" where
  "parse_attri data = parse_attri_loop 20 data 0 []"

definition parse :: "bytes \<Rightarrow> StunPacket option res" where
  "parse data =
     (if \<not> is_stun data then ok None
      else
        let h = load_header data; len = NetworkToHost16 (msg_len h)
        in if unat len + STUN_HEADER_SIZE \<noteq> length data \<or> len AND 0x03 \<noteq> 0 then ok None
           else
             res_bind (validate_fingerprint data) (\<lambda>flag.
             if \<not> flag then ok None
             else
               let msg_class = (push_bit 1 (ucast (data ! 0) AND 0x01) OR drop_bit 4 (ucast (data ! 1) AND 0x10) :: u16)
               in res_bind (read_2bytes data) (\<lambda>type.
                  let msg_method = (type AND 0x000f) OR drop_bit 1 (type AND 0x00e0) OR drop_bit 2 (type AND 0x3E00)
                  in res_bind (parse_attri data) (\<lambda>as.
                     ok (Some \<lparr>hdr = h\<lparr>msg_len := HostToNetwork16 (msg_len h)\<rparr>,
                               cls = msg_class, stun_method = msg_method, attris = as\<rparr>)))))"

section \<open>Authentication\<close>

text \<open>\<^verbatim>\<open>hdr->msg_len = w\<close> through the header pointer: two bytes in the host's order.\<close>

definition put_msg_len :: "u16 \<Rightarrow> bytes \<Rightarrow> bytes" where
  "put_msg_len w data = take 2 data @ le_bytes 2 w @ drop 4 data"

definition check_integrity ::
  "evp \<Rightarrow> IceParameter \<Rightarrow> nat option \<Rightarrow> bytes \<Rightarrow> bytes \<Rightarrow> (bool \<times> bytes) res" where
  "check_integrity e param epos mac data =
     (case epos of
        None \<Rightarrow> crash Uninitialised
      | Some endp \<Rightarrow>
          let ori_msg_len = msg_len (load_header data);
              data' = put_msg_len (HostToNetwork16 (word_of_nat (endp + 24 - STUN_HEADER_SIZE))) data
          in if length data < endp then crash OutOfBounds
             else
               let hmac = ComputeHmac e DIGEST_SHA_1 (bytes_of_string (passwd param)) (take endp data')
                            k_stun_message_integrity_size
               in if length hmac \<noteq> k_stun_message_integrity_size then ok (False, data')
                  else if length mac + 1 < k_stun_message_integrity_size then crash OutOfBounds
                  else if hmac \<noteq> take k_stun_message_integrity_size (mac @ [0]) then ok (False, data')
                  else ok (True, put_msg_len ori_msg_len data'))"

fun validate_loop ::
  "evp \<Rightarrow> IceParameter \<Rightarrow> StunAttribute list \<Rightarrow> bytes \<Rightarrow> (bool \<times> bytes) res" where
  "validate_loop e param [] data = ok (True, data)"
| "validate_loop e param (a # as) data =
     (if at_type a = STUN_USERNAME then
        (case a of
           StunAttributeUsername _ _ remote _ \<Rightarrow>
             if remote \<noteq> ufrag param then ok (False, data) else validate_loop e param as data
         | _ \<Rightarrow> validate_loop e param as data)
      else if at_type a = STUN_MESSAGE_INTEGRITY then
        (case a of
           StunAttributeIntegrity _ _ epos mac \<Rightarrow>
             res_bind (check_integrity e param epos mac data) (\<lambda>(good, data').
               if good then validate_loop e param as data' else ok (False, data'))
         | _ \<Rightarrow> ok (False, data))
      else validate_loop e param as data)"

definition validate :: "evp \<Rightarrow> IceParameter \<Rightarrow> StunPacket \<Rightarrow> bytes \<Rightarrow> (bool \<times> bytes) res" where
  "validate e param sp data = validate_loop e param (attris sp) data"

section \<open>Responses\<close>

definition add_attribute :: "StunAttribute \<Rightarrow> StunPacket \<Rightarrow> StunPacket" where
  "add_attribute a sp = sp\<lparr>attris := attris sp @ [a]\<rparr>"

definition get_attribute :: "u16 \<Rightarrow> StunPacket \<Rightarrow> StunAttribute option" where
  "get_attribute type sp = List.find (\<lambda>a. at_type a = type) (attris sp)"

text \<open>The virtual \<^verbatim>\<open>write\<close>: the number of bytes it reports and the writer after it.\<close>

fun attr_write :: "StunAttribute \<Rightarrow> byte buffer \<Rightarrow> nat \<times> byte buffer" where
  "attr_write (StunAttributeXorAddress type len addr fam) wr =
     (let wr1 = WriteUInt16 AppendData len (WriteUInt16 AppendData type wr);
          wr2 = WriteUInt8 AppendData fam (WriteUInt8 AppendData 0 wr1);
          wr3 = WriteUInt16 AppendData (ip_port addr XOR ucast (drop_bit 16 k_stun_magic_cookie)) wr2;
          xorip = ip_s_addr addr XOR HostToNetwork32 k_stun_magic_cookie
      in (4 + 8, WriteBytes AppendData (le_bytes 4 xorip) wr3))"
| "attr_write (StunAttributeIntegrity type len _ mac) wr =
     (4 + length mac,
      WriteBytes AppendData mac (WriteUInt16 AppendData len (WriteUInt16 AppendData type wr)))"
| "attr_write (StunAttributeFingerPrint type len v) wr =
     (8, WriteUInt32 AppendData v (WriteUInt16 AppendData len (WriteUInt16 AppendData type wr)))"
| "attr_write _ wr = (0, wr)"

text \<open>\<^verbatim>\<open>n\<close> bytes at \<^verbatim>\<open>wr->Data()\<close>.\<close>

definition wr_read :: "nat \<Rightarrow> byte buffer \<Rightarrow> bytes res" where
  "wr_read n wr =
     (let d = take n (buf_data wr)
      in if length d < n then crash OutOfBounds
         else if None \<in> set d then crash Uninitialised
         else ok (map the d))"

text \<open>A store to \<^verbatim>\<open>msg_len\<close> through a pointer that was taken when the buffer was \<open>block\<close>.\<close>

definition wr_put_msg_len :: "nat \<Rightarrow> u16 \<Rightarrow> byte buffer \<Rightarrow> byte buffer res" where
  "wr_put_msg_len block w wr =
     (if buf_block wr \<noteq> block then crash StalePointer
      else if capacity wr < 4 then crash OutOfBounds
      else ok (wr\<lparr>buf_store := take 2 (buf_store wr) @ map Some (le_bytes 2 w) @ drop 4 (buf_store wr)\<rparr>))"

definition serialize_bind_response ::
  "evp \<Rightarrow> StunPacket \<Rightarrow> string \<Rightarrow> byte buffer \<Rightarrow> byte buffer res" where
  "serialize_bind_response e sp pwd wr =
     (let wr1 = WriteUInt16 AppendData 0 (WriteUInt16 AppendData STUN_BINDING_RESPONSE wr);
          wr2 = WriteBytes AppendData (trans_id (hdr sp)) (WriteUInt32 AppendData (msg_cookie (hdr sp)) wr1);
          (len, wr3) =
            (case get_attribute STUN_XOR_MAPPED_ADDRESS sp of
               Some (StunAttributeXorAddress t l a f) \<Rightarrow> attr_write (StunAttributeXorAddress t l a f) wr2
             | _ \<Rightarrow> (0, wr2));
          hdr_ptr = buf_block wr3
      in res_bind (wr_put_msg_len hdr_ptr (HostToNetwork16 (word_of_nat (len + 24))) wr3) (\<lambda>wr4.
         res_bind (wr_read (len + STUN_HEADER_SIZE) wr4) (\<lambda>covered.
         let hmac = ComputeHmac e DIGEST_SHA_1 (bytes_of_string pwd) covered k_stun_message_integrity_size;
             (len2, wr5) =
               (if length hmac = k_stun_message_integrity_size
                then let (n, w) = attr_write (StunAttributeIntegrity STUN_MESSAGE_INTEGRITY
                                    (word_of_nat k_stun_message_integrity_size) None hmac) wr4
                     in (len + n, w)
                else (len, wr4))
         in res_bind (wr_put_msg_len hdr_ptr (HostToNetwork16 (word_of_nat (len2 + 8))) wr5) (\<lambda>wr6.
            res_bind (wr_read (buf_size wr6) wr6) (\<lambda>all.
            let crc2 = ComputeCrc32 all XOR STUN_FINGERPRINT_XOR_VALUE
            in ok (snd (attr_write (StunAttributeFingerPrint STUN_FINGERPRINT 4 crc2) wr6)))))))"

section \<open>References\<close>

text \<open>An attribute on the wire: type, length, value, zero padding to a multiple of four.\<close>

definition pad_len :: "nat \<Rightarrow> nat" where
  "pad_len n = (4 - n mod 4) mod 4"

fun tlv :: "u16 \<times> bytes \<Rightarrow> bytes" where
  "tlv (type, v) = be_bytes 2 type @ be_bytes 2 (word_of_nat (length v) :: u16) @ v @ replicate (pad_len (length v)) 0"

text \<open>What the attribute at the offset \<open>at\<close> stands for; types the server ignores stand for nothing.\<close>

fun tlv_attr :: "nat \<Rightarrow> u16 \<times> bytes \<Rightarrow> StunAttribute list" where
  "tlv_attr at (type, v) =
     (let l = word_of_nat (length v)
      in if type = STUN_USERNAME then
           (case tokens (CHR '':'') (string_of_bytes v) of
              [remote, local] \<Rightarrow> [StunAttributeUsername type l remote local]
            | _ \<Rightarrow> [StunAttributeUsername type l [] []])
         else if type = STUN_MESSAGE_INTEGRITY then [StunAttributeIntegrity type l (Some at) v]
         else if type = STUN_ICE_CONTROLLING then [StunAttributeIceControlling type l (string_of_bytes v)]
         else if type = STUN_USE_CANDIDATE then [StunAttributePriority type l None]
         else if type = STUN_PRIORITY then [StunAttributePriority type l (Some (be_word v))]
         else [])"

fun tlv_attrs :: "nat \<Rightarrow> (u16 \<times> bytes) list \<Rightarrow> StunAttribute list" where
  "tlv_attrs at [] = []"
| "tlv_attrs at (t # ts) = tlv_attr at t @ tlv_attrs (at + length (tlv t)) ts"

text \<open>
  The value of an attribute is short enough for its length field, a PRIORITY has four bytes and
  a MESSAGE-INTEGRITY needs no padding.
\<close>

fun tlv_ok :: "u16 \<times> bytes \<Rightarrow> bool" where
  "tlv_ok (type, v) =
     (length v \<le> 65532 \<and> (type = STUN_PRIORITY \<longrightarrow> length v = 4) \<and>
      (type = STUN_MESSAGE_INTEGRITY \<longrightarrow> length v mod 4 = 0))"

definition stun_message :: "u16 \<Rightarrow> u16 \<Rightarrow> u32 \<Rightarrow> bytes \<Rightarrow> bytes \<Rightarrow> bytes" where
  "stun_message type len cookie tid body = be_bytes 2 type @ be_bytes 2 len @ be_bytes 4 cookie @ tid @ body"

definition xor_address_value :: "IpAddress \<Rightarrow> byte \<Rightarrow> bytes" where
  "xor_address_value addr fam =
     [0, fam] @ be_bytes 2 (ip_port addr XOR 0x2112) @ le_bytes 4 (ip_s_addr addr XOR HostToNetwork32 k_stun_magic_cookie)"

text \<open>The binding response: mapped address, message integrity, fingerprint.\<close>

definition response_mac :: "evp \<Rightarrow> bytes \<Rightarrow> IpAddress \<Rightarrow> byte \<Rightarrow> string \<Rightarrow> bytes" where
  "response_mac e tid addr fam pwd =
     rfc2104_hmac e EVP_sha1 (bytes_of_string pwd)
       (stun_message 0x0101 36 k_stun_magic_cookie tid (tlv (STUN_XOR_MAPPED_ADDRESS, xor_address_value addr fam)))"

definition response_covered :: "evp \<Rightarrow> bytes \<Rightarrow> IpAddress \<Rightarrow> byte \<Rightarrow> string \<Rightarrow> bytes" where
  "response_covered e tid addr fam pwd =
     stun_message 0x0101 44 k_stun_magic_cookie tid
       (tlv (STUN_XOR_MAPPED_ADDRESS, xor_address_value addr fam) @
        tlv (STUN_MESSAGE_INTEGRITY, response_mac e tid addr fam pwd))"

definition bind_response :: "evp \<Rightarrow> bytes \<Rightarrow> IpAddress \<Rightarrow> byte \<Rightarrow> string \<Rightarrow> bytes" where
  "bind_response e tid addr fam pwd =
     response_covered e tid addr fam pwd @
     tlv (STUN_FINGERPRINT,
          be_bytes 4 (ComputeCrc32 (response_covered e tid addr fam pwd) XOR STUN_FINGERPRINT_XOR_VALUE))"

section \<open>Reading attributes\<close>

lemma be_bytes_eq_Nil [simp]: "be_bytes n w = [] \<longleftrightarrow> n = 0"
  by (metis length_0_conv length_be_bytes)

lemma unat_u16_of_nat: "n < 65536 \<Longrightarrow> unat (word_of_nat n :: u16) = n"
  by (simp add: unsigned_of_nat take_bit_nat_eq_self)

lemma round_up: "g = (q + 1) * 4 \<Longrightarrow> p + r = 4 \<Longrightarrow> n = 4 * q + r \<Longrightarrow> g = n + (p :: nat)"
  by simp

lemma get_real_len_eq: "n \<le> 65532 \<Longrightarrow> get_real_len n = n + pad_len n"
proof -
  assume n: "n \<le> 65532"
  show ?thesis
  proof (cases "n mod 4 = 0")
    case True
    with n show ?thesis by (simp add: get_real_len_def pad_len_def unsigned_of_nat take_bit_nat_eq_self)
  next
    case False
    let ?q = "n div 4"
    have q: "(?q + 1) * 4 < 65536" using n False by presburger
    have "(word_of_nat ?q + 1) * 4 = (word_of_nat ((?q + 1) * 4) :: u16)" by simp
    then have "unat ((word_of_nat ?q + 1) * 4 :: u16) = (?q + 1) * 4"
      using unat_u16_of_nat [OF q] by (simp only:)
    then have "get_real_len n = (?q + 1) * 4"
      using False by (simp only: get_real_len_def Let_def if_True simp_thms)
    moreover have "n mod 4 < 4" by simp
    then have "pad_len n + n mod 4 = 4" using False by (simp add: pad_len_def)
    moreover have "n = 4 * ?q + n mod 4" by simp
    ultimately show ?thesis by (rule round_up)
  qed
qed

lemma length_tlv: "length (tlv (type, v)) = 4 + length v + pad_len (length v)"
  by simp

lemma GetBE16_append: "length xs = 2 \<Longrightarrow> GetBE16 (xs @ ys) = ok (be_word xs)"
  by (simp add: GetBE16_eq)

lemma GetBE32_append: "length xs = 4 \<Longrightarrow> GetBE32 (xs @ ys) = ok (be_word xs)"
  by (simp add: GetBE32_eq)

lemma be_word_be_bytes16 [simp]: "be_word (be_bytes 2 (w :: u16)) = w"
  by (simp add: be_word_be_bytes)

lemma be_word_be_bytes32 [simp]: "be_word (be_bytes 4 (w :: u32)) = w"
  by (simp add: be_word_be_bytes)

lemma drop_exact: "n = length xs \<Longrightarrow> drop n (xs @ ys) = ys"
  by simp

lemma read_block_append: "off = length xs \<Longrightarrow> n = length ys \<Longrightarrow> read_block (xs @ ys @ zs) off n = ok ys"
  by (simp add: read_block_def)

lemma parse_one_tlv:
  assumes "tlv_ok (type, v)" and data: "data = pre @ tlv (type, v) @ rest" and "length pre = at"
  shows "parse_one data at type (word_of_nat (length v)) = ok (tlv_attr at (type, v), length (tlv (type, v)))"
proof -
  let ?l = "word_of_nat (length v) :: u16"
  let ?tail = "replicate (pad_len (length v)) (0 :: byte) @ rest"
  have len: "unat ?l = length v" using assms(1) by (simp add: unsigned_of_nat take_bit_nat_eq_self)
  have d: "data = (pre @ be_bytes 2 type @ be_bytes 2 ?l) @ v @ ?tail" using data by simp
  have rb: "read_block data (at + 4) (length v) = ok v"
    using assms(3) by (subst d) (intro read_block_append; simp)
  have "drop (at + 4) data = v @ ?tail"
    using assms(3) by (subst d) (intro drop_exact; simp)
  then have pr: "GetBE32 (drop (at + 4) data) = ok (be_word v)" if "length v = 4"
    using that by (simp add: GetBE32_append)
  have real: "get_real_len (length v) + 4 = length (tlv (type, v))"
    using assms(1) by (simp add: get_real_len_eq)
  have mi: "length v + 4 = length (tlv (type, v))" if "type = STUN_MESSAGE_INTEGRITY"
    using assms(1) that by (simp add: pad_len_def)
  show ?thesis
    using assms(1) pr mi unfolding parse_one_def Let_def len rb real tlv_attr.simps
    by (auto simp: split_r_char simp del: tlv.simps split: list.split)
qed

lemma header_guard:
  "length pre = 20 + pos \<Longrightarrow> tail \<noteq> [] \<Longrightarrow>
     pos + 4 + STUN_HEADER_SIZE < length (pre @ be_bytes 2 (x :: u16) @ be_bytes 2 (y :: u16) @ tail)"
  by (cases tail) (simp_all add: STUN_HEADER_SIZE_def)

lemma header_fields:
  assumes "data = pre @ be_bytes 2 (type :: u16) @ be_bytes 2 (flen :: u16) @ tail" "length pre = at"
  shows "GetBE16 (drop at data) = ok type" "GetBE16 (drop (at + 2) data) = ok flen"
proof -
  have "drop at data = be_bytes 2 type @ be_bytes 2 flen @ tail" using assms by simp
  then show "GetBE16 (drop at data) = ok type" by (simp add: GetBE16_append)
  have "drop (at + 2) data = be_bytes 2 flen @ tail" using assms by simp
  then show "GetBE16 (drop (at + 2) data) = ok flen" by (simp add: GetBE16_append)
qed

lemma parse_attri_step:
  assumes "tlv_ok t" and data: "data = pre @ tlv t @ rest" and pre: "length pre = 20 + pos" and "snd t \<noteq> [] \<or> rest \<noteq> []"
  shows "parse_attri_loop (Suc l) data pos acc = parse_attri_loop l data (pos + length (tlv t)) (acc @ tlv_attr (20 + pos) t)"
proof -
  obtain type v where t: "t = (type, v)" by (cases t)
  let ?n = "word_of_nat (length v) :: u16" let ?tail = "v @ replicate (pad_len (length v)) 0 @ rest"
  have d: "data = pre @ be_bytes 2 type @ be_bytes 2 ?n @ ?tail" using data t by simp
  have "?tail \<noteq> []" using assms(4) t by auto
  from header_guard [OF pre this] have guard: "pos + 4 + STUN_HEADER_SIZE < length data" unfolding d .
  note fields = header_fields [OF d pre]
  have "parse_one data (20 + pos) type ?n = ok (tlv_attr (20 + pos) t, length (tlv t))"
    using assms(1) data unfolding t by (intro parse_one_tlv [OF _ _ pre])
  with guard fields show ?thesis by (simp add: STUN_HEADER_SIZE_def)
qed

lemma parse_attri_loop_prefix:
  "list_all tlv_ok ts \<Longrightarrow> data = pre @ concat (map tlv ts) @ rest \<Longrightarrow> length pre = 20 + pos \<Longrightarrow>
   rest \<noteq> [] \<or> ts = [] \<or> snd (last ts) \<noteq> [] \<Longrightarrow>
   parse_attri_loop (length ts + l) data pos acc =
     parse_attri_loop l data (pos + length (concat (map tlv ts))) (acc @ tlv_attrs (20 + pos) ts)"
proof (induction ts arbitrary: pre pos acc)
  case (Cons t ts)
  have more: "snd t \<noteq> [] \<or> concat (map tlv ts) @ rest \<noteq> []" using Cons.prems(4) by (cases ts) auto
  have "parse_attri_loop (length (t # ts) + l) data pos acc =
      parse_attri_loop (length ts + l) data (pos + length (tlv t)) (acc @ tlv_attr (20 + pos) t)"
    using parse_attri_step [OF _ _ Cons.prems(3) more] Cons.prems(1,2) by simp
  also have "\<dots> = parse_attri_loop l data (pos + length (tlv t) + length (concat (map tlv ts)))
      ((acc @ tlv_attr (20 + pos) t) @ tlv_attrs (20 + (pos + length (tlv t))) ts)"
    using Cons.prems by (intro Cons.IH [where pre = "pre @ tlv t"]) (auto split: if_splits)
  finally show ?case by (simp add: add.assoc)
qed simp

lemma parse_attri_loop_tlv:
  assumes "list_all tlv_ok ts" and "ts = [] \<or> snd (last ts) \<noteq> []" and "length ts \<le> left"
    and "data = pre @ concat (map tlv ts)" and "length pre = 20 + pos"
  shows "parse_attri_loop left data pos acc = ok (acc @ tlv_attrs (20 + pos) ts)"
proof -
  obtain l where l: "left = length ts + l" using assms(3) le_Suc_ex by blast
  have "parse_attri_loop l data (pos + length (concat (map tlv ts))) as = ok as" for as
    using assms(4,5) by (cases l) (simp_all add: STUN_HEADER_SIZE_def)
  with parse_attri_loop_prefix [OF assms(1) _ assms(5), of data "[]" l acc] assms(2,4) show ?thesis unfolding l by simp
qed

text \<open>An attribute that is longer than what is left of the datagram.\<close>

lemma parse_attri_overread:
  assumes "list_all tlv_ok ts" "length ts < 20" "length h = 20"
    and "type = STUN_USERNAME \<or> type = STUN_MESSAGE_INTEGRITY \<or> type = STUN_ICE_CONTROLLING"
    and "rest \<noteq> []" "length rest < unat n"
  shows "parse_attri (h @ concat (map tlv ts) @ be_bytes 2 type @ be_bytes 2 (n :: u16) @ rest) = crash OutOfBounds"
    (is "parse_attri ?data = _")
proof -
  let ?as = "concat (map tlv ts)" let ?at = "20 + length ?as"
  obtain l where l: "20 = length ts + Suc l" using assms(2) less_iff_Suc_add [of "length ts" 20] by auto
  have d: "?data = (h @ ?as) @ be_bytes 2 type @ be_bytes 2 n @ rest" by simp
  have pre: "length (h @ ?as) = ?at" using assms(3) by simp
  have guard: "length ?as + 4 + STUN_HEADER_SIZE < length ?data"
    using header_guard [OF pre assms(5), of type n] unfolding d .
  have "read_block ?data (?at + 4) (unat n) = crash OutOfBounds"
    using assms(3,6) by (simp add: read_block_def)
  then have "parse_one ?data ?at type n = crash OutOfBounds"
    using assms(4) by (auto simp: parse_one_def stun_types)
  with guard header_fields [OF d pre] have "parse_attri_loop (Suc l) ?data (length ?as) as = crash OutOfBounds" for as
    by (simp add: STUN_HEADER_SIZE_def)
  with parse_attri_loop_prefix [OF assms(1) refl, of h 0 "be_bytes 2 type @ be_bytes 2 n @ rest" "Suc l" "[]"] assms(3)
  show ?thesis unfolding parse_attri_def l by simp
qed

lemma parse_attri_tlv:
  assumes "list_all tlv_ok ts" and "ts = [] \<or> snd (last ts) \<noteq> []" and "length ts \<le> 20"
    and "length h = 20"
  shows "parse_attri (h @ concat (map tlv ts)) = ok (tlv_attrs 20 ts)"
  using parse_attri_loop_tlv [OF assms(1-3) refl, of h 0 "[]"] assms(4) by (simp add: parse_attri_def)

section \<open>Writing a response\<close>

text \<open>A writer that holds \<open>xs\<close> and has not moved since its buffer was \<open>block\<close>.\<close>

definition fits :: "nat \<Rightarrow> byte buffer \<Rightarrow> bytes \<Rightarrow> bool" where
  "fits block wr xs = (holds wr xs \<and> buf_block wr = block \<and> capacity wr = kDefaultCapacity)"

lemma fits_append:
  assumes "fits block wr xs" and "length xs + length ys \<le> kDefaultCapacity"
  shows "fits block (AppendData ys wr) (xs @ ys)"
  using assms append_no_realloc [of wr ys] holds_size [of wr xs] holds_append [of wr xs ys]
  by (simp add: fits_def holds_def)

lemma fits_writer: "fits (buf_block ByteBufferWriter) ByteBufferWriter []"
  by (simp add: fits_def holds_ByteBufferWriter capacity_ByteBufferWriter)

lemma fits_read: "fits block wr xs \<Longrightarrow> n \<le> length xs \<Longrightarrow> wr_read n wr = ok (take n xs)"
  by (auto simp: fits_def holds_def wr_read_def Let_def take_map comp_def)

lemma fits_size: "fits block wr xs \<Longrightarrow> buf_size wr = length xs"
  by (simp add: fits_def holds_size)

lemma fits_put_msg_len:
  assumes "fits block wr xs" and "4 \<le> length xs"
  shows "\<exists>wr'. wr_put_msg_len block w wr = ok wr' \<and> fits block wr' (put_msg_len w xs)"
proof -
  let ?wr = "wr\<lparr>buf_store := take 2 (buf_store wr) @ map Some (le_bytes 2 w) @ drop 4 (buf_store wr)\<rparr>"
  have n: "buf_size wr = length xs" "buf_size wr \<le> length (buf_store wr)" "4 \<le> length (buf_store wr)"
    using assms fits_size [OF assms(1)] by (auto simp: fits_def holds_def IsConsistent_def capacity_def)
  have st: "take (length xs) (buf_store wr) = map Some xs"
    using assms(1) n(1) by (simp add: fits_def holds_def buf_data_def)
  have t2: "take 2 (buf_store wr) = map Some (take 2 xs)"
    using arg_cong [OF st, of "take 2"] assms(2) by (simp add: take_map min_def)
  have d4: "take (length xs - 4) (drop 4 (buf_store wr)) = map Some (drop 4 xs)"
    using arg_cong [OF st, of "drop 4"] by (simp add: drop_map drop_take)
  have "buf_data ?wr = map Some (put_msg_len w xs)"
    using n t2 d4 assms(2) by (simp add: buf_data_def put_msg_len_def)
  then have "fits block ?wr (put_msg_len w xs)"
    using assms(1) n by (auto simp: fits_def holds_def IsConsistent_def capacity_def)
  moreover have "wr_put_msg_len block w wr = ok ?wr"
    using assms(1) n by (simp add: wr_put_msg_len_def fits_def capacity_def)
  ultimately show ?thesis by blast
qed

lemma length_put_msg_len: "4 \<le> length xs \<Longrightarrow> length (put_msg_len w xs) = length xs"
  by (simp add: put_msg_len_def)

lemma put_msg_len_message:
  "put_msg_len (HostToNetwork16 l) (stun_message type l0 cookie tid body) = stun_message type l cookie tid body"
  by (simp add: put_msg_len_def stun_message_def HostToNetwork_bytes)

lemma put_msg_len_restore:
  assumes "4 \<le> length data"
  shows "put_msg_len (msg_len (load_header data)) (put_msg_len w data) = data"
proof -
  have "le_bytes 2 (le_word (take 2 (drop 2 data)) :: u16) = take 2 (drop 2 data)"
    using assms le_bytes_le_word [of "take 2 (drop 2 data)", where 'a = 16] by simp
  moreover have "take 2 data @ take 2 (drop 2 data) @ drop 4 data = data"
    by (metis append_take_drop_id drop_drop numeral_Bit0 numeral_plus_numeral numeral_2_eq_2 add_2_eq_Suc')
  ultimately show ?thesis
    using assms by (simp add: put_msg_len_def load_header_def Let_def)
qed

lemma length_xor_address_value [simp]: "length (xor_address_value addr fam) = 8"
  by (simp add: xor_address_value_def)

lemma length_stun_message [simp]: "length tid = 12 \<Longrightarrow> length (stun_message type l c tid body) = 20 + length body"
  by (simp add: stun_message_def)

lemma pad_len_4 [simp]: "pad_len 4 = 0" "pad_len 8 = 0" "pad_len 20 = 0"
  by (simp_all add: pad_len_def)

lemma stun_message_append: "stun_message type l c tid (x @ y) = stun_message type l c tid x @ y"
  by (simp add: stun_message_def)

lemma fits_write16:
  "fits block wr xs \<Longrightarrow> length xs + 2 \<le> kDefaultCapacity \<Longrightarrow> fits block (WriteUInt16 AppendData v wr) (xs @ be_bytes 2 v)"
  using fits_append [of block wr xs "be_bytes 2 v"] by (simp add: WriteUInt16_def WriteBytes_def HostToNetwork_bytes)

lemma fits_write32:
  "fits block wr xs \<Longrightarrow> length xs + 4 \<le> kDefaultCapacity \<Longrightarrow> fits block (WriteUInt32 AppendData v wr) (xs @ be_bytes 4 v)"
  using fits_append [of block wr xs "be_bytes 4 v"] by (simp add: WriteUInt32_def WriteBytes_def HostToNetwork_bytes)

lemma fits_write8:
  "fits block wr xs \<Longrightarrow> length xs + 1 \<le> kDefaultCapacity \<Longrightarrow> fits block (WriteUInt8 AppendData v wr) (xs @ [v])"
  using fits_append [of block wr xs "[v]"] by (simp add: WriteUInt8_def WriteBytes_def)

lemma fits_write_bytes:
  "fits block wr xs \<Longrightarrow> length xs + length v \<le> kDefaultCapacity \<Longrightarrow> fits block (WriteBytes AppendData v wr) (xs @ v)"
  by (simp add: fits_append WriteBytes_def)

lemma fits_type_len:
  "fits block wr xs \<Longrightarrow> length xs + 4 \<le> kDefaultCapacity \<Longrightarrow>
   fits block (WriteUInt16 AppendData l (WriteUInt16 AppendData type wr)) (xs @ be_bytes 2 type @ be_bytes 2 l)"
  using fits_write16 [OF fits_write16, of block wr xs type l] by simp

lemma fits_xor_address:
  assumes "fits block wr xs" and "length xs + 12 \<le> kDefaultCapacity"
  shows "fits block (snd (attr_write (StunAttributeXorAddress type 8 addr fam) wr))
    (xs @ tlv (type, xor_address_value addr fam))"
proof -
  let ?p = "ip_port addr XOR ucast (drop_bit 16 k_stun_magic_cookie)"
  let ?ip = "le_bytes 4 (ip_s_addr addr XOR HostToNetwork32 k_stun_magic_cookie)"
  let ?xs1 = "xs @ be_bytes 2 type @ be_bytes 2 (8 :: u16)" let ?xs2 = "(?xs1 @ [0]) @ [fam]"
  have p: "?p = ip_port addr XOR 0x2112" by (simp add: k_stun_magic_cookie_def)
  note w1 = fits_type_len [OF assms(1), of 8 type]
  have w2: "fits block (WriteUInt8 AppendData fam (WriteUInt8 AppendData 0
      (WriteUInt16 AppendData 8 (WriteUInt16 AppendData type wr)))) ?xs2"
    using w1 assms(2) by (intro fits_write8) simp_all
  note w3 = fits_write16 [OF w2, of ?p]
  have "fits block (snd (attr_write (StunAttributeXorAddress type 8 addr fam) wr)) ((?xs2 @ be_bytes 2 ?p) @ ?ip)"
    using w3 assms(2) unfolding attr_write.simps Let_def snd_conv by (intro fits_write_bytes) simp_all
  then show ?thesis by (simp add: p xor_address_value_def)
qed

lemma fits_integrity:
  assumes "fits block wr xs" and "length mac = 20" and "length xs + 24 \<le> kDefaultCapacity"
  shows "fits block (snd (attr_write (StunAttributeIntegrity type 20 epos mac) wr)) (xs @ tlv (type, mac))"
  using assms fits_write_bytes [OF fits_type_len [OF assms(1), of 20 type], of mac] by simp

lemma fits_fingerprint:
  assumes "fits block wr xs" and "length xs + 8 \<le> kDefaultCapacity"
  shows "fits block (snd (attr_write (StunAttributeFingerPrint type 4 v) wr)) (xs @ tlv (type, be_bytes 4 v))"
  using assms fits_write32 [OF fits_type_len [OF assms(1), of 4 type], of v] by simp

lemma sha1_hmac:
  assumes "evp_documented e"
  shows "ComputeHmac e DIGEST_SHA_1 key input 20 = rfc2104_hmac e EVP_sha1 key input"
    and "length (rfc2104_hmac e EVP_sha1 key input) = 20"
proof -
  have "GetDigestEVP DIGEST_SHA_1 = Some EVP_sha1" by (simp add: GetDigestEVP_def digest_names)
  then show "ComputeHmac e DIGEST_SHA_1 key input 20 = rfc2104_hmac e EVP_sha1 key input"
    using assms by (simp add: ComputeHmac_eq evp_sizes)
  show "length (rfc2104_hmac e EVP_sha1 key input) = 20"
    using assms by (simp add: rfc2104_hmac_def Let_def evp_sizes)
qed

lemma length_response_mac: "evp_documented e \<Longrightarrow> length (response_mac e tid addr fam pwd) = 20"
  by (simp add: response_mac_def sha1_hmac)

lemma serialize_bind_response_fits:
  assumes e: "evp_documented e" and tid: "length (trans_id (hdr sp)) = 12"
    and cookie: "msg_cookie (hdr sp) = k_stun_magic_cookie"
    and attr: "get_attribute STUN_XOR_MAPPED_ADDRESS sp =
      Some (StunAttributeXorAddress STUN_XOR_MAPPED_ADDRESS 8 addr fam)"
  shows "\<exists>wr. serialize_bind_response e sp pwd ByteBufferWriter = ok wr \<and>
    fits (buf_block ByteBufferWriter) wr (bind_response e (trans_id (hdr sp)) addr fam pwd)"
proof -
  let ?B = "buf_block ByteBufferWriter" let ?tid = "trans_id (hdr sp)"
  let ?msg = "\<lambda>l. stun_message 0x0101 l k_stun_magic_cookie ?tid"
  let ?a = "tlv (STUN_XOR_MAPPED_ADDRESS, xor_address_value addr fam)"
  let ?mac = "response_mac e ?tid addr fam pwd" let ?i = "tlv (STUN_MESSAGE_INTEGRITY, ?mac)"
  have cap: "kDefaultCapacity = 4096" by (simp add: kDefaultCapacity_def)
  have lens: "length ?a = 12" "length ?i = 24" using length_response_mac [OF e] by simp_all
  define wr2 where "wr2 = WriteBytes AppendData ?tid (WriteUInt32 AppendData (msg_cookie (hdr sp))
    (WriteUInt16 AppendData 0 (WriteUInt16 AppendData STUN_BINDING_RESPONSE ByteBufferWriter)))"
  have "fits ?B wr2 ((([] @ be_bytes 2 (0x0101 :: u16) @ be_bytes 2 (0 :: u16)) @ be_bytes 4 k_stun_magic_cookie) @ ?tid)"
    unfolding wr2_def cookie STUN_BINDING_RESPONSE_def
    by (intro fits_write_bytes fits_write32 fits_type_len fits_writer) (simp_all add: cap tid)
  then have w2: "fits ?B wr2 (?msg 0 [])" by (simp add: stun_message_def)
  define wr3 where "wr3 = snd (attr_write (StunAttributeXorAddress STUN_XOR_MAPPED_ADDRESS 8 addr fam) wr2)"
  have w3: "fits ?B wr3 (?msg 0 ?a)"
    using fits_xor_address [OF w2, of STUN_XOR_MAPPED_ADDRESS addr fam] tid
    by (simp add: wr3_def cap stun_message_append [symmetric] del: tlv.simps attr_write.simps)
  have b3: "buf_block wr3 = ?B" using w3 by (simp add: fits_def)
  obtain wr4 where p4: "wr_put_msg_len ?B (HostToNetwork16 36) wr3 = ok wr4" and w4: "fits ?B wr4 (?msg 36 ?a)"
    using fits_put_msg_len [OF w3, of "HostToNetwork16 36"] tid
    by (auto simp: put_msg_len_message simp del: tlv.simps)
  have r4: "wr_read 32 wr4 = ok (?msg 36 ?a)"
    using fits_read [OF w4, of 32] tid lens by (simp del: tlv.simps)
  define wr5 where "wr5 = snd (attr_write (StunAttributeIntegrity STUN_MESSAGE_INTEGRITY 20 None ?mac) wr4)"
  have "fits ?B wr5 (?msg 36 ?a @ ?i)"
    unfolding wr5_def using tid lens by (intro fits_integrity [OF w4]) (simp_all add: cap length_response_mac [OF e] del: tlv.simps)
  then have w5: "fits ?B wr5 (?msg 36 (?a @ ?i))" by (simp only: stun_message_append)
  obtain wr6 where p6: "wr_put_msg_len ?B (HostToNetwork16 44) wr5 = ok wr6" and w6: "fits ?B wr6 (?msg 44 (?a @ ?i))"
    using fits_put_msg_len [OF w5, of "HostToNetwork16 44"] tid
    by (auto simp: put_msg_len_message simp del: tlv.simps)
  have r6: "wr_read (buf_size wr6) wr6 = ok (response_covered e ?tid addr fam pwd)"
    using fits_read [OF w6] fits_size [OF w6] by (simp add: response_covered_def del: tlv.simps)
  let ?crc = "ComputeCrc32 (response_covered e ?tid addr fam pwd) XOR STUN_FINGERPRINT_XOR_VALUE"
  define wr7 where "wr7 = snd (attr_write (StunAttributeFingerPrint STUN_FINGERPRINT 4 ?crc) wr6)"
  have "fits ?B wr7 (?msg 44 (?a @ ?i) @ tlv (STUN_FINGERPRINT, be_bytes 4 ?crc))"
    unfolding wr7_def using tid lens by (intro fits_fingerprint [OF w6]) (simp add: cap del: tlv.simps)
  then have w7: "fits ?B wr7 (bind_response e ?tid addr fam pwd)"
    by (simp only: bind_response_def response_covered_def)
  have mac: "ComputeHmac e DIGEST_SHA_1 (bytes_of_string pwd) (?msg 36 ?a) 20 = ?mac" "length ?mac = 20"
    by (simp_all only: sha1_hmac [OF e] response_mac_def)
  have "serialize_bind_response e sp pwd ByteBufferWriter = ok wr7"
    using attr p4 r4 p6 r6 mac b3
    by (simp add: serialize_bind_response_def wr2_def [symmetric] Let_def stun_sizes
        wr3_def wr5_def wr7_def del: tlv.simps)
  with w7 show ?thesis by blast
qed

section \<open>Reading a packet\<close>

lemma validate_fingerprint_eq:
  assumes "8 \<le> length data"
  shows "validate_fingerprint data =
    (let f = drop (length data - 8) data
     in if be_word (take 2 f) \<noteq> STUN_FINGERPRINT then ok True
        else if be_word (take 2 (drop 2 f)) \<noteq> (4 :: u16) then ok False
        else ok (be_word (take 4 (drop 4 f)) =
              ComputeCrc32 (take (length data - 8) data) XOR STUN_FINGERPRINT_XOR_VALUE))"
  using assms by (simp add: validate_fingerprint_def stun_sizes Let_def GetBE16_eq GetBE32_eq)

lemma validate_fingerprint_tlv:
  "validate_fingerprint (xs @ tlv (STUN_FINGERPRINT, be_bytes 4 (ComputeCrc32 xs XOR STUN_FINGERPRINT_XOR_VALUE))) = ok True"
  by (subst validate_fingerprint_eq) simp_all

lemma be_bytes_types [simp]:
  "be_bytes 2 (0x0101 :: u16) = [1, 1]"
  "be_bytes 4 k_stun_magic_cookie = [0x21, 0x12, 0xA4, 0x42]"
  by (simp_all add: be_bytes2 be_bytes_def le_bytes_def k_stun_magic_cookie_def upt_rec)

lemma response_message_bytes:
  "stun_message 0x0101 l k_stun_magic_cookie tid body =
   1 # 1 # ucast (drop_bit 8 l) # ucast l # 0x21 # 0x12 # 0xA4 # 0x42 # tid @ body"
  by (simp add: stun_message_def be_bytes2)

lemma is_stun_response:
  "length tid = 12 \<Longrightarrow> is_stun (stun_message 0x0101 l k_stun_magic_cookie tid body)"
  by (simp add: is_stun_def response_message_bytes stun_sizes magic_cookie_def load_header_def Let_def)

lemma load_header_response:
  assumes "length tid = 12"
  shows "trans_id (load_header (stun_message 0x0101 l k_stun_magic_cookie tid body)) = tid"
    and "NetworkToHost16 (msg_len (load_header (stun_message 0x0101 l k_stun_magic_cookie tid body))) = l"
proof -
  show "trans_id (load_header (stun_message 0x0101 l k_stun_magic_cookie tid body)) = tid"
    using assms by (simp add: response_message_bytes load_header_def Let_def)
  have "take 2 (drop 2 (stun_message 0x0101 l k_stun_magic_cookie tid body)) = be_bytes 2 l"
    by (simp add: stun_message_def)
  then show "NetworkToHost16 (msg_len (load_header (stun_message 0x0101 l k_stun_magic_cookie tid body))) = l"
    by (simp add: load_header_def Let_def NetworkToHost_word)
qed

lemma response_class_method:
  fixes l :: u16 and tid body :: bytes
  defines "d \<equiv> stun_message 0x0101 l k_stun_magic_cookie tid body"
  shows "push_bit 1 (ucast (d ! 0) AND 0x01) OR drop_bit 4 (ucast (d ! 1) AND 0x10) = (2 :: u16)"
    and "read_2bytes d = ok 0x0101"
  by (simp_all add: d_def response_message_bytes read_2bytes_def)

definition response_packet :: "evp \<Rightarrow> bytes \<Rightarrow> IpAddress \<Rightarrow> byte \<Rightarrow> string \<Rightarrow> StunPacket" where
  "response_packet e tid addr fam pwd =
     \<lparr>hdr = (load_header (bind_response e tid addr fam pwd))\<lparr>msg_len := 44\<rparr>, cls = 2, stun_method = 1,
      attris = [StunAttributeIntegrity STUN_MESSAGE_INTEGRITY 20 (Some 32) (response_mac e tid addr fam pwd)]\<rparr>"

lemma bind_response_message:
  "bind_response e tid addr fam pwd =
   stun_message 0x0101 44 k_stun_magic_cookie tid (concat (map tlv
     [(STUN_XOR_MAPPED_ADDRESS, xor_address_value addr fam),
      (STUN_MESSAGE_INTEGRITY, response_mac e tid addr fam pwd),
      (STUN_FINGERPRINT, be_bytes 4 (ComputeCrc32 (response_covered e tid addr fam pwd) XOR STUN_FINGERPRINT_XOR_VALUE))]))"
  by (simp add: bind_response_def response_covered_def stun_message_append del: tlv.simps)

lemma parse_attri_response:
  assumes "evp_documented e" and "length tid = 12"
  shows "parse_attri (bind_response e tid addr fam pwd) =
    ok [StunAttributeIntegrity STUN_MESSAGE_INTEGRITY 20 (Some 32) (response_mac e tid addr fam pwd)]"
proof -
  let ?ts = "[(STUN_XOR_MAPPED_ADDRESS, xor_address_value addr fam),
      (STUN_MESSAGE_INTEGRITY, response_mac e tid addr fam pwd),
      (STUN_FINGERPRINT, be_bytes 4 (ComputeCrc32 (response_covered e tid addr fam pwd) XOR STUN_FINGERPRINT_XOR_VALUE))]"
  have "bind_response e tid addr fam pwd = stun_message 0x0101 44 k_stun_magic_cookie tid [] @ concat (map tlv ?ts)"
    unfolding bind_response_message stun_message_append [symmetric] by simp
  moreover have "parse_attri (stun_message 0x0101 44 k_stun_magic_cookie tid [] @ concat (map tlv ?ts)) = ok (tlv_attrs 20 ?ts)"
    using assms by (intro parse_attri_tlv) (simp_all add: stun_types length_response_mac)
  moreover have "tlv_attrs 20 ?ts = [StunAttributeIntegrity STUN_MESSAGE_INTEGRITY 20 (Some 32) (response_mac e tid addr fam pwd)]"
    using assms by (simp add: stun_types length_response_mac Let_def)
  ultimately show ?thesis by (simp only:)
qed

lemma length_bind_response: "evp_documented e \<Longrightarrow> length tid = 12 \<Longrightarrow> length (bind_response e tid addr fam pwd) = 64"
  by (simp add: bind_response_def response_covered_def length_response_mac)

lemma parse_response:
  assumes "evp_documented e" and tid: "length tid = 12"
  shows "parse (bind_response e tid addr fam pwd) = ok (Some (response_packet e tid addr fam pwd))"
proof -
  let ?d = "bind_response e tid addr fam pwd"
  note m = bind_response_message [of e tid addr fam pwd]
  have "is_stun ?d" unfolding m by (rule is_stun_response [OF tid])
  moreover have ml: "NetworkToHost16 (msg_len (load_header ?d)) = 44"
    unfolding m by (rule load_header_response(2) [OF tid])
  moreover from ml have "HostToNetwork16 (msg_len (load_header ?d)) = 44"
    by (simp add: HostToNetwork16_def NetworkToHost16_def)
  moreover have "validate_fingerprint ?d = ok True"
    unfolding bind_response_def by (rule validate_fingerprint_tlv)
  moreover have "push_bit 1 (ucast (?d ! 0) AND 0x01) OR drop_bit 4 (ucast (?d ! 1) AND 0x10) = (2 :: u16)"
    and "read_2bytes ?d = ok 0x0101"
    unfolding m by (rule response_class_method)+
  ultimately show ?thesis
    using parse_attri_response [OF assms] length_bind_response [OF assms]
    by (simp add: parse_def Let_def response_packet_def stun_sizes)
qed

lemma validate_response:
  assumes e: "evp_documented e" and tid: "length tid = 12" and pwd: "passwd param = pwd"
  shows "validate e param (response_packet e tid addr fam pwd) (bind_response e tid addr fam pwd) =
    ok (True, bind_response e tid addr fam pwd)"
proof -
  let ?d = "bind_response e tid addr fam pwd"
  let ?a = "tlv (STUN_XOR_MAPPED_ADDRESS, xor_address_value addr fam)"
  let ?mac = "response_mac e tid addr fam pwd"
  let ?r = "tlv (STUN_MESSAGE_INTEGRITY, ?mac) @ tlv (STUN_FINGERPRINT,
    be_bytes 4 (ComputeCrc32 (response_covered e tid addr fam pwd) XOR STUN_FINGERPRINT_XOR_VALUE))"
  have d: "?d = stun_message 0x0101 44 k_stun_magic_cookie tid (?a @ ?r)"
    unfolding bind_response_message by simp
  let ?d' = "put_msg_len (HostToNetwork16 36) ?d"
  have "take 32 ?d' = stun_message 0x0101 36 k_stun_magic_cookie tid ?a"
    using tid by (simp only: d put_msg_len_message) (simp add: stun_message_append length_tlv del: tlv.simps)
  then have "ComputeHmac e DIGEST_SHA_1 (bytes_of_string pwd) (take 32 ?d') 20 = ?mac"
    by (simp only: sha1_hmac [OF e] response_mac_def)
  moreover have "put_msg_len (msg_len (load_header ?d)) ?d' = ?d"
    using length_bind_response [OF e tid] by (intro put_msg_len_restore) simp
  ultimately show ?thesis
    using length_response_mac [OF e] length_bind_response [OF e tid] pwd
    by (simp add: validate_def response_packet_def check_integrity_def Let_def stun_sizes stun_types)
qed

lemma parse_SomeD:
  assumes "parse data = ok (Some p)"
  shows "is_stun data" and "length data = 20 + unat (NetworkToHost16 (msg_len (load_header data)))"
    and "validate_fingerprint data = ok True" and "parse_attri data = ok (attris p)"
    and "trans_id (hdr p) = take 12 (drop 8 data)"
  using assms
  by (auto simp: parse_def Let_def stun_sizes load_header_def split: if_splits simp: res_bind_eq_ok)

lemma parse_None_fingerprint:
  "validate_fingerprint data = ok False \<Longrightarrow> parse data = ok None"
  by (simp add: parse_def Let_def)

lemma take_update_split:
  "i < n \<Longrightarrow> n \<le> length xs \<Longrightarrow>
   take n xs = take i xs @ xs ! i # take (n - Suc i) (drop (Suc i) xs) \<and>
   take n (xs[i := b]) = take i xs @ b # take (n - Suc i) (drop (Suc i) xs)"
proof -
  assume a: "i < n" "n \<le> length xs"
  have "take n xs = take i (take n xs) @ take n xs ! i # drop (Suc i) (take n xs)"
    using a by (intro id_take_nth_drop) simp
  moreover have "take n (xs[i := b]) = (take n xs)[i := b]" by (simp add: take_update_swap)
  moreover have "(take n xs)[i := b] = take i (take n xs) @ b # drop (Suc i) (take n xs)"
    using a by (intro upd_conv_take_nth_drop) simp
  ultimately show ?thesis using a by (simp add: drop_take min_def)
qed

section \<open>Authentication: lemmas\<close>

fun attr_wf :: "bytes \<Rightarrow> StunAttribute \<Rightarrow> bool" where
  "attr_wf data (StunAttributeUsername t _ _ _) = (t = STUN_USERNAME)"
| "attr_wf data (StunAttributeIntegrity t _ epos _) =
     (t = STUN_MESSAGE_INTEGRITY \<and> (\<exists>p. epos = Some p \<and> p \<le> length data))"
| "attr_wf data a = (at_type a \<noteq> STUN_USERNAME \<and> at_type a \<noteq> STUN_MESSAGE_INTEGRITY)"

text \<open>What the two authentication attributes claim about the datagram they came with.\<close>

definition mac_matches :: "evp \<Rightarrow> string \<Rightarrow> bytes \<Rightarrow> nat \<Rightarrow> bytes \<Rightarrow> bool" where
  "mac_matches e pwd data endp mac =
     (rfc2104_hmac e EVP_sha1 (bytes_of_string pwd)
        (take endp (put_msg_len (HostToNetwork16 (word_of_nat (endp + 4))) data)) = take 20 (mac @ [0]))"

fun authentic :: "evp \<Rightarrow> IceParameter \<Rightarrow> bytes \<Rightarrow> StunAttribute \<Rightarrow> bool" where
  "authentic e param data (StunAttributeUsername _ _ remote _) = (remote = ufrag param)"
| "authentic e param data (StunAttributeIntegrity _ _ (Some endp) mac) =
     mac_matches e (passwd param) data endp mac"
| "authentic e param data _ = True"

definition mac_readable :: "StunAttribute \<Rightarrow> bool" where
  "mac_readable a = (case a of StunAttributeIntegrity _ _ _ mac \<Rightarrow> 19 \<le> length mac | _ \<Rightarrow> True)"

lemma read_block_bound: "read_block data off n = ok x \<Longrightarrow> off + n \<le> length data"
  by (simp add: read_block_def split: if_splits)

lemma parse_one_wf:
  "parse_one data at type flen = ok (new, step) \<Longrightarrow> list_all (attr_wf data) new"
  by (auto simp: parse_one_def Let_def res_bind_eq_ok stun_types split: if_splits dest!: read_block_bound)

lemma parse_attri_loop_wf:
  "parse_attri_loop left data pos acc = ok as \<Longrightarrow> list_all (attr_wf data) acc \<Longrightarrow> list_all (attr_wf data) as"
proof (induction left arbitrary: pos acc)
  case (Suc left)
  show ?case
  proof (cases "pos + 4 + STUN_HEADER_SIZE < length data")
    case True
    with Suc.prems obtain type flen new step where
      p: "parse_one data (STUN_HEADER_SIZE + pos) type flen = ok (new, step)" and
      l: "parse_attri_loop left data (pos + step) (acc @ new) = ok as"
      by (auto simp: Let_def res_bind_eq_ok)
    from Suc.IH [OF l] parse_one_wf [OF p] Suc.prems(2) show ?thesis by simp
  qed (use Suc.prems in simp)
qed simp

lemma parse_attri_wf: "parse_attri data = ok as \<Longrightarrow> list_all (attr_wf data) as"
  using parse_attri_loop_wf [of 20 data 0 "[]" as] by (simp add: parse_attri_def list_all_iff)

lemma check_integrity_eq:
  assumes "evp_documented e" and "endp \<le> length data" and "19 \<le> length mac" and "4 \<le> length data"
  shows "\<exists>d. check_integrity e param (Some endp) mac data = ok (mac_matches e (passwd param) data endp mac, d) \<and>
    (mac_matches e (passwd param) data endp mac \<longrightarrow> d = data)"
  using assms put_msg_len_restore [OF assms(4)]
  by (simp add: check_integrity_def Let_def stun_sizes sha1_hmac mac_matches_def add.commute)

lemma validate_loop_eq:
  assumes "evp_documented e" and "4 \<le> length data"
  shows "list_all (attr_wf data) as \<Longrightarrow> list_all mac_readable as \<Longrightarrow>
    \<exists>d. validate_loop e param as data = ok (list_all (authentic e param data) as, d) \<and>
      (list_all (authentic e param data) as \<longrightarrow> d = data)"
proof (induction as)
  case (Cons a as)
  then obtain d where ih: "validate_loop e param as data = ok (list_all (authentic e param data) as, d)"
    "list_all (authentic e param data) as \<longrightarrow> d = data" by auto
  show ?case
  proof (cases a)
    case (StunAttributeIntegrity t l epos mac)
    with Cons.prems obtain endp where p: "epos = Some endp" "endp \<le> length data" "19 \<le> length mac"
      "t = STUN_MESSAGE_INTEGRITY" by (auto simp: mac_readable_def)
    from check_integrity_eq [OF assms(1) p(2,3) assms(2), of param] obtain d' where
      c: "check_integrity e param (Some endp) mac data = ok (mac_matches e (passwd param) data endp mac, d')"
      "mac_matches e (passwd param) data endp mac \<longrightarrow> d' = data" by auto
    then show ?thesis using ih p StunAttributeIntegrity by (auto simp: stun_types)
  qed (use Cons.prems ih in \<open>auto simp: stun_types\<close>)
qed simp

lemma validate_parsed:
  assumes "evp_documented e" and "parse data = ok (Some p)" and "list_all mac_readable (attris p)"
  shows "\<exists>d. validate e param p data = ok (list_all (authentic e param data) (attris p), d) \<and>
    (list_all (authentic e param data) (attris p) \<longrightarrow> d = data)"
  using validate_loop_eq [OF assms(1) _ parse_attri_wf [OF parse_SomeD(4) [OF assms(2)]] assms(3), of param]
    parse_SomeD(2) [OF assms(2)]
  by (simp add: validate_def)

text \<open>
  \<^verbatim>\<open>validate\<close> ignores the length it is given, so it can be run on another buffer that is long enough.
\<close>

lemma attr_wf_longer: "length data \<le> length buf \<Longrightarrow> attr_wf data a \<Longrightarrow> attr_wf buf a"
  by (cases a) auto

lemma validate_parsed_buffer:
  assumes "evp_documented e" and "parse data = ok (Some p)" and "list_all mac_readable (attris p)"
    and "length data \<le> length buf"
  shows "\<exists>d. validate e param p buf = ok (list_all (authentic e param buf) (attris p), d)"
proof -
  have "list_all (attr_wf buf) (attris p)"
    using parse_attri_wf [OF parse_SomeD(4) [OF assms(2)]] attr_wf_longer [OF assms(4)] by (auto simp: list_all_iff)
  moreover have "4 \<le> length buf" using parse_SomeD(2) [OF assms(2)] assms(4) by simp
  ultimately show ?thesis
    using validate_loop_eq [OF assms(1) _ _ assms(3)] by (fastforce simp: validate_def)
qed

lemma validate_loop_skips:
  "\<forall>a \<in> set as. at_type a \<noteq> STUN_USERNAME \<and> at_type a \<noteq> STUN_MESSAGE_INTEGRITY \<Longrightarrow>
     validate_loop e param as data = ok (True, data)"
  by (induction as) auto

section \<open>STUN packets\<close>

text \<open>
  C8: The binding response the server writes for a transaction is 64 bytes long, never moves
  its buffer under the header pointer it patches, carries the transaction id and the peer's
  address XORed with the magic cookie, and is accepted by the STUN parser and by the message
  integrity check of anyone who knows the password: parsing it gives a success response to a
  binding request and validating it succeeds and leaves the bytes unchanged.
\<close>

theorem bind_response_accepted:
  assumes "evp_documented e" and "length (trans_id (hdr sp)) = 12"
    and "msg_cookie (hdr sp) = k_stun_magic_cookie"
    and "get_attribute STUN_XOR_MAPPED_ADDRESS sp =
      Some (StunAttributeXorAddress STUN_XOR_MAPPED_ADDRESS 8 addr fam)"
    and "passwd param = pwd"
  shows "\<exists>wr bs p. serialize_bind_response e sp pwd ByteBufferWriter = ok wr \<and> holds wr bs \<and>
    length bs = 64 \<and> parse bs = ok (Some p) \<and> cls p = 2 \<and> stun_method p = 1 \<and>
    trans_id (hdr p) = trans_id (hdr sp) \<and> validate e param p bs = ok (True, bs) \<and>
    be_word (take 2 (drop 26 bs)) XOR 0x2112 = ip_port addr \<and>
    le_word (take 4 (drop 28 bs)) XOR HostToNetwork32 k_stun_magic_cookie = ip_s_addr addr"
proof -
  let ?tid = "trans_id (hdr sp)" let ?bs = "bind_response e ?tid addr fam pwd"
  let ?p = "response_packet e ?tid addr fam pwd"
  obtain wr where "serialize_bind_response e sp pwd ByteBufferWriter = ok wr" "holds wr ?bs"
    using serialize_bind_response_fits [OF assms(1-4)] by (auto simp: fits_def)
  moreover have "trans_id (hdr ?p) = ?tid"
    using load_header_response(1) [OF assms(2)] by (simp add: response_packet_def bind_response_message)
  moreover have v: "drop 24 ?bs = xor_address_value addr fam @ drop 32 ?bs"
    using assms(2) unfolding bind_response_message stun_message_def by simp
  have "drop 26 ?bs = drop 2 (drop 24 ?bs)" "drop 28 ?bs = drop 4 (drop 24 ?bs)" by simp_all
  then have "take 2 (drop 26 ?bs) = be_bytes 2 (ip_port addr XOR 0x2112)"
    and "take 4 (drop 28 ?bs) = le_bytes 4 (ip_s_addr addr XOR HostToNetwork32 k_stun_magic_cookie)"
    unfolding v by (simp_all add: xor_address_value_def)
  ultimately show ?thesis
    using parse_response [OF assms(1,2)] validate_response [OF assms(1,2,5)] length_bind_response [OF assms(1,2)]
    by (intro exI [of _ wr] exI [of _ ?bs] exI [of _ ?p])
      (simp add: response_packet_def le_word_le_bytes)
qed

definition ip_address_of :: "u16 \<Rightarrow> u32 \<Rightarrow> IpAddress" where
  "ip_address_of port addr = \<lparr>ip_port = port, ip_s_addr = addr, ip_text = []\<rparr>"

definition overlong_username :: bytes where
  "overlong_username =
     [0, 1, 0, 8, 0x21, 0x12, 0xA4, 0x42, 1, 2, 3, 4, 5, 6, 7, 8, 9, 10, 11, 12, 0, 6, 1, 0, 97, 58, 98, 0]"

definition sample_sp :: StunPacket where
  "sample_sp =
     add_attribute (StunAttributeXorAddress STUN_XOR_MAPPED_ADDRESS 8 \<lparr>ip_port = 5000, ip_s_addr = 7, ip_text = []\<rparr> 1)
       \<lparr>hdr = \<lparr>msg_type = 0x0101, hdr_prefix = 0, msg_len = 0, msg_cookie = k_stun_magic_cookie,
               trans_id = replicate 12 9\<rparr>,
        cls = 0, stun_method = 0, attris = []\<rparr>"

lemma bind_response_accepted_witness:
  "\<exists>wr bs p. serialize_bind_response sample_evp sample_sp ''pw'' ByteBufferWriter = ok wr \<and> holds wr bs \<and>
    length bs = 64 \<and> parse bs = ok (Some p) \<and> cls p = 2 \<and> stun_method p = 1 \<and>
    trans_id (hdr p) = replicate 12 9 \<and>
    validate sample_evp \<lparr>ice_mode = [], ufrag = [], passwd = ''pw''\<rparr> p bs = ok (True, bs)"
  using bind_response_accepted [OF sample_evp_documented, of sample_sp
      "\<lparr>ip_port = 5000, ip_s_addr = 7, ip_text = []\<rparr>" 1 "\<lparr>ice_mode = [], ufrag = [], passwd = ''pw''\<rparr>" "''pw''"]
  by (auto simp: sample_sp_def add_attribute_def get_attribute_def)

text \<open>
  C21: Reading back what a peer encodes: on a datagram of a 20-byte header and up to twenty
  attributes, each in type-length-value form with its padding, the attribute parser never reads
  behind the datagram and returns exactly the encoded attributes the server knows, in order,
  each MESSAGE-INTEGRITY with the offset it stands at. The last attribute must have a value.
\<close>

theorem parse_attri_reads_encoding:
  assumes "list_all tlv_ok ts" and "ts = [] \<or> snd (last ts) \<noteq> []" and "length ts \<le> 20" and "length h = 20"
  shows "parse_attri (h @ concat (map tlv ts)) = ok (tlv_attrs 20 ts)"
  by (rule parse_attri_tlv [OF assms])

lemma parse_attri_reads_encoding_witness:
  "parse_attri (replicate 20 0 @ concat (map tlv
      [(STUN_USERNAME, bytes_of_string ''srv:cli''), (STUN_PRIORITY, [0, 0, 1, 2])])) =
    ok [StunAttributeUsername STUN_USERNAME 7 ''srv'' ''cli'', StunAttributePriority STUN_PRIORITY 4 (Some 258)]"
proof -
  let ?ts = "[(STUN_USERNAME, bytes_of_string ''srv:cli''), (STUN_PRIORITY, [0, 0, 1, 2])]"
  have "tokens (CHR '':'') ''srv:cli'' = [''srv'', ''cli'']" by (simp add: tokens.simps)
  then have "tlv_attrs 20 ?ts =
      [StunAttributeUsername STUN_USERNAME 7 ''srv'' ''cli'', StunAttributePriority STUN_PRIORITY 4 (Some 258)]"
    by (simp add: stun_types be_word_def)
  moreover have "list_all tlv_ok ?ts" by (simp add: stun_types bytes_of_string_def)
  ultimately show ?thesis using parse_attri_reads_encoding [of ?ts "replicate 20 0"] by simp
qed

text \<open>
  C14: Corruption is detected: if a datagram with a FINGERPRINT attribute parses, then changing
  any single byte in front of that attribute makes the parser reject it.
\<close>

theorem parse_detects_corruption:
  assumes "parse data = ok (Some p)" and "be_word (take 2 (drop (length data - 8) data)) = STUN_FINGERPRINT"
    and "i < length data - 8" and "b \<noteq> data ! i"
  shows "parse (data[i := b]) = ok None"
proof -
  let ?n = "length data - 8" let ?f = "drop ?n data"
  have len: "8 \<le> length data" using parse_SomeD(2) [OF assms(1)] by simp
  from parse_SomeD(3) [OF assms(1)] have fp: "be_word (take 2 (drop 2 ?f)) = (4 :: u16)"
    "be_word (take 4 (drop 4 ?f)) = ComputeCrc32 (take ?n data) XOR STUN_FINGERPRINT_XOR_VALUE"
    using assms(2) len by (auto simp: validate_fingerprint_eq Let_def split: if_splits)
  have f: "drop ?n (data[i := b]) = ?f" using assms(3) by simp
  have "ComputeCrc32 (take ?n (data[i := b])) \<noteq> ComputeCrc32 (take ?n data)"
    using take_update_split [OF assms(3), of data b] crc32_byte_change [OF assms(4)] by simp
  then have "validate_fingerprint (data[i := b]) = ok False"
    using len fp assms(2) by (simp add: validate_fingerprint_eq Let_def f xor_cancel_right)
  then show ?thesis by (rule parse_None_fingerprint)
qed

lemma parse_detects_corruption_witness:
  "parse ((bind_response sample_evp (replicate 12 9) (ip_address_of 5000 7) 1 ''pw'')[9 := 1]) = ok None"
proof (rule parse_detects_corruption)
  let ?d = "bind_response sample_evp (replicate 12 9) (ip_address_of 5000 7) 1 ''pw''"
  show "parse ?d = ok (Some (response_packet sample_evp (replicate 12 9) (ip_address_of 5000 7) 1 ''pw''))"
    by (rule parse_response) (simp_all add: sample_evp_documented)
  have len: "length ?d = 64" by (simp add: length_bind_response sample_evp_documented)
  then show "9 < length ?d - 8" by simp
  show "be_word (take 2 (drop (length ?d - 8) ?d)) = STUN_FINGERPRINT"
    unfolding len by (simp add: bind_response_def response_covered_def length_response_mac sample_evp_documented)
  show "1 \<noteq> ?d ! 9"
    by (simp add: bind_response_message response_message_bytes nth_append)
qed

text \<open>
  C9: Authentication decides exactly what it should on every parsed packet whose integrity
  attributes carry a full MAC: \<^verbatim>\<open>validate\<close> succeeds if and only if every USERNAME names the
  server's fragment and every MESSAGE-INTEGRITY is the HMAC-SHA1 under the password of the bytes
  in front of it, with the length field set to end at it; on success the datagram is unchanged.
\<close>

theorem validate_decides_authenticity:
  assumes "evp_documented e" and "parse data = ok (Some p)" and "list_all mac_readable (attris p)"
  shows "\<exists>d. validate e param p data = ok (list_all (authentic e param data) (attris p), d) \<and>
    (list_all (authentic e param data) (attris p) \<longrightarrow> d = data)"
  using assms by (rule validate_parsed)

lemma validate_decides_authenticity_witness:
  "\<exists>d b. validate sample_evp \<lparr>ice_mode = [], ufrag = [], passwd = ''other''\<rparr>
      (response_packet sample_evp (replicate 12 9) (ip_address_of 5000 7) 1 ''pw'')
      (bind_response sample_evp (replicate 12 9) (ip_address_of 5000 7) 1 ''pw'') = ok (b, d)"
proof -
  let ?d = "bind_response sample_evp (replicate 12 9) (ip_address_of 5000 7) 1 ''pw''"
  let ?p = "response_packet sample_evp (replicate 12 9) (ip_address_of 5000 7) 1 ''pw''"
  have "parse ?d = ok (Some ?p)" by (rule parse_response) (simp_all add: sample_evp_documented)
  moreover have "list_all mac_readable (attris ?p)"
    by (simp add: response_packet_def mac_readable_def length_response_mac sample_evp_documented)
  ultimately show ?thesis
    using validate_decides_authenticity [OF sample_evp_documented, of ?d ?p] by blast
qed

lemmas parse_attri_loop_20 = parse_attri_loop.simps(2) [of 19, simplified]

lemmas stun_eval = parse_def is_stun_def stun_sizes magic_cookie_def load_header_def Let_def
  NetworkToHost16_def HostToNetwork16_def bswap_def be_word_def le_bytes_def upt_rec validate_fingerprint_eq
  stun_types read_2bytes_def parse_attri_def

text \<open>
  C35: A packet that carries neither a USERNAME nor a MESSAGE-INTEGRITY attribute passes
  \<^verbatim>\<open>validate\<close> for every ufrag and password: authentication is only as strong as the attributes
  the sender chooses to include.
\<close>

theorem validate_accepts_unauthenticated:
  assumes "\<forall>a \<in> set (attris p). at_type a \<noteq> STUN_USERNAME \<and> at_type a \<noteq> STUN_MESSAGE_INTEGRITY"
  shows "validate e param p data = ok (True, data)"
  using assms by (simp add: validate_def validate_loop_skips)

definition bare_request :: bytes where
  "bare_request = [0, 1, 0, 0, 0x21, 0x12, 0xA4, 0x42, 1, 2, 3, 4, 5, 6, 7, 8, 9, 10, 11, 12]"

lemma validate_accepts_unauthenticated_witness:
  "\<exists>p. parse bare_request = ok (Some p) \<and> attris p = [] \<and>
     validate sample_evp \<lparr>ice_mode = [], ufrag = ''u'', passwd = ''secret''\<rparr> p bare_request = ok (True, bare_request)"
proof -
  have "\<exists>p. parse bare_request = ok (Some p) \<and> attris p = []"
    by (simp add: bare_request_def stun_eval parse_attri_loop_20)
  then obtain p where "parse bare_request = ok (Some p)" "attris p = []" by blast
  with validate_accepts_unauthenticated [of p sample_evp "\<lparr>ice_mode = [], ufrag = ''u'', passwd = ''secret''\<rparr>" bare_request]
  show ?thesis by simp
qed



end
