(* ===== verification/Dtls.thy ===== *)
theory Dtls
  imports CryptoSuites Queues Stun
begin

text \<open>
  \<^verbatim>\<open>udp/rtc_dtls.{h,cpp}\<close>: the stream the DTLS adapter reads its datagrams from, and \<^verbatim>\<open>RtcDtls\<close>, which
  starts the handshake, feeds received datagrams to the adapter and hands out the SRTP keys.

  The adapter (\<^verbatim>\<open>rtc::SSLStreamAdapter\<close> over OpenSSL) is the parameter \<open>ops\<close>, a record of the calls
  the code makes, over an adapter state \<open>'a\<close> and the stream it owns. Its reaction to a readable
  stream is an interaction tree: it may write datagrams, emit signals and crash, and each signal
  runs \<^verbatim>\<open>slot_dtls_event\<close> at once, in the middle of the reaction, which then goes on with the state
  that leaves. It ends with the result of the
  call, 0 where the call has none. The theory \<open>SslStream\<close> models the adapter itself. Datagrams sent are returned as a list of payload and address.
\<close>

type_synonym sends = "(bytes \<times> IpAddress) list"

datatype StreamState = SS_CLOSED | SS_OPENING | SS_OPEN

datatype StreamResult = SR_ERROR | SR_SUCCESS | SR_BLOCK | SR_EOS

definition SE_OPEN :: nat where "SE_OPEN = 1"
definition SE_READ :: nat where "SE_READ = 2"
definition SE_WRITE :: nat where "SE_WRITE = 4"
definition SE_CLOSE :: nat where "SE_CLOSE = 8"

lemmas stream_events = SE_OPEN_def SE_READ_def SE_WRITE_def SE_CLOSE_def

section \<open>The stream\<close>

record DtlsStreamInterface =
  ds_que :: BufferQueue
  ds_state :: StreamState
  ds_remote_addr :: IpAddress
  ds_is_stop :: bool

definition DtlsStreamInterface_new :: "IpAddress \<Rightarrow> DtlsStreamInterface" where
  "DtlsStreamInterface_new addr =
     \<lparr>ds_que = BufferQueue_new 2048 2, ds_state = SS_OPEN, ds_remote_addr = addr, ds_is_stop = False\<rparr>"

definition ds_GetState :: "DtlsStreamInterface \<Rightarrow> StreamState" where
  "ds_GetState ds = ds_state ds"

definition ds_Read :: "nat \<Rightarrow> DtlsStreamInterface \<Rightarrow> StreamResult \<times> bytes \<times> DtlsStreamInterface" where
  "ds_Read buffer_len ds =
     (if ds_state ds = SS_CLOSED then (SR_EOS, [], ds)
      else if ds_state ds = SS_OPENING then (SR_BLOCK, [], ds)
      else
        (case ReadFront buffer_len (ds_que ds) of
           (None, _) \<Rightarrow> (SR_BLOCK, [], ds)
         | (Some bs, q) \<Rightarrow> (SR_SUCCESS, bs, ds\<lparr>ds_que := q\<rparr>)))"

text \<open>The call always reports success and the whole length as written.\<close>

definition ds_Write :: "bytes \<Rightarrow> DtlsStreamInterface \<Rightarrow> StreamResult \<times> nat \<times> sends" where
  "ds_Write data ds =
     (SR_SUCCESS, length data, if \<not> ds_is_stop ds then [(data, ds_remote_addr ds)] else [])"

definition stop_udp :: "DtlsStreamInterface \<Rightarrow> DtlsStreamInterface" where
  "stop_udp ds = ds\<lparr>ds_is_stop := True\<rparr>"

definition ds_Close :: "DtlsStreamInterface \<Rightarrow> DtlsStreamInterface" where
  "ds_Close ds = ds\<lparr>ds_state := SS_CLOSED, ds_que := bq_Clear (ds_que ds)\<rparr>"

section \<open>The adapter\<close>

type_synonym 'a adw = "'a \<times> DtlsStreamInterface"

datatype 'a react =
    Done int "'a adw"
  | Crash fault
  | Send bytes IpAddress "'a react"
  | Signal nat int "'a adw" "'a adw \<Rightarrow> 'a react"

record 'a adapter =
  ad_configure :: "'a \<Rightarrow> 'a"
  ad_SetPeerCertificateDigest :: "string \<Rightarrow> bytes \<Rightarrow> 'a \<Rightarrow> bool \<times> 'a"
  ad_SetDtlsSrtpCryptoSuites :: "int list \<Rightarrow> 'a \<Rightarrow> bool \<times> 'a"
  ad_StartSSL :: "'a adw \<Rightarrow> 'a react"
  ad_OnReadable :: "'a adw \<Rightarrow> 'a react"
  ad_Read :: "'a adw \<Rightarrow> (StreamResult \<times> 'a adw \<times> sends) res"
  ad_GetDtlsSrtpCryptoSuite :: "'a \<Rightarrow> int option res"
  ad_ExportKeyingMaterial :: "string \<Rightarrow> nat \<Rightarrow> 'a \<Rightarrow> bytes option res"

section \<open>RtcDtls\<close>

datatype DtlsTransportState = k_new | k_connecting | k_connected | k_closed | k_failed

record 'a RtcDtls =
  dt_remote_alg :: string
  dt_state :: DtlsTransportState
  dt_adapter :: "'a option"
  dt_downward :: DtlsStreamInterface
  dt_srtp_ciphers :: "int list"
  dt_remote_fingerprint_value :: bytes

definition k_dtls_record_header_len :: nat where "k_dtls_record_header_len = 13"

definition RtcDtls_new :: "'a \<Rightarrow> IpAddress \<Rightarrow> 'a RtcDtls res" where
  "RtcDtls_new a remote_addr =
     res_bind (GetSupportedDtlsSrtpCryptoSuites CryptoOptions_default) (\<lambda>ciphers.
       ok \<lparr>dt_remote_alg = [], dt_state = k_new, dt_adapter = Some a,
           dt_downward = DtlsStreamInterface_new remote_addr, dt_srtp_ciphers = ciphers,
           dt_remote_fingerprint_value = []\<rparr>)"

definition dt_destory :: "'a RtcDtls \<Rightarrow> 'a RtcDtls" where
  "dt_destory d = d\<lparr>dt_downward := stop_udp (dt_downward d)\<rparr>"

definition is_dtls :: "bytes \<Rightarrow> bool" where
  "is_dtls data = (length data \<ge> 13 \<and> (data ! 0 > 19 \<and> data ! 0 < 64))"

definition is_dtls_client_hello_packet :: "bytes \<Rightarrow> bool" where
  "is_dtls_client_hello_packet data =
     (if \<not> is_dtls data then False else length data > 17 \<and> (data ! 0 = 22 \<and> data ! 13 = 1))"

definition set_remote_dtls :: "string \<Rightarrow> bytes \<Rightarrow> 'a RtcDtls \<Rightarrow> 'a RtcDtls" where
  "set_remote_dtls alg digest d =
     (if dt_remote_fingerprint_value d = digest \<and> alg \<noteq> [] then d
      else d\<lparr>dt_remote_alg := alg, dt_remote_fingerprint_value := digest\<rparr>)"

text \<open>
  The suite is an output argument the caller has not initialised, and the result of the call that
  should set it is ignored. \<open>None\<close> is the result false.
\<close>

definition extract_srtp_keys :: "'a adapter \<Rightarrow> 'a RtcDtls \<Rightarrow> (int \<times> bytes \<times> bytes) option res" where
  "extract_srtp_keys ops d =
     (case dt_adapter d of
        None \<Rightarrow> ok None
      | Some a \<Rightarrow>
          res_bind (ad_GetDtlsSrtpCryptoSuite ops a) (\<lambda>suite.
            case suite of
              None \<Rightarrow> crash Uninitialised
            | Some cs \<Rightarrow>
                (case GetSrtpKeyAndSaltLengths cs of
                   None \<Rightarrow> ok None
                 | Some (key_len, salt_len) \<Rightarrow>
                     res_bind (ad_ExportKeyingMaterial ops ''EXTRACTOR-dtls_srtp'' (key_len * 2 + salt_len * 2) a) (\<lambda>material.
                       case material of
                         None \<Rightarrow> ok None
                       | Some results \<Rightarrow>
                           res_bind (substr results 0 key_len) (\<lambda>key1.
                           res_bind (substr results key_len key_len) (\<lambda>key2.
                           res_bind (substr results (key_len + key_len) salt_len) (\<lambda>salt1.
                           res_bind (substr_from results (key_len + key_len + salt_len)) (\<lambda>salt2.
                             ok (Some (cs, key2 @ salt2, key1 @ salt1))))))))))"

definition setup_dtls :: "'a adapter \<Rightarrow> 'a RtcDtls \<Rightarrow> bool \<times> 'a RtcDtls" where
  "setup_dtls ops d =
     (case dt_adapter d of
        None \<Rightarrow> (False, d)
      | Some a \<Rightarrow>
          let a1 = ad_configure ops a; d1 = d\<lparr>dt_adapter := Some a1\<rparr>
          in if length (dt_remote_fingerprint_value d) < 1 then (False, d1)
             else
               (case ad_SetPeerCertificateDigest ops (dt_remote_alg d) (dt_remote_fingerprint_value d) a1 of
                  (False, a2) \<Rightarrow> (False, d\<lparr>dt_adapter := Some a2\<rparr>)
                | (True, a2) \<Rightarrow>
                    if dt_srtp_ciphers d \<noteq> []
                    then (case ad_SetDtlsSrtpCryptoSuites ops (dt_srtp_ciphers d) a2 of
                            (good, a3) \<Rightarrow> (good, d\<lparr>dt_adapter := Some a3\<rparr>))
                    else (False, d\<lparr>dt_adapter := Some a2\<rparr>)))"

text \<open>
  The read loop of the event slot; it ends when the adapter has no more to read. Reading can send:
  the DTLS engine answers alerts and closes the connection while it reads.
\<close>

partial_function (option) read_loop ::
  "('a adw \<Rightarrow> (StreamResult \<times> 'a adw \<times> sends) res) \<Rightarrow> DtlsTransportState \<Rightarrow> 'a adw \<Rightarrow> sends \<Rightarrow>
   (DtlsTransportState \<times> 'a adw \<times> sends) res option" where
  "read_loop rd st w out =
     (case rd w of
        Inl e \<Rightarrow> Some (Inl e)
      | Inr (ret, w', o1) \<Rightarrow>
          let st' = (if ret = SR_EOS then k_closed else if ret = SR_ERROR then k_failed else st)
          in if ret = SR_SUCCESS then read_loop rd st' w' (out @ o1) else Some (Inr (st', w', out @ o1)))"

definition slot_dtls_event ::
  "'a adapter \<Rightarrow> nat \<Rightarrow> int \<Rightarrow> DtlsTransportState \<Rightarrow> 'a adw \<Rightarrow> (DtlsTransportState \<times> 'a adw \<times> sends) res" where
  "slot_dtls_event ops sig error st w =
     (let st1 = (if sig AND SE_OPEN \<noteq> 0 then k_connected else st);
          st2 = (if sig AND SE_CLOSE \<noteq> 0 then (if error = 0 then k_closed else k_failed) else st1)
      in if sig AND SE_READ \<noteq> 0
         then (case read_loop (ad_Read ops) st2 w [] of None \<Rightarrow> crash Diverges | Some r \<Rightarrow> r)
         else ok (st2, w, []))"

text \<open>What the engine sends goes through \<open>ds_Write\<close> of the stream, which has put its address on it.\<close>

primrec run_react ::
  "'a react \<Rightarrow> 'a adapter \<Rightarrow> DtlsTransportState \<Rightarrow> (int \<times> DtlsTransportState \<times> 'a adw \<times> sends) res" where
  "run_react (Done ret w) ops st = ok (ret, st, w, [])"
| "run_react (Crash e) ops st = crash e"
| "run_react (Send bs addr r) ops st =
     res_bind (run_react r ops st) (\<lambda>(ret, st', w, out). ok (ret, st', w, (bs, addr) # out))"
| "run_react (Signal sig error w k) ops st =
     res_bind (slot_dtls_event ops sig error st w) (\<lambda>(st', w', o1).
     res_bind (run_react (k w') ops st') (\<lambda>(ret, st'', w'', o2). ok (ret, st'', w'', o1 @ o2)))"

text \<open>\<^verbatim>\<open>on_packet_receive\<close>: the packet is queued and the adapter told, also when the queue was full.\<close>

definition on_packet_receive :: "'a adapter \<Rightarrow> bytes \<Rightarrow> 'a \<Rightarrow> 'a RtcDtls \<Rightarrow> (bool \<times> 'a RtcDtls \<times> sends) res" where
  "on_packet_receive ops data a d =
     (let ds = dt_downward d
      in if ds_is_stop ds then ok (False, d, [])
         else
           let (flag, q) = WriteBack data (ds_que ds); ds1 = ds\<lparr>ds_que := q\<rparr>
           in res_bind (run_react (ad_OnReadable ops (a, ds1)) ops (dt_state d)) (\<lambda>(_, st, w, out).
                ok (flag, d\<lparr>dt_state := st, dt_adapter := Some (fst w), dt_downward := snd w\<rparr>, out)))"

text \<open>The record walk of \<^verbatim>\<open>do_handle_dtls_packet\<close>: \<^verbatim>\<open>data\<close> moves, \<^verbatim>\<open>tmp_size\<close> is what is left.\<close>

function record_loop :: "bytes \<Rightarrow> bool" where
  "record_loop data =
     (if length data = 0 then True
      else if length data < k_dtls_record_header_len then False
      else
        let record_len = unat (data ! 11) * 256 + unat (data ! 12)
        in if record_len + k_dtls_record_header_len > length data then False
           else record_loop (drop (k_dtls_record_header_len + record_len) data))"
  by pat_completeness auto
termination by (relation "measure length") (auto simp: k_dtls_record_header_len_def)

declare record_loop.simps [simp del]

definition do_handle_dtls_packet :: "'a adapter \<Rightarrow> bytes \<Rightarrow> 'a \<Rightarrow> 'a RtcDtls \<Rightarrow> (bool \<times> 'a RtcDtls \<times> sends) res" where
  "do_handle_dtls_packet ops data a d =
     (if \<not> record_loop data then ok (False, d, []) else on_packet_receive ops data a d)"

definition handle_dtls :: "'a adapter \<Rightarrow> bytes \<Rightarrow> 'a RtcDtls \<Rightarrow> ('a RtcDtls \<times> sends) res" where
  "handle_dtls ops data d =
     res_bind
       (if dt_state d = k_new
        then res_bind (deref (dt_adapter d)) (\<lambda>a.
               res_bind (run_react (ad_StartSSL ops (a, dt_downward d)) ops k_new) (\<lambda>(ret, st, w, out).
                 ok (d\<lparr>dt_state := (if ret = 0 then k_connecting else st),
                       dt_adapter := Some (fst w), dt_downward := snd w\<rparr>, out)))
        else ok (d, []))
       (\<lambda>(d1, out1).
          if dt_state d1 = k_connecting then
            (if is_dtls_client_hello_packet data
             then res_bind (deref (dt_adapter d1)) (\<lambda>a.
                  res_bind (do_handle_dtls_packet ops data a d1) (\<lambda>(flag, d2, out2).
                    ok (if flag then d2\<lparr>dt_state := k_connected\<rparr> else d2, out1 @ out2)))
             else ok (d1, out1))
          else if dt_state d1 = k_connected then
            res_bind (deref (dt_adapter d1)) (\<lambda>a.
            res_bind (do_handle_dtls_packet ops data a d1) (\<lambda>(flag, d2, out2). ok (d2, out1 @ out2)))
          else ok (d1, out1))"

section \<open>References\<close>

text \<open>A DTLS record: thirteen header bytes, the last two the length of what follows.\<close>

definition dtls_record :: "bytes \<Rightarrow> bool" where
  "dtls_record r = (13 \<le> length r \<and> length r = 13 + unat (r ! 11) * 256 + unat (r ! 12))"

section \<open>Lemmas\<close>

lemma record_loop_Nil [simp]: "record_loop []"
  by (simp add: record_loop.simps)

lemma record_loop_record:
  assumes "dtls_record r"
  shows "record_loop (r @ rest) = record_loop rest"
  using assms
  by (subst record_loop.simps) (auto simp: dtls_record_def k_dtls_record_header_len_def nth_append Let_def)

lemma record_loop_concat: "list_all dtls_record rs \<Longrightarrow> record_loop (concat rs)"
  by (induction rs) (simp_all add: record_loop_record)

lemma record_loop_split:
  assumes "record_loop data" and "data \<noteq> []"
  shows "\<exists>r rest. data = r @ rest \<and> dtls_record r \<and> record_loop rest \<and> length rest < length data"
proof -
  let ?n = "13 + (unat (data ! 11) * 256 + unat (data ! 12))"
  have len: "13 \<le> length data" "?n \<le> length data" and rest: "record_loop (drop ?n data)"
    using assms by (subst (asm) record_loop.simps; auto simp: k_dtls_record_header_len_def Let_def split: if_splits)+
  have "dtls_record (take ?n data)" using len by (simp add: dtls_record_def)
  with rest len show ?thesis by (intro exI [of _ "take ?n data"] exI [of _ "drop ?n data"]) simp
qed

lemma record_loop_iff: "record_loop data \<longleftrightarrow> (\<exists>rs. data = concat rs \<and> list_all dtls_record rs)"
proof
  show "record_loop data \<Longrightarrow> \<exists>rs. data = concat rs \<and> list_all dtls_record rs"
  proof (induction "length data" arbitrary: data rule: less_induct)
    case less
    show ?case
    proof (cases "data = []")
      case True
      then show ?thesis by (intro exI [of _ "[]"]) simp
    next
      case False
      from record_loop_split [OF less.prems False] obtain r rest where
        r: "data = r @ rest" "dtls_record r" "record_loop rest" "length rest < length data" by blast
      from less.hyps [OF r(4,3)] obtain rs where "rest = concat rs" "list_all dtls_record rs" by blast
      with r show ?thesis by (intro exI [of _ "r # rs"]) simp
    qed
  qed
qed (auto simp: record_loop_concat)

lemma substr_within: "off \<le> length xs \<Longrightarrow> substr xs off n = ok (take n (drop off xs))"
  by (simp add: substr_def)

lemma substr_from_within: "off \<le> length xs \<Longrightarrow> substr_from xs off = ok (drop off xs)"
  by (simp add: substr_from_def)

lemma do_handle_reject: "\<not> record_loop data \<Longrightarrow> do_handle_dtls_packet ops data a d = ok (False, d, [])"
  by (simp add: do_handle_dtls_packet_def)

lemma ds_Write_stopped: "ds_is_stop ds \<Longrightarrow> snd (snd (ds_Write bs ds)) = []"
  by (simp add: ds_Write_def)

text \<open>A suite that has not been negotiated: the failure of \<^verbatim>\<open>GetDtlsSrtpCryptoSuite\<close> is ignored.\<close>

lemma extract_srtp_keys_uninitialised:
  assumes "dt_adapter d = Some a" and "ad_GetDtlsSrtpCryptoSuite ops a = ok None"
  shows "extract_srtp_keys ops d = crash Uninitialised"
  using assms by (simp add: extract_srtp_keys_def)

section \<open>The DTLS endpoint\<close>

text \<open>
  C28: The record check ends on every input and accepts a datagram exactly when it is a sequence
  of complete DTLS records; a datagram it rejects is dropped without any effect.
\<close>

theorem dtls_packet_check:
  "(record_loop data \<longleftrightarrow> (\<exists>rs. data = concat rs \<and> list_all dtls_record rs)) \<and>
   (if record_loop data then do_handle_dtls_packet ops data a d = on_packet_receive ops data a d
    else do_handle_dtls_packet ops data a d = ok (False, d, []))"
  using record_loop_iff by (auto simp: do_handle_dtls_packet_def)

text \<open>
  The server takes the right quarters of the exported keying material: with the material cut
  into client key, server key, client salt and server salt of the lengths of the negotiated
  suite, it sends under the server's key and salt and receives under the client's; both have the
  length of a master key, and no substring operation can fail.
\<close>

lemma extract_srtp_keys_partition:
  assumes "dt_adapter d = Some a" and "ad_GetDtlsSrtpCryptoSuite ops a = ok (Some cs)"
    and "GetSrtpKeyAndSaltLengths cs = Some (kl, sl)"
    and "ad_ExportKeyingMaterial ops ''EXTRACTOR-dtls_srtp'' (kl * 2 + sl * 2) a = ok (Some material)"
    and "length material = kl * 2 + sl * 2"
  shows "\<exists>client_key server_key client_salt server_salt.
    material = client_key @ server_key @ client_salt @ server_salt \<and>
    length client_key = kl \<and> length server_key = kl \<and> length client_salt = sl \<and> length server_salt = sl \<and>
    extract_srtp_keys ops d = ok (Some (cs, server_key @ server_salt, client_key @ client_salt))"
proof -
  let ?ck = "take kl material" and ?sk = "take kl (drop kl material)"
  let ?cs = "take sl (drop (kl + kl) material)" and ?ss = "drop (kl + kl + sl) material"
  have "material = ?ck @ drop kl material" by simp
  moreover have "drop kl material = ?sk @ drop (kl + kl) material"
    using append_take_drop_id [of kl "drop kl material"] by simp
  moreover have "drop (kl + kl) material = ?cs @ ?ss"
    using append_take_drop_id [of sl "drop (kl + kl) material"] by (simp add: add.commute)
  ultimately have m: "material = ?ck @ ?sk @ ?cs @ ?ss" by simp
  have "extract_srtp_keys ops d = ok (Some (cs, ?sk @ ?ss, ?ck @ ?cs))"
    using assms by (simp add: extract_srtp_keys_def substr_within substr_from_within)
  with m assms(5) show ?thesis
    by (intro exI [of _ ?ck] exI [of _ ?sk] exI [of _ ?cs] exI [of _ ?ss]) simp
qed

definition sample_adapter :: "nat adapter" where
  "sample_adapter =
     \<lparr>ad_configure = id, ad_SetPeerCertificateDigest = (\<lambda>_ _ a. (True, a)),
      ad_SetDtlsSrtpCryptoSuites = (\<lambda>_ a. (True, a)),
      ad_StartSSL = Done 0,
      ad_OnReadable = (\<lambda>w. Signal SE_CLOSE 1 w (Done 0)),
      ad_Read = (\<lambda>(n, ds). ok (if n = 0 then (SR_BLOCK, (n, ds), []) else (SR_SUCCESS, (n - 1, ds), []))),
      ad_GetDtlsSrtpCryptoSuite = (\<lambda>_. ok (Some kSrtpAes128CmSha1_80)),
      ad_ExportKeyingMaterial = (\<lambda>_ n _. ok (Some (map word_of_nat [0..<n])))\<rparr>"

definition sample_dtls :: "nat RtcDtls" where
  "sample_dtls =
     \<lparr>dt_remote_alg = ''sha-256'', dt_state = k_connecting, dt_adapter = Some 3,
      dt_downward = DtlsStreamInterface_new (ip_address_of 5000 7), dt_srtp_ciphers = [1],
      dt_remote_fingerprint_value = [1]\<rparr>"

lemma extract_srtp_keys_partition_witness:
  "\<exists>send_key recv_key. extract_srtp_keys sample_adapter sample_dtls = ok (Some (1, send_key, recv_key)) \<and>
     length send_key = 30 \<and> length recv_key = 30"
  using extract_srtp_keys_partition [of sample_dtls 3 sample_adapter 1 16 14 "map word_of_nat [0..<60]"]
  by (auto simp: sample_dtls_def sample_adapter_def suite_ids GetSrtpKeyAndSaltLengths_def)

text \<open>
  C15: A destroyed endpoint is silent: once \<^verbatim>\<open>destory\<close> has stopped its stream, a datagram that
  arrives in any state but the initial one changes nothing and makes it send nothing.
\<close>

theorem destory_silences:
  assumes "dt_adapter d = Some a" and "dt_state d \<noteq> k_new"
  shows "handle_dtls ops data (dt_destory d) = ok (dt_destory d, [])"
proof -
  have "do_handle_dtls_packet ops data b (dt_destory d) = ok (False, dt_destory d, [])" for b
    by (simp add: do_handle_dtls_packet_def on_packet_receive_def dt_destory_def stop_udp_def)
  with assms show ?thesis by (simp add: handle_dtls_def) (simp add: dt_destory_def)
qed

lemma destory_silences_witness:
  "handle_dtls sample_adapter [22, 1] (dt_destory sample_dtls) = ok (dt_destory sample_dtls, [])"
  by (rule destory_silences [of sample_dtls 3]) (simp_all add: sample_dtls_def)

section \<open>The read loop\<close>

text \<open>
  The read loop of the slot does not return exactly when there is an endless chain of successful
  reads. Which adapters have one is settled in \<open>SslStream\<close>.
\<close>

definition reads_forever :: "('a adw \<Rightarrow> (StreamResult \<times> 'a adw \<times> sends) res) \<Rightarrow> (nat \<Rightarrow> 'a adw) \<Rightarrow> bool" where
  "reads_forever rd f = (\<forall>n. \<exists>out. rd (f n) = ok (SR_SUCCESS, f (Suc n), out))"

lemma read_loop_step:
  "rd w = ok (SR_SUCCESS, w', o1) \<Longrightarrow> read_loop rd st w out = read_loop rd st w' (out @ o1)"
  by (subst read_loop.simps) (simp add: Let_def)

lemma read_loop_stuck:
  assumes "read_loop rd st w out = None"
  shows "\<exists>w' o1. rd w = ok (SR_SUCCESS, w', o1) \<and> read_loop rd st w' (out @ o1) = None"
  using assms by (subst (asm) read_loop.simps) (auto simp: Let_def split: sum.splits prod.splits if_splits)

lemma read_loop_forever:
  assumes "reads_forever rd f"
  shows "read_loop rd st (f n) out = None"
proof (rule ccontr)
  assume "read_loop rd st (f n) out \<noteq> None"
  then obtain r where r: "read_loop rd st (f n) out = Some r" by blast
  have "rd = rd \<longrightarrow> (\<forall>m. f n \<noteq> f m)"
  proof (rule read_loop.raw_induct [OF _ r, where P = "\<lambda>rd' st w out r. rd' = rd \<longrightarrow> (\<forall>m. w \<noteq> f m)"], intro impI allI notI)
    fix loop rd' st w out r m
    assume IH: "\<And>rd' st w out r. loop rd' st w out = Some r \<Longrightarrow> rd' = rd \<longrightarrow> (\<forall>m. w \<noteq> f m)"
      and body: "(case rd' w of
        Inl e \<Rightarrow> Some (Inl e)
      | Inr (ret, w', o1) \<Rightarrow>
          let st' = (if ret = SR_EOS then k_closed else if ret = SR_ERROR then k_failed else st)
          in if ret = SR_SUCCESS then loop rd' st' w' (out @ o1) else Some (Inr (st', w', out @ o1))) = Some r"
      and eq: "rd' = rd" "w = f m"
    from assms obtain o1 where "rd (f m) = ok (SR_SUCCESS, f (Suc m), o1)" by (auto simp: reads_forever_def)
    with body eq have "loop rd st (f (Suc m)) (out @ o1) = Some r" by simp
    from IH [OF this] show False by blast
  qed
  then show False by blast
qed

lemma read_loop_None_iff:
  "read_loop rd st w out = None \<longleftrightarrow> (\<exists>f. f 0 = w \<and> reads_forever rd f)"
proof
  assume none: "read_loop rd st w out = None"
  let ?P = "\<lambda>w. \<exists>out. read_loop rd st w out = None"
  have "\<exists>f. \<forall>n. (?P (f n) \<and> (n = 0 \<longrightarrow> f n = w)) \<and> (\<exists>o1. rd (f n) = ok (SR_SUCCESS, f (Suc n), o1))"
  proof (rule dependent_nat_choice)
    show "\<exists>x. ?P x \<and> ((0::nat) = 0 \<longrightarrow> x = w)" using none by blast
  next
    fix x and n :: nat assume "?P x \<and> (n = 0 \<longrightarrow> x = w)"
    then obtain out where "read_loop rd st x out = None" by blast
    from read_loop_stuck [OF this]
    show "\<exists>y. (?P y \<and> (Suc n = 0 \<longrightarrow> y = w)) \<and> (\<exists>o1. rd x = ok (SR_SUCCESS, y, o1))" by auto
  qed
  then obtain f where "\<forall>n. (?P (f n) \<and> (n = 0 \<longrightarrow> f n = w)) \<and> (\<exists>o1. rd (f n) = ok (SR_SUCCESS, f (Suc n), o1))" ..
  then show "\<exists>f. f 0 = w \<and> reads_forever rd f" by (auto simp: reads_forever_def)
next
  assume "\<exists>f. f 0 = w \<and> reads_forever rd f"
  then show "read_loop rd st w out = None" using read_loop_forever by metis
qed

text \<open>A slot whose loop is sure to end and does not crash returns.\<close>

lemma slot_returns:
  assumes "\<And>st out. \<exists>x. read_loop (ad_Read ops) st w out = Some (ok x)"
  shows "is_ok (slot_dtls_event ops sig error st w)"
proof -
  obtain x where "read_loop (ad_Read ops) (if sig AND SE_CLOSE \<noteq> 0 then (if error = 0 then k_closed else k_failed)
    else if sig AND SE_OPEN \<noteq> 0 then k_connected else st) w [] = Some (ok x)" using assms by blast
  then show ?thesis
    unfolding slot_dtls_event_def Let_def by (simp only: option.case is_ok_simps simp_thms split: if_split)
qed

lemma slot_close_error:
  "error \<noteq> 0 \<Longrightarrow> slot_dtls_event ops SE_CLOSE error st w = ok (k_failed, w, [])"
  unfolding slot_dtls_event_def Let_def stream_events by simp

lemma handle_hello:
  assumes "dt_adapter d = Some a" "dt_state d = k_connecting" "is_dtls_client_hello_packet data" "record_loop data"
    and "on_packet_receive ops data a d = ok (True, d', out)"
  shows "handle_dtls ops data d = ok (d'\<lparr>dt_state := k_connected\<rparr>, out)"
  unfolding handle_dtls_def do_handle_dtls_packet_def by (simp add: assms)

end
