(* ===== verification/Srtp.thy ===== *)
theory Srtp
  imports Dtls
begin

text \<open>
  \<^verbatim>\<open>udp/srtp_session.cpp\<close>, \<^verbatim>\<open>udp/srtp_transport.cpp\<close> and \<^verbatim>\<open>udp/rtc_stream_mgr.cpp\<close>: decrypting a media
  packet with the sender's session and encrypting it again for each subscriber.

  libsrtp is the parameter \<open>lib\<close>, a record of its calls over a context type \<open>'c\<close>; an error code
  other than zero is an error. Transports are shared objects: they live in a heap indexed by
  numbers, a subscriber map refers to them by index, and the sockets they send through are live
  or closed, so that sending through a closed one is the fault \<open>StalePointer\<close>. The iteration order of
  an \<^verbatim>\<open>unordered_map\<close> is the parameter \<open>iter\<close>, which may permute the entries.
\<close>

section \<open>libsrtp\<close>

record srtp_policy =
  pol_ssrc_type :: nat
  pol_suite :: int
  pol_key :: bytes

record 'c srtp_lib =
  lib_init :: int
  lib_install_event_handler :: int
  lib_policy_rtp :: "int \<Rightarrow> (nat \<times> nat) option"
  lib_policy_rtcp :: "int \<Rightarrow> (nat \<times> nat) option"
  lib_create :: "srtp_policy \<Rightarrow> int + 'c"
  lib_update :: "srtp_policy \<Rightarrow> 'c \<Rightarrow> int \<times> 'c"
  lib_unprotect :: "bytes \<Rightarrow> 'c \<Rightarrow> int \<times> bytes \<times> 'c"
  lib_unprotect_rtcp :: "bytes \<Rightarrow> 'c \<Rightarrow> int \<times> bytes \<times> 'c"
  lib_protect :: "bytes \<Rightarrow> 'c \<Rightarrow> int \<times> bytes \<times> 'c"
  lib_protect_rtcp :: "bytes \<Rightarrow> 'c \<Rightarrow> int \<times> bytes \<times> 'c"

definition ssrc_any_inbound :: nat where "ssrc_any_inbound = 2"
definition ssrc_any_outbound :: nat where "ssrc_any_outbound = 3"

section \<open>SrtpSession\<close>

record 'c SrtpSession =
  ss_srtp_session :: "'c option"
  ss_rtp_auth_tag_len :: nat
  ss_rtcp_auth_tag_len :: nat

definition SrtpSession_new :: "'c SrtpSession" where
  "SrtpSession_new = \<lparr>ss_srtp_session = None, ss_rtp_auth_tag_len = 0, ss_rtcp_auth_tag_len = 0\<rparr>"

definition set_key :: "'c srtp_lib \<Rightarrow> nat \<Rightarrow> int \<Rightarrow> bytes \<Rightarrow> 'c SrtpSession \<Rightarrow> bool \<times> 'c SrtpSession" where
  "set_key lib type cs key s =
     (case (lib_policy_rtp lib cs, lib_policy_rtcp lib cs) of
        (Some (key_len, rtp_tag), Some (_, rtcp_tag)) \<Rightarrow>
          if length key \<noteq> key_len then (False, s)
          else
            let policy = \<lparr>pol_ssrc_type = type, pol_suite = cs, pol_key = key\<rparr>
            in (case ss_srtp_session s of
                  None \<Rightarrow>
                    (case lib_create lib policy of
                       Inl _ \<Rightarrow> (False, s\<lparr>ss_srtp_session := None\<rparr>)
                     | Inr c \<Rightarrow>
                         (True, s\<lparr>ss_srtp_session := Some c, ss_rtp_auth_tag_len := rtp_tag,
                                  ss_rtcp_auth_tag_len := rtcp_tag\<rparr>))
                | Some c \<Rightarrow>
                    (case lib_update lib policy c of (err, c') \<Rightarrow>
                       if err \<noteq> 0 then (False, s\<lparr>ss_srtp_session := Some c'\<rparr>)
                       else (True, s\<lparr>ss_srtp_session := Some c', ss_rtp_auth_tag_len := rtp_tag,
                                     ss_rtcp_auth_tag_len := rtcp_tag\<rparr>)))
      | _ \<Rightarrow> (False, s))"

definition set_send :: "'c srtp_lib \<Rightarrow> int \<Rightarrow> bytes \<Rightarrow> 'c SrtpSession \<Rightarrow> bool \<times> 'c SrtpSession" where
  "set_send lib cs key s = set_key lib ssrc_any_outbound cs key s"

definition set_recv :: "'c srtp_lib \<Rightarrow> int \<Rightarrow> bytes \<Rightarrow> 'c SrtpSession \<Rightarrow> bool \<times> 'c SrtpSession" where
  "set_recv lib cs key s = set_key lib ssrc_any_inbound cs key s"

definition update_send :: "int \<Rightarrow> bytes \<Rightarrow> 'c SrtpSession \<Rightarrow> bool \<times> 'c SrtpSession" where
  "update_send cs key s = (False, s)"

definition update_recv :: "int \<Rightarrow> bytes \<Rightarrow> 'c SrtpSession \<Rightarrow> bool \<times> 'c SrtpSession" where
  "update_recv cs key s = (False, s)"

text \<open>The output arguments keep what the caller put there, zero, when there is no session.\<close>

definition ss_get_auth_tag_len :: "'c SrtpSession \<Rightarrow> nat \<times> nat" where
  "ss_get_auth_tag_len s =
     (case ss_srtp_session s of
        None \<Rightarrow> (0, 0)
      | Some _ \<Rightarrow> (ss_rtp_auth_tag_len s, ss_rtcp_auth_tag_len s))"

text \<open>Success, the output (as many bytes as \<^verbatim>\<open>*out_len\<close> says), and the session after the call.\<close>

definition unprotect_rtp :: "'c srtp_lib \<Rightarrow> bytes \<Rightarrow> 'c SrtpSession \<Rightarrow> bool \<times> bytes \<times> 'c SrtpSession" where
  "unprotect_rtp lib p s =
     (case ss_srtp_session s of
        None \<Rightarrow> (False, [], s)
      | Some c \<Rightarrow> (case lib_unprotect lib p c of (err, out, c') \<Rightarrow> (err = 0, out, s\<lparr>ss_srtp_session := Some c'\<rparr>)))"

definition unprotect_rtcp :: "'c srtp_lib \<Rightarrow> bytes \<Rightarrow> 'c SrtpSession \<Rightarrow> bool \<times> bytes \<times> 'c SrtpSession" where
  "unprotect_rtcp lib p s =
     (case ss_srtp_session s of
        None \<Rightarrow> (False, [], s)
      | Some c \<Rightarrow> (case lib_unprotect_rtcp lib p c of (err, out, c') \<Rightarrow> (err = 0, out, s\<lparr>ss_srtp_session := Some c'\<rparr>)))"

definition protect_rtp :: "'c srtp_lib \<Rightarrow> bytes \<Rightarrow> nat \<Rightarrow> 'c SrtpSession \<Rightarrow> bool \<times> bytes \<times> 'c SrtpSession" where
  "protect_rtp lib p max_len s =
     (case ss_srtp_session s of
        None \<Rightarrow> (False, p, s)
      | Some c \<Rightarrow>
          let need_len = length p + ss_rtp_auth_tag_len s
          in if max_len < need_len then (False, p, s)
             else (case lib_protect lib p c of (err, out, c') \<Rightarrow> (err = 0, out, s\<lparr>ss_srtp_session := Some c'\<rparr>)))"

definition protect_rtcp :: "'c srtp_lib \<Rightarrow> bytes \<Rightarrow> nat \<Rightarrow> 'c SrtpSession \<Rightarrow> bool \<times> bytes \<times> 'c SrtpSession" where
  "protect_rtcp lib p max_len s =
     (case ss_srtp_session s of
        None \<Rightarrow> (False, p, s)
      | Some c \<Rightarrow>
          let need_len = length p + ss_rtcp_auth_tag_len s + 4
          in if max_len < need_len then (False, p, s)
             else (case lib_protect_rtcp lib p c of (err, out, c') \<Rightarrow> (err = 0, out, s\<lparr>ss_srtp_session := Some c'\<rparr>)))"

section \<open>SrtpTransport\<close>

record 'c SrtpTransport =
  tr_subs_map :: "(string \<times> nat) list"
  tr_send_session :: "'c SrtpSession option"
  tr_recv_session :: "'c SrtpSession option"
  tr_udp :: nat
  tr_addr :: IpAddress

text \<open>The transports, the static flag \<^verbatim>\<open>_srtp_init\<close> and the open sockets.\<close>

record 'c srtp_world =
  heap :: "nat \<Rightarrow> 'c SrtpTransport option"
  srtp_inited :: bool
  udp_open :: "nat \<Rightarrow> bool"

definition SrtpTransport_new :: "nat \<Rightarrow> IpAddress \<Rightarrow> 'c SrtpTransport" where
  "SrtpTransport_new udp addr =
     \<lparr>tr_subs_map = [], tr_send_session = None, tr_recv_session = None, tr_udp = udp, tr_addr = addr\<rparr>"

definition put_tr :: "nat \<Rightarrow> 'c SrtpTransport \<Rightarrow> 'c srtp_world \<Rightarrow> 'c srtp_world" where
  "put_tr t tr w = w\<lparr>heap := (heap w)(t \<mapsto> tr)\<rparr>"

definition tr_add_subscriber :: "nat \<Rightarrow> string \<Rightarrow> nat \<Rightarrow> 'c srtp_world \<Rightarrow> 'c srtp_world res" where
  "tr_add_subscriber t uid sber w =
     res_bind (deref (heap w t)) (\<lambda>tr. ok (put_tr t (tr\<lparr>tr_subs_map := AList.update uid sber (tr_subs_map tr)\<rparr>) w))"

definition tr_remove_subscriber :: "nat \<Rightarrow> string \<Rightarrow> 'c srtp_world \<Rightarrow> 'c srtp_world res" where
  "tr_remove_subscriber t uid w =
     res_bind (deref (heap w t)) (\<lambda>tr. ok (put_tr t (tr\<lparr>tr_subs_map := AList.delete uid (tr_subs_map tr)\<rparr>) w))"

definition set_srtp_param ::
  "'c srtp_lib \<Rightarrow> nat \<Rightarrow> int \<Rightarrow> bytes \<Rightarrow> int \<Rightarrow> bytes \<Rightarrow> 'c srtp_world \<Rightarrow> (bool \<times> 'c srtp_world) res" where
  "set_srtp_param lib t send_cs send_key recv_cs recv_key w =
     (if \<not> srtp_inited w \<and> lib_init lib \<noteq> 0 then ok (False, w)
      else if \<not> srtp_inited w \<and> lib_install_event_handler lib \<noteq> 0 then ok (False, w\<lparr>srtp_inited := True\<rparr>)
      else
        let w1 = w\<lparr>srtp_inited := True\<rparr>
        in res_bind (deref (heap w1 t)) (\<lambda>tr.
             let ss = (case tr_send_session tr of None \<Rightarrow> SrtpSession_new | Some s \<Rightarrow> s);
                 rs = (case tr_recv_session tr of None \<Rightarrow> SrtpSession_new | Some s \<Rightarrow> s);
                 ss' = snd (set_send lib send_cs send_key ss);
                 rs' = snd (set_recv lib recv_cs recv_key rs)
             in ok (True, put_tr t (tr\<lparr>tr_send_session := Some ss', tr_recv_session := Some rs'\<rparr>) w1)))"

definition tr_reset :: "nat \<Rightarrow> 'c srtp_world \<Rightarrow> 'c srtp_world res" where
  "tr_reset t w =
     res_bind (deref (heap w t)) (\<lambda>tr. ok (put_tr t (tr\<lparr>tr_send_session := None, tr_recv_session := None\<rparr>) w))"

definition get_send_auth_tag_len :: "'c SrtpTransport \<Rightarrow> nat \<times> nat" where
  "get_send_auth_tag_len tr = (case tr_send_session tr of None \<Rightarrow> (0, 0) | Some s \<Rightarrow> ss_get_auth_tag_len s)"

text \<open>\<^verbatim>\<open>_udp->send2\<close> through the transport's socket.\<close>

definition tr_send :: "'c srtp_world \<Rightarrow> 'c SrtpTransport \<Rightarrow> bytes \<Rightarrow> sends res" where
  "tr_send w tr bs = (if udp_open w (tr_udp tr) then ok [(bs, tr_addr tr)] else crash StalePointer)"

definition on_rtp_packet :: "'c srtp_lib \<Rightarrow> bytes \<Rightarrow> nat \<Rightarrow> 'c srtp_world \<Rightarrow> ('c srtp_world \<times> sends) res" where
  "on_rtp_packet lib data t w =
     (if \<not> srtp_inited w then ok (w, [])
      else
        res_bind (deref (heap w t)) (\<lambda>tr.
        res_bind (deref (tr_send_session tr)) (\<lambda>s.
          let packet_capacity = max (length data) (length data + fst (get_send_auth_tag_len tr));
              (flag, out, s') = protect_rtp lib data packet_capacity s;
              w' = put_tr t (tr\<lparr>tr_send_session := Some s'\<rparr>) w
          in if flag then res_bind (tr_send w' tr out) (\<lambda>o1. ok (w', o1)) else ok (w', []))))"

definition on_rtcp_packet :: "'c srtp_lib \<Rightarrow> bytes \<Rightarrow> nat \<Rightarrow> 'c srtp_world \<Rightarrow> ('c srtp_world \<times> sends) res" where
  "on_rtcp_packet lib data t w =
     (if \<not> srtp_inited w then ok (w, [])
      else
        res_bind (deref (heap w t)) (\<lambda>tr.
        res_bind (deref (tr_send_session tr)) (\<lambda>s.
          let packet_capacity = max (length data) (length data + snd (get_send_auth_tag_len tr) + 4);
              (flag, out, s') = protect_rtcp lib data packet_capacity s;
              w' = put_tr t (tr\<lparr>tr_send_session := Some s'\<rparr>) w
          in if flag then res_bind (tr_send w' tr out) (\<lambda>o1. ok (w', o1)) else ok (w', []))))"

text \<open>The loop over the subscriber map.\<close>

fun subs_loop ::
  "(nat \<Rightarrow> 'c srtp_world \<Rightarrow> ('c srtp_world \<times> sends) res) \<Rightarrow> (string \<times> nat) list \<Rightarrow> 'c srtp_world \<Rightarrow> ('c srtp_world \<times> sends) res" where
  "subs_loop f [] w = ok (w, [])"
| "subs_loop f ((uid, t) # subs) w =
     res_bind (f t w) (\<lambda>(w1, o1). res_bind (subs_loop f subs w1) (\<lambda>(w2, o2). ok (w2, o1 @ o2)))"

definition handle_rtp_data ::
  "'c srtp_lib \<Rightarrow> ((string \<times> nat) list \<Rightarrow> (string \<times> nat) list) \<Rightarrow> bytes \<Rightarrow> nat \<Rightarrow> 'c srtp_world \<Rightarrow> ('c srtp_world \<times> sends) res" where
  "handle_rtp_data lib iter data t w =
     (if \<not> srtp_inited w then ok (w, [])
      else
        res_bind (deref (heap w t)) (\<lambda>tr.
        res_bind (deref (tr_recv_session tr)) (\<lambda>s.
          let (flag, out, s') = unprotect_rtp lib data s;
              w1 = put_tr t (tr\<lparr>tr_recv_session := Some s'\<rparr>) w
          in if length out > 0 \<and> flag then subs_loop (on_rtp_packet lib out) (iter (tr_subs_map tr)) w1
             else ok (w1, []))))"

definition handle_rtcp_data ::
  "'c srtp_lib \<Rightarrow> ((string \<times> nat) list \<Rightarrow> (string \<times> nat) list) \<Rightarrow> bytes \<Rightarrow> nat \<Rightarrow> 'c srtp_world \<Rightarrow> ('c srtp_world \<times> sends) res" where
  "handle_rtcp_data lib iter data t w =
     (if \<not> srtp_inited w then ok (w, [])
      else
        res_bind (deref (heap w t)) (\<lambda>tr.
        res_bind (deref (tr_recv_session tr)) (\<lambda>s.
          let (flag, out, s') = unprotect_rtcp lib data s;
              w1 = put_tr t (tr\<lparr>tr_recv_session := Some s'\<rparr>) w
          in if length out > 0 \<and> flag then subs_loop (on_rtcp_packet lib out) (iter (tr_subs_map tr)) w1
             else ok (w1, []))))"

section \<open>RtcStreamMgr\<close>

record RtcStreamMgr =
  sm_subs_map :: "(string \<times> string \<times> string) list"
  sm_streams :: "(string \<times> nat) list"

definition sm_add_subscriber :: "string \<Rightarrow> string \<Rightarrow> RtcStreamMgr \<Rightarrow> RtcStreamMgr" where
  "sm_add_subscriber uid target_uid m = m\<lparr>sm_subs_map := AList.update uid (target_uid, []) (sm_subs_map m)\<rparr>"

definition add_stream :: "string \<Rightarrow> nat \<Rightarrow> RtcStreamMgr \<Rightarrow> 'c srtp_world \<Rightarrow> (RtcStreamMgr \<times> 'c srtp_world) res" where
  "add_stream uid st m w =
     (let m1 = m\<lparr>sm_streams := AList.update uid st (sm_streams m)\<rparr>
      in case map_of (sm_subs_map m1) uid of
           None \<Rightarrow> ok (m1, w)
         | Some (target, _) \<Rightarrow>
             (case map_of (sm_streams m1) target of
                None \<Rightarrow> ok (m1, w)
              | Some sit \<Rightarrow>
                  res_bind (tr_add_subscriber sit uid st w) (\<lambda>w1.
                  res_bind (tr_add_subscriber st target sit w1) (\<lambda>w2. ok (m1, w2)))))"

definition sm_remove_subscriber :: "string \<Rightarrow> RtcStreamMgr \<Rightarrow> 'c srtp_world \<Rightarrow> (RtcStreamMgr \<times> 'c srtp_world) res" where
  "sm_remove_subscriber uid m w =
     (case map_of (sm_subs_map m) uid of
        None \<Rightarrow> ok (m, w)
      | Some (target, _) \<Rightarrow>
          res_bind
            (case map_of (sm_streams m) uid of
               None \<Rightarrow> ok w
             | Some st \<Rightarrow> tr_remove_subscriber st target w)
            (\<lambda>w1.
               case map_of (sm_streams m) target of
                 None \<Rightarrow> ok (m, w1)
               | Some st \<Rightarrow> res_bind (tr_remove_subscriber st uid w1) (\<lambda>w2. ok (m, w2))))"

section \<open>Forwarding\<close>

text \<open>
  A transport can send media: it exists, its send session has a libsrtp context and its socket is
  open. \<open>media_to\<close> is the datagram such a transport emits for a packet.
\<close>

definition send_ctx :: "'c srtp_world \<Rightarrow> nat \<Rightarrow> 'c option" where
  "send_ctx w t =
     Option.bind (heap w t) (\<lambda>tr. Option.bind (tr_send_session tr) ss_srtp_session)"

definition send_addr :: "'c srtp_world \<Rightarrow> nat \<Rightarrow> IpAddress option" where
  "send_addr w t =
     Option.bind (heap w t) (\<lambda>tr. if udp_open w (tr_udp tr) then Some (tr_addr tr) else None)"

definition can_send :: "'c srtp_world \<Rightarrow> nat \<Rightarrow> bool" where
  "can_send w t = (send_ctx w t \<noteq> None \<and> send_addr w t \<noteq> None)"

definition media_to :: "(bytes \<Rightarrow> 'c \<Rightarrow> int \<times> bytes \<times> 'c) \<Rightarrow> 'c srtp_world \<Rightarrow> bytes \<Rightarrow> nat \<Rightarrow> bytes \<times> IpAddress" where
  "media_to prot w data t = (fst (snd (prot data (the (send_ctx w t)))), the (send_addr w t))"

lemma put_tr_simps [simp]:
  "heap (put_tr t tr w) = (heap w)(t \<mapsto> tr)"
  "srtp_inited (put_tr t tr w) = srtp_inited w"
  "udp_open (put_tr t tr w) = udp_open w"
  by (simp_all add: put_tr_def)

lemma send_ctx_put_other [simp]: "t \<noteq> t' \<Longrightarrow> send_ctx (put_tr t tr w) t' = send_ctx w t'"
  by (simp add: send_ctx_def)

lemma send_addr_put_same:
  "heap w t = Some tr \<Longrightarrow> send_addr (put_tr t (tr\<lparr>tr_send_session := x\<rparr>) w) t' = send_addr w t'"
  "heap w t = Some tr \<Longrightarrow> send_addr (put_tr t (tr\<lparr>tr_recv_session := x\<rparr>) w) t' = send_addr w t'"
  by (simp_all add: send_addr_def)

lemma send_ctx_put_recv:
  "heap w t = Some tr \<Longrightarrow> send_ctx (put_tr t (tr\<lparr>tr_recv_session := x\<rparr>) w) t' = send_ctx w t'"
  by (simp add: send_ctx_def)

lemma can_sendE:
  assumes "can_send w t"
  obtains tr s c where "heap w t = Some tr" "tr_send_session tr = Some s" "ss_srtp_session s = Some c"
    "send_ctx w t = Some c" "udp_open w (tr_udp tr)" "send_addr w t = Some (tr_addr tr)"
  using assms by (auto simp: can_send_def send_ctx_def send_addr_def bind_eq_Some_conv split: if_splits)

text \<open>
  The contract of a subscriber's packet handler \<open>f\<close>: a transport that can send emits exactly its
  datagram, or nothing when encryption fails, and no other transport's context and no address
  changes. Both packet handlers meet it, so the loop over the subscribers is analysed once.
\<close>

definition ctx_advanced :: "'c srtp_world \<Rightarrow> nat \<Rightarrow> 'c \<Rightarrow> 'c srtp_world \<Rightarrow> bool" where
  "ctx_advanced w t c w' =
     (srtp_inited w' = srtp_inited w \<and> send_ctx w' = (send_ctx w)(t := Some c) \<and> send_addr w' = send_addr w)"

locale packet_handler =
  fixes prot :: "bytes \<Rightarrow> 'c \<Rightarrow> int \<times> bytes \<times> 'c"
    and f :: "bytes \<Rightarrow> nat \<Rightarrow> 'c srtp_world \<Rightarrow> ('c srtp_world \<times> sends) res"
  assumes delivers: "srtp_inited w \<Longrightarrow> can_send w t \<Longrightarrow> send_ctx w t = Some c \<Longrightarrow> prot data c = (err, out, c') \<Longrightarrow>
      \<exists>w'. f data t w = ok (w', if err = 0 then [(out, the (send_addr w t))] else []) \<and> ctx_advanced w t c' w'"
begin

lemma delivers_media:
  assumes "srtp_inited w" "can_send w t"
  obtains w' c' where
    "f data t w = ok (w', if fst (prot data (the (send_ctx w t))) = 0 then [media_to prot w data t] else [])"
    "ctx_advanced w t c' w'"
  using assms delivers [OF assms]
  by (cases "prot data (the (send_ctx w t))")
    (fastforce simp: media_to_def elim!: can_sendE)

text \<open>The loop serves every entry of the map, in the order of the iteration.\<close>

lemma subs_loop_serves:
  assumes "srtp_inited w" "\<forall>e \<in> set subs. can_send w (snd e)" "distinct (map snd subs)"
  shows "\<exists>w'. subs_loop (f data) subs w =
      ok (w', map (media_to prot w data) (filter (\<lambda>t. fst (prot data (the (send_ctx w t))) = 0) (map snd subs)))"
  using assms
proof (induction subs arbitrary: w)
  case Nil
  then show ?case by simp
next
  case (Cons e subs)
  obtain uid t where e: "e = (uid, t)" by (cases e)
  from Cons.prems e have "can_send w t" by simp
  then obtain w1 c' where
    step: "f data t w = ok (w1, if fst (prot data (the (send_ctx w t))) = 0 then [media_to prot w data t] else [])"
    and adv: "ctx_advanced w t c' w1"
    by (rule delivers_media [OF Cons.prems(1)])
  have same: "send_ctx w1 t' = send_ctx w t'" "send_addr w1 t' = send_addr w t'" if "t' \<in> snd ` set subs" for t'
    using that adv Cons.prems(3) e by (auto simp: ctx_advanced_def)
  then have cs: "\<forall>e \<in> set subs. can_send w1 (snd e)"
    using Cons.prems(2) by (simp add: can_send_def)
  have "srtp_inited w1" using adv Cons.prems(1) by (simp add: ctx_advanced_def)
  from Cons.IH [OF this cs] Cons.prems(3) obtain w2 where
    rest: "subs_loop (f data) subs w1 = ok (w2, map (media_to prot w1 data)
      (filter (\<lambda>t. fst (prot data (the (send_ctx w1 t))) = 0) (map snd subs)))" by auto
  have "map (media_to prot w1 data) (filter (\<lambda>t. fst (prot data (the (send_ctx w1 t))) = 0) (map snd subs)) =
        map (media_to prot w data) (filter (\<lambda>t. fst (prot data (the (send_ctx w t))) = 0) (map snd subs))"
    using same by (auto simp: media_to_def intro!: map_cong filter_cong)
  with step rest e show ?case by simp
qed

end

lemma session_advances:
  "heap w t = Some tr \<Longrightarrow> tr_send_session tr = Some s \<Longrightarrow>
   ctx_advanced w t c' (put_tr t (tr\<lparr>tr_send_session := Some (s\<lparr>ss_srtp_session := Some c'\<rparr>)\<rparr>) w)"
  by (auto simp: ctx_advanced_def send_ctx_def send_addr_def)

interpretation rtp_handler: packet_handler "lib_protect lib" "on_rtp_packet lib" for lib :: "'c srtp_lib"
proof
  fix w :: "'c srtp_world" and t c data err out c'
  assume i: "srtp_inited w" and cs: "can_send w t" and c: "send_ctx w t = Some c"
    and p: "lib_protect lib data c = (err, out, c')"
  from cs obtain tr s where h: "heap w t = Some tr" "tr_send_session tr = Some s" "ss_srtp_session s = Some c"
    "udp_open w (tr_udp tr)" "send_addr w t = Some (tr_addr tr)"
    using c by (elim can_sendE) simp
  have "protect_rtp lib data (length data + fst (get_send_auth_tag_len tr)) s = (err = 0, out, s\<lparr>ss_srtp_session := Some c'\<rparr>)"
    using h p by (simp add: protect_rtp_def get_send_auth_tag_len_def ss_get_auth_tag_len_def)
  with i h show "\<exists>w'. on_rtp_packet lib data t w = ok (w', if err = 0 then [(out, the (send_addr w t))] else []) \<and>
      ctx_advanced w t c' w'"
    by (auto simp: on_rtp_packet_def tr_send_def intro: session_advances)
qed

interpretation rtcp_handler: packet_handler "lib_protect_rtcp lib" "on_rtcp_packet lib" for lib :: "'c srtp_lib"
proof
  fix w :: "'c srtp_world" and t c data err out c'
  assume i: "srtp_inited w" and cs: "can_send w t" and c: "send_ctx w t = Some c"
    and p: "lib_protect_rtcp lib data c = (err, out, c')"
  from cs obtain tr s where h: "heap w t = Some tr" "tr_send_session tr = Some s" "ss_srtp_session s = Some c"
    "udp_open w (tr_udp tr)" "send_addr w t = Some (tr_addr tr)"
    using c by (elim can_sendE) simp
  have "protect_rtcp lib data (length data + snd (get_send_auth_tag_len tr) + 4) s = (err = 0, out, s\<lparr>ss_srtp_session := Some c'\<rparr>)"
    using h p by (simp add: protect_rtcp_def get_send_auth_tag_len_def ss_get_auth_tag_len_def)
  with i h show "\<exists>w'. on_rtcp_packet lib data t w = ok (w', if err = 0 then [(out, the (send_addr w t))] else []) \<and>
      ctx_advanced w t c' w'"
    by (auto simp: on_rtcp_packet_def tr_send_def intro: session_advances)
qed

section \<open>Sessions\<close>

lemma set_key_installs:
  assumes "lib_policy_rtp lib cs = Some (length key, rtp_tag)" "lib_policy_rtcp lib cs = Some (n, rtcp_tag)"
    and "lib_create lib \<lparr>pol_ssrc_type = type, pol_suite = cs, pol_key = key\<rparr> = Inr c" "ss_srtp_session s = None"
  shows "set_key lib type cs key s =
    (True, s\<lparr>ss_srtp_session := Some c, ss_rtp_auth_tag_len := rtp_tag, ss_rtcp_auth_tag_len := rtcp_tag\<rparr>)"
  using assms by (simp add: set_key_def)

lemma set_key_refuses_length:
  "lib_policy_rtp lib cs = Some (key_len, rtp_tag) \<Longrightarrow> length key \<noteq> key_len \<Longrightarrow>
   set_key lib type cs key s = (False, s)"
  by (auto simp: set_key_def split: option.splits)

text \<open>
  The references of the media plane: every transport a subscriber map or the stream table names is
  allocated, the maps have one entry per user, and a transport has both sessions or none.
\<close>

definition transport_ok :: "'c srtp_world \<Rightarrow> 'c SrtpTransport \<Rightarrow> bool" where
  "transport_ok w tr =
     (snd ` set (tr_subs_map tr) \<subseteq> dom (heap w) \<and> distinct (map fst (tr_subs_map tr)) \<and>
      (tr_send_session tr = None \<longleftrightarrow> tr_recv_session tr = None))"

definition media_ok :: "RtcStreamMgr \<Rightarrow> 'c srtp_world \<Rightarrow> bool" where
  "media_ok m w =
     (snd ` set (sm_streams m) \<subseteq> dom (heap w) \<and> distinct (map fst (sm_streams m)) \<and>
      distinct (map fst (sm_subs_map m)) \<and> (\<forall>tr \<in> ran (heap w). transport_ok w tr))"

text \<open>
  A step of the media plane is one call of the operations other components use, from any
  transport, in any order; a call that crashes is no step.
\<close>

inductive media_step ::
  "'c srtp_lib \<Rightarrow> ((string \<times> nat) list \<Rightarrow> (string \<times> nat) list) \<Rightarrow>
   RtcStreamMgr \<times> 'c srtp_world \<Rightarrow> RtcStreamMgr \<times> 'c srtp_world \<Rightarrow> bool"
  for lib iter where
  create: "heap w t = None \<Longrightarrow> media_step lib iter (m, w) (m, put_tr t (SrtpTransport_new udp addr) w)"
| subscribe: "media_step lib iter (m, w) (sm_add_subscriber uid target m, w)"
| stream: "t \<in> dom (heap w) \<Longrightarrow> add_stream uid t m w = ok (m', w') \<Longrightarrow> media_step lib iter (m, w) (m', w')"
| unsubscribe: "sm_remove_subscriber uid m w = ok (m', w') \<Longrightarrow> media_step lib iter (m, w) (m', w')"
| keys: "set_srtp_param lib t cs k cs' k' w = ok (b, w') \<Longrightarrow> media_step lib iter (m, w) (m, w')"
| reset: "tr_reset t w = ok w' \<Longrightarrow> media_step lib iter (m, w) (m, w')"
| rtp: "handle_rtp_data lib iter data t w = ok (w', sent) \<Longrightarrow> media_step lib iter (m, w) (m, w')"
| rtcp: "handle_rtcp_data lib iter data t w = ok (w', sent) \<Longrightarrow> media_step lib iter (m, w) (m, w')"
| close: "media_step lib iter (m, w) (m, w\<lparr>udp_open := (udp_open w)(u := False)\<rparr>)"
| bind: "media_step lib iter (m, w) (m, w\<lparr>udp_open := (udp_open w)(u := True)\<rparr>)"

definition RtcStreamMgr_new :: RtcStreamMgr where
  "RtcStreamMgr_new = \<lparr>sm_subs_map = [], sm_streams = []\<rparr>"

definition media_start :: "RtcStreamMgr \<times> 'c srtp_world" where
  "media_start = (RtcStreamMgr_new, \<lparr>heap = Map.empty, srtp_inited = False, udp_open = \<lambda>_. True\<rparr>)"

lemma transport_ok_dom:
  "transport_ok w tr \<Longrightarrow> dom (heap w) \<subseteq> dom (heap w') \<Longrightarrow> transport_ok w' tr"
  unfolding transport_ok_def by (meson order_trans)

lemma media_ok_put:
  assumes "media_ok m w" "transport_ok (put_tr t tr w) tr"
  shows "media_ok m (put_tr t tr w)"
proof -
  have d: "dom (heap w) \<subseteq> dom (heap (put_tr t tr w))" by auto
  have "transport_ok (put_tr t tr w) x" if "x \<in> ran (heap (put_tr t tr w))" for x
  proof (cases "x = tr")
    case False
    with that have "x \<in> ran (heap w)" by (auto simp: ran_def split: if_splits)
    with assms(1) d show ?thesis by (auto simp: media_ok_def intro: transport_ok_dom)
  qed (use assms in simp)
  with assms(1) d show ?thesis by (auto simp: media_ok_def)
qed

lemma media_ok_get: "media_ok m w \<Longrightarrow> heap w t = Some tr \<Longrightarrow> transport_ok w tr"
  by (auto simp: media_ok_def ran_def)

lemma media_ok_flags [simp]:
  "media_ok m (w\<lparr>srtp_inited := b\<rparr>) = media_ok m w" "media_ok m (w\<lparr>udp_open := u\<rparr>) = media_ok m w"
  by (simp_all add: media_ok_def transport_ok_def)

lemma alist_update_snd: "snd ` set (AList.update k v al) \<subseteq> insert v (snd ` set al)"
  by (induction al) auto

lemma alist_update_in: "x \<in> set (AList.update k v al) \<Longrightarrow> x = (k, v) \<or> x \<in> set al"
  by (induction al) (auto split: if_splits)

lemma alist_delete_snd: "snd ` set (AList.delete k al) \<subseteq> snd ` set al"
  by (auto simp: AList.delete_eq)

lemma put_same_session:
  assumes "media_ok m w" "heap w t = Some tr"
    and "tr_subs_map tr' = tr_subs_map tr" "tr_send_session tr' = None \<longleftrightarrow> tr_recv_session tr' = None"
  shows "media_ok m (put_tr t tr' w)"
  using assms media_ok_get [OF assms(1,2)] by (intro media_ok_put) (auto simp: transport_ok_def)

lemma tr_add_subscriber_ok:
  assumes "media_ok m w" "sber \<in> dom (heap w)" "tr_add_subscriber t uid sber w = ok w'"
  shows "media_ok m w' \<and> dom (heap w') = dom (heap w)"
proof -
  from assms(3) obtain tr where h: "heap w t = Some tr"
    and w': "w' = put_tr t (tr\<lparr>tr_subs_map := AList.update uid sber (tr_subs_map tr)\<rparr>) w"
    by (cases "heap w t") (auto simp: tr_add_subscriber_def)
  have "snd ` set (AList.update uid sber (tr_subs_map tr)) \<subseteq> dom (heap w)"
    using alist_update_snd [of uid sber "tr_subs_map tr"] media_ok_get [OF assms(1) h] assms(2)
    unfolding transport_ok_def by blast
  then have "media_ok m w'" using media_ok_get [OF assms(1) h] assms(1)
    unfolding w' by (intro media_ok_put) (auto simp: transport_ok_def distinct_update)
  with h w' show ?thesis by auto
qed

lemma tr_remove_subscriber_ok:
  assumes "media_ok m w" "tr_remove_subscriber t uid w = ok w'"
  shows "media_ok m w'"
proof -
  from assms(2) obtain tr where h: "heap w t = Some tr"
    and w': "w' = put_tr t (tr\<lparr>tr_subs_map := AList.delete uid (tr_subs_map tr)\<rparr>) w"
    by (cases "heap w t") (auto simp: tr_remove_subscriber_def)
  have "snd ` set (AList.delete uid (tr_subs_map tr)) \<subseteq> dom (heap w)"
    using alist_delete_snd [of uid "tr_subs_map tr"] media_ok_get [OF assms(1) h]
    unfolding transport_ok_def by blast
  then show ?thesis using media_ok_get [OF assms(1) h] assms(1)
    unfolding w' by (intro media_ok_put) (auto simp: transport_ok_def distinct_delete)
qed

lemma put_send_session:
  assumes "media_ok m w" "heap w t = Some tr" "tr_send_session tr = Some s"
  shows "media_ok m (put_tr t (tr\<lparr>tr_send_session := Some s'\<rparr>) w)"
  using assms media_ok_get [OF assms(1,2)]
  by (intro put_same_session [OF assms(1,2)]) (auto simp: transport_ok_def)

lemma put_recv_session:
  assumes "media_ok m w" "heap w t = Some tr" "tr_recv_session tr = Some s"
  shows "media_ok m (put_tr t (tr\<lparr>tr_recv_session := Some s'\<rparr>) w)"
  using assms media_ok_get [OF assms(1,2)]
  by (intro put_same_session [OF assms(1,2)]) (auto simp: transport_ok_def)

lemma deref_eq_ok [res_simps]: "deref p = Inr x \<longleftrightarrow> p = Some x"
  by (cases p) auto

lemma on_rtp_packet_ok: "media_ok m w \<Longrightarrow> on_rtp_packet lib data t w = ok (w', sent) \<Longrightarrow> media_ok m w'"
  by (auto simp: on_rtp_packet_def res_simps Let_def case_prod_beta split: if_splits intro: put_send_session)

lemma on_rtcp_packet_ok: "media_ok m w \<Longrightarrow> on_rtcp_packet lib data t w = ok (w', sent) \<Longrightarrow> media_ok m w'"
  by (auto simp: on_rtcp_packet_def res_simps Let_def case_prod_beta split: if_splits intro: put_send_session)

lemma subs_loop_ok:
  assumes f: "\<And>t w w' sent. media_ok m w \<Longrightarrow> f t w = ok (w', sent) \<Longrightarrow> media_ok m w'"
  shows "subs_loop f subs w = ok (w', sent) \<Longrightarrow> media_ok m w \<Longrightarrow> media_ok m w'"
proof (induction subs arbitrary: w sent)
  case (Cons e subs)
  obtain uid t where e: "e = (uid, t)" by (cases e)
  with Cons.prems(1) obtain w1 o1 o2 where "f t w = ok (w1, o1)" and "subs_loop f subs w1 = ok (w', o2)"
    by (auto simp: res_simps split: prod.split_asm)
  with Cons.IH Cons.prems(2) f show ?case by blast
qed simp

lemma handle_rtp_data_ok: "media_ok m w \<Longrightarrow> handle_rtp_data lib iter data t w = ok (w', sent) \<Longrightarrow> media_ok m w'"
  by (auto simp: handle_rtp_data_def res_simps Let_def case_prod_beta split: if_splits
      intro: put_recv_session subs_loop_ok [OF on_rtp_packet_ok])

lemma handle_rtcp_data_ok: "media_ok m w \<Longrightarrow> handle_rtcp_data lib iter data t w = ok (w', sent) \<Longrightarrow> media_ok m w'"
  by (auto simp: handle_rtcp_data_def res_simps Let_def case_prod_beta split: if_splits
      intro: put_recv_session subs_loop_ok [OF on_rtcp_packet_ok])

lemma set_srtp_param_ok:
  "media_ok m w \<Longrightarrow> set_srtp_param lib t cs k cs' k' w = ok (b, w') \<Longrightarrow> media_ok m w'"
  by (auto simp: set_srtp_param_def res_simps Let_def split: if_splits intro!: put_same_session)

lemma tr_reset_ok: "media_ok m w \<Longrightarrow> tr_reset t w = ok w' \<Longrightarrow> media_ok m w'"
  by (auto simp: tr_reset_def res_simps intro!: put_same_session)

definition with_stream :: "string \<Rightarrow> nat \<Rightarrow> RtcStreamMgr \<Rightarrow> RtcStreamMgr" where
  "with_stream uid t m = m\<lparr>sm_streams := AList.update uid t (sm_streams m)\<rparr>"

lemma add_stream_cases:
  assumes "add_stream uid t m w = ok (m', w')"
  shows "m' = with_stream uid t m \<and>
    (w' = w \<or> (\<exists>target sit w1. map_of (sm_streams m') target = Some sit \<and>
       tr_add_subscriber sit uid t w = ok w1 \<and> tr_add_subscriber t target sit w1 = ok w'))"
proof (cases "map_of (sm_subs_map m) uid")
  case None
  with assms show ?thesis by (simp add: add_stream_def with_stream_def)
next
  case (Some p)
  obtain target x where p: "p = (target, x)" by (cases p)
  show ?thesis
  proof (cases "map_of (sm_streams (with_stream uid t m)) target")
    case None
    with assms Some p show ?thesis by (simp add: add_stream_def with_stream_def)
  next
    case (Some sit)
    with assms p \<open>map_of (sm_subs_map m) uid = Some p\<close> obtain w1 where
      "tr_add_subscriber sit uid t w = ok w1" "tr_add_subscriber t target sit w1 = ok w'"
      "m' = with_stream uid t m"
      by (auto simp: add_stream_def with_stream_def res_simps simp del: map_of_update)
    with Some show ?thesis by auto
  qed
qed

lemma with_stream_ok:
  assumes "media_ok m w" "t \<in> dom (heap w)" shows "media_ok (with_stream uid t m) w"
  using assms alist_update_snd [of uid t "sm_streams m"]
  by (auto simp: media_ok_def with_stream_def distinct_update)

lemma add_stream_ok:
  assumes "media_ok m w" "t \<in> dom (heap w)" "add_stream uid t m w = ok (m', w')"
  shows "media_ok m' w'"
proof -
  note m1 = with_stream_ok [OF assms(1,2), of uid]
  note c = add_stream_cases [OF assms(3)]
  from c consider "m' = with_stream uid t m" "w' = w" |
      target sit w1 where "m' = with_stream uid t m" "map_of (sm_streams m') target = Some sit"
      "tr_add_subscriber sit uid t w = ok w1" "tr_add_subscriber t target sit w1 = ok w'" by blast
  then show ?thesis
  proof cases
    case 2
    then have "sit \<in> snd ` set (sm_streams (with_stream uid t m))" by (force dest: map_of_SomeD)
    then have "sit \<in> dom (heap w)" using m1 unfolding media_ok_def by blast
    with tr_add_subscriber_ok [OF m1 assms(2) 2(3)] tr_add_subscriber_ok [OF _ _ 2(4)] 2(1)
    show ?thesis by simp
  qed (use m1 in simp)
qed

lemma sm_remove_subscriber_ok:
  "media_ok m w \<Longrightarrow> sm_remove_subscriber uid m w = ok (m', w') \<Longrightarrow> media_ok m' w'"
  by (auto simp: sm_remove_subscriber_def res_simps split: option.splits)
    (blast intro: tr_remove_subscriber_ok)+

lemma media_ok_new: "media_ok m w \<Longrightarrow> media_ok m (put_tr t (SrtpTransport_new udp addr) w)"
  by (rule media_ok_put) (auto simp: transport_ok_def SrtpTransport_new_def)

lemma media_step_ok:
  "media_step lib iter s s' \<Longrightarrow> media_ok (fst s) (snd s) \<Longrightarrow> media_ok (fst s') (snd s')"
proof (induction rule: media_step.induct)
  case (subscribe m w uid target)
  then show ?case by (auto simp: media_ok_def sm_add_subscriber_def distinct_update)
qed (auto intro: media_ok_new add_stream_ok sm_remove_subscriber_ok set_srtp_param_ok tr_reset_ok
    handle_rtp_data_ok handle_rtcp_data_ok)

text \<open>Transports are never freed while the media plane runs: every operation keeps those there are and
  allocates finitely many.\<close>

definition grows :: "'c srtp_world \<Rightarrow> 'c srtp_world \<Rightarrow> bool" where
  "grows w w' = (dom (heap w) \<subseteq> dom (heap w') \<and> (finite (dom (heap w)) \<longrightarrow> finite (dom (heap w'))))"

lemma grows_refl [simp]: "grows w w" "grows w (w\<lparr>udp_open := f\<rparr>)" "grows w (w\<lparr>srtp_inited := b\<rparr>)"
  by (simp_all add: grows_def)

lemma grows_put [simp]: "grows w (put_tr t tr w)"
  by (auto simp: grows_def)

lemma grows_trans: "grows w w1 \<Longrightarrow> grows w1 w2 \<Longrightarrow> grows w w2"
  by (auto simp: grows_def)

lemma subscriber_grows:
  "tr_add_subscriber t uid sber w = ok w' \<Longrightarrow> grows w w'" "tr_remove_subscriber t uid w = ok w' \<Longrightarrow> grows w w'"
  by (auto simp: tr_add_subscriber_def tr_remove_subscriber_def res_simps)

lemma packet_grows:
  "on_rtp_packet lib data t w = ok (w', out) \<Longrightarrow> grows w w'" "on_rtcp_packet lib data t w = ok (w', out) \<Longrightarrow> grows w w'"
  by (auto simp: on_rtp_packet_def on_rtcp_packet_def res_simps prod.case_eq_if Let_def split: if_splits)

lemma subs_loop_grows:
  assumes "\<And>t w w' out. f t w = ok (w', out) \<Longrightarrow> grows w w'"
  shows "subs_loop f subs w = ok (w', out) \<Longrightarrow> grows w w'"
proof (induction subs arbitrary: w out)
  case (Cons e subs)
  obtain uid t where e: "e = (uid, t)" by (cases e)
  with Cons.prems obtain w1 o1 o2 where "f t w = ok (w1, o1)" and "subs_loop f subs w1 = ok (w', o2)"
    by (auto simp: res_simps split: prod.split_asm)
  with Cons.IH assms show ?case by (blast intro: grows_trans)
qed simp

lemma handle_grows:
  "handle_rtp_data lib iter data t w = ok (w', out) \<Longrightarrow> grows w w'"
  "handle_rtcp_data lib iter data t w = ok (w', out) \<Longrightarrow> grows w w'"
  by (auto simp: handle_rtp_data_def handle_rtcp_data_def res_simps prod.case_eq_if Let_def split: if_splits
      dest!: subs_loop_grows [rotated] intro: packet_grows grows_trans [OF grows_put])

lemma set_srtp_param_grows: "set_srtp_param lib t cs k cs' k' w = ok (b, w') \<Longrightarrow> grows w w'"
  by (auto simp: set_srtp_param_def res_simps Let_def grows_def split: if_splits)

lemma media_step_grows: "media_step lib iter s s' \<Longrightarrow> grows (snd s) (snd s')"
proof (induction rule: media_step.induct)
  case (stream t w uid m m' w')
  with add_stream_cases [OF stream(2)] show ?case by (auto intro: subscriber_grows grows_trans)
next
  case (unsubscribe uid m w m' w')
  then show ?case
    by (auto simp: sm_remove_subscriber_def res_simps split: option.splits) (meson subscriber_grows grows_trans)+
qed (auto simp: tr_reset_def res_simps intro: set_srtp_param_grows handle_grows)

lemma media_steps_grow: "(media_step lib iter)\<^sup>*\<^sup>* s s' \<Longrightarrow> grows (snd s) (snd s')"
  by (induction rule: rtranclp_induct) (auto intro: media_step_grows grows_trans)

section \<open>Subscriptions\<close>

text \<open>Who transport \<open>t\<close> forwards the media of its peer to, by user.\<close>

definition subs_of :: "'c srtp_world \<Rightarrow> nat \<Rightarrow> string \<Rightarrow> nat option" where
  "subs_of w t u = Option.bind (heap w t) (\<lambda>tr. map_of (tr_subs_map tr) u)"

lemma tr_add_subscriber_subs:
  "t \<in> dom (heap w) \<Longrightarrow> \<exists>w'. tr_add_subscriber t uid sber w = ok w' \<and> dom (heap w') = dom (heap w) \<and>
     (\<forall>t' u. subs_of w' t' u = (if t' = t \<and> u = uid then Some sber else subs_of w t' u))"
  by (auto simp: tr_add_subscriber_def subs_of_def)

lemma tr_remove_subscriber_subs:
  "t \<in> dom (heap w) \<Longrightarrow> \<exists>w'. tr_remove_subscriber t uid w = ok w' \<and> dom (heap w') = dom (heap w) \<and>
     (\<forall>t' u. subs_of w' t' u = (if t' = t \<and> u = uid then None else subs_of w t' u))"
  by (auto simp: tr_remove_subscriber_def subs_of_def)

lemma media_ok_stream: "media_ok m w \<Longrightarrow> map_of (sm_streams m) u = Some t \<Longrightarrow> t \<in> dom (heap w)"
  unfolding media_ok_def by (force dest: map_of_SomeD)

lemma add_stream_links:
  assumes "media_ok m w" "st \<in> dom (heap w)" "map_of (sm_subs_map m) uid = Some (target, x)"
    and "map_of (sm_streams (with_stream uid st m)) target = Some sit"
  shows "\<exists>w'. add_stream uid st m w = ok (with_stream uid st m, w') \<and> dom (heap w') = dom (heap w) \<and>
    (\<forall>t u. subs_of w' t u =
       (if t = st \<and> u = target then Some sit else if t = sit \<and> u = uid then Some st else subs_of w t u))"
proof -
  have sit: "sit \<in> dom (heap w)"
    by (rule media_ok_stream [OF with_stream_ok [OF assms(1,2)] assms(4)])
  obtain w1 where w1: "tr_add_subscriber sit uid st w = ok w1" "dom (heap w1) = dom (heap w)"
    "\<forall>t' u. subs_of w1 t' u = (if t' = sit \<and> u = uid then Some st else subs_of w t' u)"
    using tr_add_subscriber_subs [OF sit] by blast
  obtain w2 where w2: "tr_add_subscriber st target sit w1 = ok w2" "dom (heap w2) = dom (heap w1)"
    "\<forall>t' u. subs_of w2 t' u = (if t' = st \<and> u = target then Some sit else subs_of w1 t' u)"
    using tr_add_subscriber_subs [of st w1] assms(2) w1(2) by blast
  have "add_stream uid st m w = ok (with_stream uid st m, w2)"
    using assms(3,4) w1(1) w2(1) by (simp add: add_stream_def with_stream_def del: map_of_update)
  with w1 w2 show ?thesis by auto
qed

lemma sm_remove_unlinks:
  assumes "media_ok m w" "map_of (sm_subs_map m) uid = Some (target, x)"
    and "map_of (sm_streams m) uid = Some st" "map_of (sm_streams m) target = Some sit"
  shows "\<exists>w'. sm_remove_subscriber uid m w = ok (m, w') \<and>
    (\<forall>t u. subs_of w' t u = (if t = st \<and> u = target \<or> t = sit \<and> u = uid then None else subs_of w t u))"
proof -
  note d = media_ok_stream [OF assms(1,3)] media_ok_stream [OF assms(1,4)]
  obtain w1 where w1: "tr_remove_subscriber st target w = ok w1" "dom (heap w1) = dom (heap w)"
    "\<forall>t' u. subs_of w1 t' u = (if t' = st \<and> u = target then None else subs_of w t' u)"
    using tr_remove_subscriber_subs [OF d(1)] by blast
  obtain w2 where w2: "tr_remove_subscriber sit uid w1 = ok w2"
    "\<forall>t' u. subs_of w2 t' u = (if t' = sit \<and> u = uid then None else subs_of w1 t' u)"
    using tr_remove_subscriber_subs [of sit w1] d(2) w1(2) by blast
  have "sm_remove_subscriber uid m w = ok (m, w2)"
    using assms(2-4) w1(1) w2(1) by (simp add: sm_remove_subscriber_def)
  with w1 w2 show ?thesis by auto
qed

lemma add_stream_never_crashes:
  assumes "media_ok m w" "t \<in> dom (heap w)" shows "is_ok (add_stream uid t m w)"
proof (cases "\<exists>target x sit. map_of (sm_subs_map m) uid = Some (target, x) \<and>
    map_of (sm_streams (with_stream uid t m)) target = Some sit")
  case True
  then obtain target x sit where "map_of (sm_subs_map m) uid = Some (target, x)"
    "map_of (sm_streams (with_stream uid t m)) target = Some sit" by blast
  from add_stream_links [OF assms this] show ?thesis by (auto simp: is_ok_iff)
next
  case False
  then show ?thesis
    by (cases "map_of (sm_subs_map m) uid")
      (auto simp: add_stream_def with_stream_def is_ok_iff simp del: map_of_update split: option.split)
qed

lemma sm_remove_never_crashes:
  assumes "media_ok m w" shows "is_ok (sm_remove_subscriber uid m w)"
proof (cases "map_of (sm_subs_map m) uid")
  case None
  then show ?thesis by (simp add: sm_remove_subscriber_def)
next
  case (Some p)
  obtain target x where p: "p = (target, x)" by (cases p)
  have r: "\<exists>w'. tr_remove_subscriber t u v = ok w' \<and> dom (heap w') = dom (heap v)"
    if "t \<in> dom (heap v)" for t u and v :: "'a srtp_world"
    using tr_remove_subscriber_subs [OF that, of u] by blast
  define first_unlink where "first_unlink =
    (case map_of (sm_streams m) uid of None \<Rightarrow> ok w | Some st \<Rightarrow> tr_remove_subscriber st target w)"
  have "\<exists>w1. first_unlink = ok w1 \<and> dom (heap w1) = dom (heap w)"
    unfolding first_unlink_def using r media_ok_stream [OF assms]
    by (cases "map_of (sm_streams m) uid") auto
  then obtain w1 where w1: "first_unlink = ok w1" "dom (heap w1) = dom (heap w)" by blast
  have "is_ok (case map_of (sm_streams m) target of
      None \<Rightarrow> ok (m, w1) | Some st \<Rightarrow> res_bind (tr_remove_subscriber st uid w1) (\<lambda>w2. ok (m, w2)))"
    using r [of _ w1 uid] w1(2) media_ok_stream [OF assms]
    by (cases "map_of (sm_streams m) target") (fastforce simp: is_ok_iff)+
  then show ?thesis
    using Some p w1(1) unfolding sm_remove_subscriber_def first_unlink_def by simp
qed

section \<open>A concrete library and world\<close>

definition sample_lib :: "bytes srtp_lib" where
  "sample_lib = \<lparr>lib_init = 0, lib_install_event_handler = 0,
     lib_policy_rtp = (\<lambda>cs. if cs = 1 then Some (30, 10) else None),
     lib_policy_rtcp = (\<lambda>cs. if cs = 1 then Some (30, 10) else None),
     lib_create = (\<lambda>p. Inr (pol_key p)), lib_update = (\<lambda>p c. (0, pol_key p)),
     lib_unprotect = (\<lambda>p c. if 10 \<le> length p then (0, take (length p - 10) p, c) else (1, [], c)),
     lib_unprotect_rtcp = (\<lambda>p c. if 14 \<le> length p then (0, take (length p - 14) p, c) else (1, [], c)),
     lib_protect = (\<lambda>p c. (0, p @ take 10 c, c)),
     lib_protect_rtcp = (\<lambda>p c. (0, p @ take 10 c @ [128, 0, 0, 1], c))\<rparr>"

definition sample_transport :: "byte \<Rightarrow> nat \<Rightarrow> (string \<times> nat) list \<Rightarrow> bytes SrtpTransport" where
  "sample_transport k udp subs =
     \<lparr>tr_subs_map = subs,
      tr_send_session = Some \<lparr>ss_srtp_session = Some (replicate 30 k), ss_rtp_auth_tag_len = 10, ss_rtcp_auth_tag_len = 10\<rparr>,
      tr_recv_session = Some \<lparr>ss_srtp_session = Some (replicate 30 k), ss_rtp_auth_tag_len = 10, ss_rtcp_auth_tag_len = 10\<rparr>,
      tr_udp = udp, tr_addr = ip_address_of (4000 + of_nat udp) 16777226\<rparr>"

text \<open>Transport 0 publishes, transports 1 and 2 are subscribed to it.\<close>

definition sample_world :: "bytes srtp_world" where
  "sample_world =
     \<lparr>heap = [0 \<mapsto> sample_transport 1 0 [(''bob'', 1), (''eve'', 2)],
              1 \<mapsto> sample_transport 2 1 [(''amy'', 0)], 2 \<mapsto> sample_transport 3 2 [(''amy'', 0)]],
      srtp_inited = True, udp_open = \<lambda>_. True\<rparr>"

lemma sample_world_simps:
  "heap sample_world 0 = Some (sample_transport 1 0 [(''bob'', 1), (''eve'', 2)])"
  "heap sample_world (Suc 0) = Some (sample_transport 2 1 [(''amy'', 0)])"
  "heap sample_world 2 = Some (sample_transport 3 2 [(''amy'', 0)])"
  "srtp_inited sample_world" "udp_open sample_world u"
  by (simp_all add: sample_world_def)

lemma sample_lib_simps:
  "lib_unprotect sample_lib p c = (if 10 \<le> length p then (0, take (length p - 10) p, c) else (1, [], c))"
  "lib_unprotect_rtcp sample_lib p c = (if 14 \<le> length p then (0, take (length p - 14) p, c) else (1, [], c))"
  "lib_protect sample_lib p c = (0, p @ take 10 c, c)"
  "lib_protect_rtcp sample_lib p c = (0, p @ take 10 c @ [128, 0, 0, 1], c)"
  by (simp_all add: sample_lib_def)

lemmas sample_defs = sample_world_simps sample_transport_def sample_lib_simps

section \<open>Properties\<close>

lemma handle_rtp_data_forwards:
  assumes "srtp_inited w" "heap w t = Some tr" "tr_recv_session tr = Some rs"
    and "unprotect_rtp lib data rs = (True, out, rs')" "out \<noteq> []"
  shows "handle_rtp_data lib iter data t w =
    subs_loop (on_rtp_packet lib out) (iter (tr_subs_map tr)) (put_tr t (tr\<lparr>tr_recv_session := Some rs'\<rparr>) w)"
  using assms by (simp add: handle_rtp_data_def)

lemma handle_rtcp_data_forwards:
  assumes "srtp_inited w" "heap w t = Some tr" "tr_recv_session tr = Some rs"
    and "unprotect_rtcp lib data rs = (True, out, rs')" "out \<noteq> []"
  shows "handle_rtcp_data lib iter data t w =
    subs_loop (on_rtcp_packet lib out) (iter (tr_subs_map tr)) (put_tr t (tr\<lparr>tr_recv_session := Some rs'\<rparr>) w)"
  using assms by (simp add: handle_rtcp_data_def)

lemma recv_put_same:
  assumes "heap w t = Some tr"
  shows "send_ctx (put_tr t (tr\<lparr>tr_recv_session := x\<rparr>) w) = send_ctx w"
    and "send_addr (put_tr t (tr\<lparr>tr_recv_session := x\<rparr>) w) = send_addr w"
    and "can_send (put_tr t (tr\<lparr>tr_recv_session := x\<rparr>) w) = can_send w"
    and "media_to prot (put_tr t (tr\<lparr>tr_recv_session := x\<rparr>) w) = media_to prot w"
  using assms by (auto simp: send_ctx_put_recv send_addr_put_same can_send_def media_to_def fun_eq_iff)

lemma permuted_subs:
  assumes "mset its = mset subs"
  shows "set its = set subs" "distinct (map snd its) = distinct (map snd subs)"
    "mset (map g (filter P (map snd its))) = {#g t. t \<in># filter_mset P (mset (map snd subs))#}"
proof -
  have "mset (map snd its) = mset (map snd subs)" using assms by simp
  then show "distinct (map snd its) = distinct (map snd subs)"
    by (rule mset_eq_imp_distinct_iff)
  show "set its = set subs" using assms by (rule mset_eq_setD)
  show "mset (map g (filter P (map snd its))) = {#g t. t \<in># filter_mset P (mset (map snd subs))#}"
    using assms by simp
qed

text \<open>
  C1: An RTP packet that decrypts is sent to every subscriber exactly once, encrypted with that
  subscriber's own context and addressed to it, whatever the iteration order of the map; a
  subscriber for which encryption fails is skipped without affecting the others, and the call
  does not crash.
\<close>
theorem rtp_reaches_each_subscriber_once:
  assumes "srtp_inited w" "heap w t = Some tr" "tr_recv_session tr = Some rs"
    and "unprotect_rtp lib data rs = (True, out, rs')" "out \<noteq> []"
    and "\<forall>e \<in> set (tr_subs_map tr). can_send w (snd e)" "distinct (map snd (tr_subs_map tr))"
    and "mset (iter (tr_subs_map tr)) = mset (tr_subs_map tr)"
  shows "\<exists>w' sent. handle_rtp_data lib iter data t w = ok (w', sent) \<and>
    mset sent = {#media_to (lib_protect lib) w out s.
                  s \<in># filter_mset (\<lambda>s. fst (lib_protect lib out (the (send_ctx w s))) = 0)
                         (mset (map snd (tr_subs_map tr)))#}"
proof -
  let ?w = "put_tr t (tr\<lparr>tr_recv_session := Some rs'\<rparr>) w"
  note perm = permuted_subs [OF assms(8)]
  have "\<exists>w'. subs_loop (on_rtp_packet lib out) (iter (tr_subs_map tr)) ?w =
      ok (w', map (media_to (lib_protect lib) ?w out)
        (filter (\<lambda>t. fst (lib_protect lib out (the (send_ctx ?w t))) = 0) (map snd (iter (tr_subs_map tr)))))"
    using assms(1,6,7) perm(1,2)
    by (intro rtp_handler.subs_loop_serves) (simp_all add: recv_put_same [OF assms(2)])
  then show ?thesis
    unfolding handle_rtp_data_forwards [OF assms(1-5)] recv_put_same [OF assms(2)]
    using perm(3) by blast
qed

lemma sample_can_send: "can_send sample_world 0" "can_send sample_world (Suc 0)" "can_send sample_world 2"
  by (simp_all add: can_send_def send_ctx_def send_addr_def sample_defs)

lemma rtp_reaches_each_subscriber_once_witness:
  "\<exists>w' sent. handle_rtp_data sample_lib rev (replicate 12 7) 0 sample_world = ok (w', sent) \<and>
    mset (map snd sent) = {#ip_address_of 4001 16777226, ip_address_of 4002 16777226#}"
  using rtp_reaches_each_subscriber_once [of sample_world 0 "sample_transport 1 0 [(''bob'', 1), (''eve'', 2)]"
      "the (tr_recv_session (sample_transport 1 0 []))" sample_lib "replicate 12 7" "replicate 2 7"
      "the (tr_recv_session (sample_transport 1 0 []))" rev] sample_can_send
  by (auto simp: sample_defs unprotect_rtp_def media_to_def send_addr_def)

text \<open>
  Likewise an RTCP packet, such as a key frame request of a subscriber, reaches every transport
  on the other side of the subscription exactly once.
\<close>
theorem rtcp_reaches_each_subscriber_once:
  assumes "srtp_inited w" "heap w t = Some tr" "tr_recv_session tr = Some rs"
    and "unprotect_rtcp lib data rs = (True, out, rs')" "out \<noteq> []"
    and "\<forall>e \<in> set (tr_subs_map tr). can_send w (snd e)" "distinct (map snd (tr_subs_map tr))"
    and "mset (iter (tr_subs_map tr)) = mset (tr_subs_map tr)"
  shows "\<exists>w' sent. handle_rtcp_data lib iter data t w = ok (w', sent) \<and>
    mset sent = {#media_to (lib_protect_rtcp lib) w out s.
                  s \<in># filter_mset (\<lambda>s. fst (lib_protect_rtcp lib out (the (send_ctx w s))) = 0)
                         (mset (map snd (tr_subs_map tr)))#}"
proof -
  let ?w = "put_tr t (tr\<lparr>tr_recv_session := Some rs'\<rparr>) w"
  note perm = permuted_subs [OF assms(8)]
  have "\<exists>w'. subs_loop (on_rtcp_packet lib out) (iter (tr_subs_map tr)) ?w =
      ok (w', map (media_to (lib_protect_rtcp lib) ?w out)
        (filter (\<lambda>t. fst (lib_protect_rtcp lib out (the (send_ctx ?w t))) = 0) (map snd (iter (tr_subs_map tr)))))"
    using assms(1,6,7) perm(1,2)
    by (intro rtcp_handler.subs_loop_serves) (simp_all add: recv_put_same [OF assms(2)])
  then show ?thesis
    unfolding handle_rtcp_data_forwards [OF assms(1-5)] recv_put_same [OF assms(2)]
    using perm(3) by blast
qed

lemma rtcp_reaches_each_subscriber_once_witness:
  "\<exists>w' sent. handle_rtcp_data sample_lib id (replicate 16 7) 1 sample_world = ok (w', sent) \<and>
    map snd sent = [ip_address_of 4000 16777226]"
  using rtcp_reaches_each_subscriber_once [of sample_world 1 "sample_transport 2 1 [(''amy'', 0)]"
      "the (tr_recv_session (sample_transport 2 0 []))" sample_lib "replicate 16 7" "replicate 2 7"
      "the (tr_recv_session (sample_transport 2 0 []))" id] sample_can_send
  by (auto simp: sample_defs unprotect_rtcp_def media_to_def send_addr_def)

text \<open>
  C3: From the start of the server, after any sequence of the media plane's operations, every
  subscriber and every stream names an allocated transport, a transport has both its sessions or
  none, adding the stream of an allocated transport and removing a subscriber do not crash.
\<close>
theorem media_plane_safe:
  assumes "(media_step lib iter)\<^sup>*\<^sup>* media_start (m, w)"
  shows "media_ok m w \<and> is_ok (sm_remove_subscriber uid m w) \<and>
    (t \<in> dom (heap w) \<longrightarrow> is_ok (add_stream uid t m w))"
proof -
  have "media_ok (fst s) (snd s)" if "(media_step lib iter)\<^sup>*\<^sup>* media_start s" for s
    using that
  proof (induction rule: rtranclp_induct)
    case base
    then show ?case by (simp add: media_start_def RtcStreamMgr_new_def media_ok_def)
  next
    case (step y z)
    then show ?case by (blast intro: media_step_ok)
  qed
  from this [OF assms] show ?thesis
    by (simp add: sm_remove_never_crashes add_stream_never_crashes)
qed

lemma media_plane_safe_witness:
  "media_ok (RtcStreamMgr_new) (put_tr 0 (SrtpTransport_new 1 (ip_address_of 5000 7)) (snd media_start) :: bytes srtp_world) \<and>
   is_ok (add_stream ''amy'' 0 (RtcStreamMgr_new)
     (put_tr 0 (SrtpTransport_new 1 (ip_address_of 5000 7)) (snd media_start) :: bytes srtp_world))"
proof -
  have "media_step sample_lib id media_start
      (RtcStreamMgr_new, put_tr 0 (SrtpTransport_new 1 (ip_address_of 5000 7)) (snd media_start))"
    using media_step.create [of "snd media_start" 0 sample_lib id "RtcStreamMgr_new"] by (simp add: media_start_def RtcStreamMgr_new_def)
  from media_plane_safe [OF r_into_rtranclp [of "media_step sample_lib id", OF this], of "''amy''" 0] show ?thesis by simp
qed

text \<open>
  C13: When the stream of a user who pulls another user's stream arrives, the two transports forward to
  each other and no other subscription changes; removing the user undoes exactly these two links.
\<close>
theorem subscription_links_and_unlinks:
  assumes "media_ok m w" "st \<in> dom (heap w)" "map_of (sm_subs_map m) uid = Some (target, x)"
    and "map_of (sm_streams m) target = Some sit" "uid \<noteq> target"
  shows "\<exists>m1 w1 w2. add_stream uid st m w = ok (m1, w1) \<and>
    (\<forall>t u. subs_of w1 t u =
       (if t = st \<and> u = target then Some sit else if t = sit \<and> u = uid then Some st else subs_of w t u)) \<and>
    sm_remove_subscriber uid m1 w1 = ok (m1, w2) \<and>
    (\<forall>t u. subs_of w2 t u = (if t = st \<and> u = target \<or> t = sit \<and> u = uid then None else subs_of w t u))"
proof -
  have sit: "map_of (sm_streams (with_stream uid st m)) target = Some sit"
    using assms(4,5) by (simp add: with_stream_def)
  obtain w1 where w1: "add_stream uid st m w = ok (with_stream uid st m, w1)"
    "\<forall>t u. subs_of w1 t u =
       (if t = st \<and> u = target then Some sit else if t = sit \<and> u = uid then Some st else subs_of w t u)"
    using add_stream_links [OF assms(1,2,3) sit] by blast
  have "map_of (sm_subs_map (with_stream uid st m)) uid = Some (target, x)"
    "map_of (sm_streams (with_stream uid st m)) uid = Some st"
    using assms(3) by (simp_all add: with_stream_def)
  from sm_remove_unlinks [OF add_stream_ok [OF assms(1,2) w1(1)] this sit] obtain w2 where
    "sm_remove_subscriber uid (with_stream uid st m) w1 = ok (with_stream uid st m, w2)"
    "\<forall>t u. subs_of w2 t u = (if t = st \<and> u = target \<or> t = sit \<and> u = uid then None else subs_of w1 t u)" by blast
  with w1 show ?thesis by auto
qed

definition sample_pair :: "bytes srtp_world" where
  "sample_pair = put_tr 1 (SrtpTransport_new 1 (ip_address_of 5000 7))
     (put_tr 0 (SrtpTransport_new 0 (ip_address_of 5002 7)) (snd media_start))"

definition sample_mgr :: RtcStreamMgr where
  "sample_mgr = \<lparr>sm_subs_map = [(''bob'', ''amy'', [])], sm_streams = [(''amy'', 0)]\<rparr>"

lemma sample_pair_ok: "media_ok sample_mgr sample_pair" "dom (heap sample_pair) = {0, 1}"
proof -
  have "media_ok (RtcStreamMgr_new) (snd media_start :: bytes srtp_world)"
    by (simp add: media_start_def RtcStreamMgr_new_def media_ok_def)
  then have "media_ok (RtcStreamMgr_new) sample_pair" unfolding sample_pair_def by (intro media_ok_new)
  moreover show "dom (heap sample_pair) = {0, 1}" by (auto simp: sample_pair_def media_start_def RtcStreamMgr_new_def)
  ultimately show "media_ok sample_mgr sample_pair" unfolding media_ok_def by (auto simp: sample_mgr_def)
qed

lemma subscription_links_and_unlinks_witness:
  "\<exists>m1 w1. add_stream ''bob'' 1 sample_mgr sample_pair = ok (m1, w1) \<and>
    subs_of w1 0 ''bob'' = Some 1 \<and> subs_of w1 1 ''amy'' = Some 0"
proof -
  have "map_of (sm_subs_map sample_mgr) ''bob'' = Some (''amy'', [])" "map_of (sm_streams sample_mgr) ''amy'' = Some 0"
    by (simp_all add: sample_mgr_def)
  from subscription_links_and_unlinks [OF sample_pair_ok(1) _ this, of 1] show ?thesis
    unfolding sample_pair_ok(2) by fastforce
qed

text \<open>
  C37: A key of the wrong length for the negotiated suite is refused by both sessions, and
  \<^verbatim>\<open>set_srtp_param\<close> still reports success: it ignores the results of \<^verbatim>\<open>set_send\<close> and \<^verbatim>\<open>set_recv\<close>. Media
  that arrives for such a transport is then dropped.
\<close>
theorem set_srtp_param_hides_refused_key:
  assumes "srtp_inited w" "heap w t = Some tr" "tr_send_session tr = None" "tr_recv_session tr = None"
    and "lib_policy_rtp lib cs = Some (key_len, tag)" "length send_key \<noteq> key_len" "length recv_key \<noteq> key_len"
  shows "\<exists>w'. set_srtp_param lib t cs send_key cs recv_key w = ok (True, w') \<and> send_ctx w' t = None \<and>
    (\<exists>w2. handle_rtp_data lib iter data t w' = ok (w2, []))"
  using assms
  by (simp add: set_srtp_param_def set_send_def set_recv_def set_key_refuses_length send_ctx_def SrtpSession_new_def
      handle_rtp_data_def unprotect_rtp_def)

lemma set_srtp_param_hides_refused_key_witness:
  "\<exists>w'. set_srtp_param sample_lib 9 1 [1] 1 [2] (put_tr 9 (SrtpTransport_new 1 (ip_address_of 5000 7)) sample_world) = ok (True, w') \<and>
    send_ctx w' 9 = None"
  using set_srtp_param_hides_refused_key [of "put_tr 9 (SrtpTransport_new 1 (ip_address_of 5000 7)) sample_world" 9
      "SrtpTransport_new 1 (ip_address_of 5000 7)" sample_lib 1 30 10 "[1]" "[2]" id "[]"]
  by (auto simp: SrtpTransport_new_def sample_world_simps sample_lib_def)

text \<open>
  C24: The keys \<^verbatim>\<open>extract_srtp_keys\<close> cuts from the exported material install in both directions of a
  fresh transport when libsrtp's policy for the negotiated suite asks for a master key and salt of
  the lengths \<^verbatim>\<open>GetSrtpKeyAndSaltLengths\<close> gives: the transport then sends with the server's key.
\<close>
theorem negotiated_keys_install:
  assumes "dt_adapter d = Some a" "ad_GetDtlsSrtpCryptoSuite ops a = ok (Some cs)"
    and "GetSrtpKeyAndSaltLengths cs = Some (kl, sl)"
    and "ad_ExportKeyingMaterial ops ''EXTRACTOR-dtls_srtp'' (kl * 2 + sl * 2) a = ok (Some material)"
    and "length material = kl * 2 + sl * 2"
    and "lib_policy_rtp lib cs = Some (kl + sl, rtp_tag)" "lib_policy_rtcp lib cs = Some (n, rtcp_tag)"
    and "\<And>type key. length key = kl + sl \<Longrightarrow>
           lib_create lib \<lparr>pol_ssrc_type = type, pol_suite = cs, pol_key = key\<rparr> = Inr (ctx type key)"
    and "srtp_inited w" "heap w t = Some (SrtpTransport_new udp addr)"
  shows "\<exists>send_key recv_key w'. extract_srtp_keys ops d = ok (Some (cs, send_key, recv_key)) \<and>
    set_srtp_param lib t cs send_key cs recv_key w = ok (True, w') \<and>
    send_key = take kl (drop kl material) @ drop (2 * kl + sl) material \<and>
    recv_key = take kl material @ take sl (drop (2 * kl) material) \<and>
    send_ctx w' t = Some (ctx ssrc_any_outbound send_key) \<and>
    (\<exists>tr s. heap w' t = Some tr \<and> tr_recv_session tr = Some s \<and>
       ss_srtp_session s = Some (ctx ssrc_any_inbound recv_key) \<and> get_send_auth_tag_len tr = (rtp_tag, rtcp_tag))"
proof -
  let ?sk = "take kl (drop kl material) @ drop (2 * kl + sl) material"
  let ?rk = "take kl material @ take sl (drop (2 * kl) material)"
  have len: "length ?sk = kl + sl" "length ?rk = kl + sl" using assms(5) by simp_all
  have e: "extract_srtp_keys ops d = ok (Some (cs, ?sk, ?rk))"
    using assms(1-5) by (simp add: extract_srtp_keys_def substr_within substr_from_within mult_2)
  have k: "set_key lib type cs key SrtpSession_new = (True, \<lparr>ss_srtp_session = Some (ctx type key),
      ss_rtp_auth_tag_len = rtp_tag, ss_rtcp_auth_tag_len = rtcp_tag\<rparr>)" if "length key = kl + sl" for type key
    using set_key_installs [of lib cs key rtp_tag n rtcp_tag type "ctx type key" SrtpSession_new] that assms(6,7,8)
    by (simp add: SrtpSession_new_def)
  define tr where "tr = (SrtpTransport_new udp addr)\<lparr>
      tr_send_session := Some \<lparr>ss_srtp_session = Some (ctx ssrc_any_outbound ?sk), ss_rtp_auth_tag_len = rtp_tag, ss_rtcp_auth_tag_len = rtcp_tag\<rparr>,
      tr_recv_session := Some \<lparr>ss_srtp_session = Some (ctx ssrc_any_inbound ?rk), ss_rtp_auth_tag_len = rtp_tag, ss_rtcp_auth_tag_len = rtcp_tag\<rparr>\<rparr>"
  have "set_srtp_param lib t cs ?sk cs ?rk w = ok (True, put_tr t tr (w\<lparr>srtp_inited := True\<rparr>))"
    unfolding set_srtp_param_def set_send_def set_recv_def tr_def using assms(9,10)
    by (simp add: k [OF len(1)] k [OF len(2)] SrtpTransport_new_def Let_def)
  moreover have "send_ctx (put_tr t tr (w\<lparr>srtp_inited := True\<rparr>)) t = Some (ctx ssrc_any_outbound ?sk)"
    by (simp add: send_ctx_def tr_def)
  moreover have "get_send_auth_tag_len tr = (rtp_tag, rtcp_tag)"
    by (simp add: get_send_auth_tag_len_def ss_get_auth_tag_len_def tr_def)
  ultimately show ?thesis using e
    by (intro exI conjI) (auto simp: tr_def)
qed

lemma negotiated_keys_install_witness:
  "\<exists>send_key recv_key w'. extract_srtp_keys sample_adapter sample_dtls = ok (Some (1, send_key, recv_key)) \<and>
    set_srtp_param sample_lib 9 1 send_key 1 recv_key (put_tr 9 (SrtpTransport_new 1 (ip_address_of 5000 7)) sample_world) = ok (True, w') \<and>
    send_ctx w' 9 = Some send_key"
  using negotiated_keys_install [of sample_dtls 3 sample_adapter 1 16 14 "map word_of_nat [0..<60]" sample_lib 10 30 10
      "\<lambda>type key. key" "put_tr 9 (SrtpTransport_new 1 (ip_address_of 5000 7)) sample_world" 9 1 "ip_address_of 5000 7"]
  by (auto simp: sample_dtls_def sample_adapter_def suite_ids GetSrtpKeyAndSaltLengths_def sample_lib_def sample_world_simps)

end
