(* ===== verification/RtpRtcp.thy ===== *)
theory RtpRtcp
  imports ByteOrder
begin

text \<open>
  \<^verbatim>\<open>rtprtcp/rtprtcp_pub.hpp\<close>: the packet headers, read through bit fields of a little-endian
  structure, the tests that tell RTCP from RTP, and the comparison of 16-bit sequence numbers.
\<close>

record rtcp_common_header =
  rtcp_count :: byte
  rtcp_padding :: byte
  rtcp_version :: byte
  rtcp_packet_type :: byte
  rtcp_length :: u16

record rtp_common_header =
  rtp_csrc_count :: byte
  rtp_extension :: byte
  rtp_padding :: byte
  rtp_version :: byte
  rtp_payload_type :: byte
  rtp_marker :: byte
  rtp_sequence :: u16
  rtp_timestamp :: u32
  rtp_ssrc :: u32

definition RTP_VERSION :: nat where "RTP_VERSION = 2"
definition SEQUENCE_MAX :: nat where "SEQUENCE_MAX = 65535"

definition load_rtcp_header :: "bytes \<Rightarrow> rtcp_common_header" where
  "load_rtcp_header data =
     \<lparr>rtcp_count = data ! 0 AND 0x1F, rtcp_padding = drop_bit 5 (data ! 0) AND 1,
      rtcp_version = drop_bit 6 (data ! 0), rtcp_packet_type = data ! 1,
      rtcp_length = le_word (take 2 (drop 2 data))\<rparr>"

definition load_rtp_header :: "bytes \<Rightarrow> rtp_common_header" where
  "load_rtp_header data =
     \<lparr>rtp_csrc_count = data ! 0 AND 0x0F, rtp_extension = drop_bit 4 (data ! 0) AND 1,
      rtp_padding = drop_bit 5 (data ! 0) AND 1, rtp_version = drop_bit 6 (data ! 0),
      rtp_payload_type = data ! 1 AND 0x7F, rtp_marker = drop_bit 7 (data ! 1),
      rtp_sequence = le_word (take 2 (drop 2 data)), rtp_timestamp = le_word (take 4 (drop 4 data)),
      rtp_ssrc = le_word (take 4 (drop 8 data))\<rparr>"

text \<open>The sizes of the two structures are 4 and 12 bytes.\<close>

definition is_rtcp :: "bytes \<Rightarrow> bool" where
  "is_rtcp data =
     (length data \<ge> 4 \<and> (data ! 0 > 127 \<and> data ! 0 < 192) \<and> rtcp_version (load_rtcp_header data) = 2 \<and>
      (rtcp_packet_type (load_rtcp_header data) \<ge> 192 \<and> rtcp_packet_type (load_rtcp_header data) \<le> 223))"

definition is_rtp :: "bytes \<Rightarrow> bool" where
  "is_rtp data =
     (length data \<ge> 12 \<and> (data ! 0 > 127 \<and> data ! 0 < 192) \<and> rtp_version (load_rtp_header data) = 2)"

definition get_rtcp_length :: "rtcp_common_header \<Rightarrow> u16" where
  "get_rtcp_length header = NetworkToHost16 (rtcp_length header) * 4"

definition rtcp_header_dump :: "rtcp_common_header \<Rightarrow> string" where
  "rtcp_header_dump header =
     ''rtcp common header, version:'' @ dec_nat (unat (rtcp_version header)) @ '', padding:'' @
     dec_nat (unat (rtcp_padding header)) @ '', count:'' @ dec_nat (unat (rtcp_count header)) @
     '', payloadtype:'' @ dec_nat (unat (rtcp_packet_type header)) @ '', length:'' @
     dec_nat (unat (get_rtcp_length header)) @ [CHR 0x0D, CHR 0x0A]"

text \<open>The differences are computed in \<^verbatim>\<open>int\<close>; each is taken only where it is positive.\<close>

definition seq_lower_than :: "u16 \<Rightarrow> u16 \<Rightarrow> bool" where
  "seq_lower_than seq1 seq2 =
     (if seq1 > seq2 \<and> int (unat seq1) - int (unat seq2) > int (SEQUENCE_MAX div 2) then True
      else if seq1 < seq2 \<and> int (unat seq2) - int (unat seq1) \<le> int (SEQUENCE_MAX div 2) then True
      else False)"

definition seq_higher_than :: "u16 \<Rightarrow> u16 \<Rightarrow> bool" where
  "seq_higher_than seq1 seq2 = (if seq1 = seq2 then False else \<not> seq_lower_than seq1 seq2)"

section \<open>Lemmas\<close>

lemma version_bits:
  fixes b :: byte
  assumes "b > 127" and "b < 192"
  shows "drop_bit 6 b = 2"
proof -
  have "unat b div 64 = 2" using assms by (simp add: word_less_nat_alt)
  then have "unat (drop_bit 6 b) = 2" by (simp add: unat_drop_bit_div)
  then show ?thesis by (simp add: word_unat_eq_iff)
qed

lemma unat_u16_minus: "unat (b - a) = (unat b + 65536 - unat a) mod 65536" for a b :: u16
proof -
  have "unat a < 65536" using unsigned_less [of a, where 'a=nat] by simp
  then have "b - a = word_of_nat (unat b + 65536 - unat a)"
    by (simp add: of_nat_diff)
  then show ?thesis by (simp add: unsigned_of_nat take_bit_eq_mod)
qed

lemma seq_lower_than_nat:
  "seq_lower_than a b \<longleftrightarrow>
     (let x = unat a; y = unat b in y < x \<and> 32767 < x - y \<or> x < y \<and> y - x \<le> 32767)"
proof -
  have "(if y < x \<and> int x - int y > int (65535 div 2) then True
      else if x < y \<and> int y - int x \<le> int (65535 div 2) then True else False) =
    (y < x \<and> 32767 < x - y \<or> x < y \<and> y - x \<le> 32767)" for x y :: nat
    by auto
  then show ?thesis by (simp only: seq_lower_than_def SEQUENCE_MAX_def word_less_nat_alt Let_def)
qed

lemma seq_lower_than_iff:
  "seq_lower_than a b \<longleftrightarrow> (let d = unat (b - a) in 0 < d \<and> d \<le> 32767 \<or> d = 32768 \<and> b < a)"
proof -
  have "x < 65536 \<Longrightarrow> y < 65536 \<Longrightarrow>
      (y < x \<and> 32767 < x - y \<or> x < y \<and> y - x \<le> 32767) =
      (let d = (y + 65536 - x) mod 65536 in 0 < d \<and> d \<le> 32767 \<or> d = 32768 \<and> y < x)" for x y :: nat
    by (cases "x \<le> y") (auto simp: Let_def mod_if)
  then show ?thesis
    using unsigned_less [of a, where 'a=nat] unsigned_less [of b, where 'a=nat]
    by (simp add: seq_lower_than_nat unat_u16_minus word_less_nat_alt Let_def)
qed

lemma is_rtcp_first: "is_rtcp data \<Longrightarrow> 127 < data ! 0 \<and> data ! 0 < 192"
  by (simp add: is_rtcp_def)

lemma is_rtp_first: "is_rtp data \<Longrightarrow> 127 < data ! 0 \<and> data ! 0 < 192"
  by (simp add: is_rtp_def)

text \<open>
  Sequence comparison is serial-number arithmetic: a number is lower than another exactly
  when it is at most 32767 steps behind it modulo 65536 (or exactly half the circle away and
  numerically larger), so wrap-around does not disturb it; the two tests are converse to each
  other, and of two distinct numbers exactly one is lower.
\<close>

theorem seq_order:
  "(seq_lower_than a b \<longleftrightarrow> (let d = unat (b - a) in 0 < d \<and> d \<le> 32767 \<or> d = 32768 \<and> b < a)) \<and>
   seq_higher_than a b = seq_lower_than b a \<and>
   (a \<noteq> b) = (seq_lower_than a b \<noteq> seq_lower_than b a)"
proof (intro conjI)
  show "seq_lower_than a b \<longleftrightarrow> (let d = unat (b - a) in 0 < d \<and> d \<le> 32767 \<or> d = 32768 \<and> b < a)"
    by (rule seq_lower_than_iff)
  show "seq_higher_than a b = seq_lower_than b a"
    by (auto simp: seq_higher_than_def seq_lower_than_nat Let_def word_unat_eq_iff)
  show "(a \<noteq> b) = (seq_lower_than a b \<noteq> seq_lower_than b a)"
    by (auto simp: seq_lower_than_nat Let_def word_unat_eq_iff)
qed

end
