(* ===== verification/PortMgr.thy ===== *)
theory PortMgr
  imports SfuBase
begin

text \<open>
  \<^verbatim>\<open>signaling/port_mgr.{h,cpp}\<close>: the pool of UDP ports the server binds for its members. Free ports lie in
  one array behind a cursor; recycled ports are collected in a second array and moved back when
  the first one is used up.

  The two arrays are lists once \<^verbatim>\<open>init\<close> has allocated them; the counters are C ints, of which the
  configuration uses port numbers only, so they are modelled as integers. An index outside an
  array is the fault \<open>OutOfBounds\<close>. The abstract pool is a multiset of ports.
\<close>

record UdpPortManager =
  pm_ipstr :: string
  pm_port_array :: "u32 list option"
  pm_port_array_rec :: "u32 list option"
  pm_max :: int
  pm_curr :: int
  pm_recycle :: int

definition UdpPortManager_new :: UdpPortManager where
  "UdpPortManager_new =
     \<lparr>pm_ipstr = [], pm_port_array = None, pm_port_array_rec = None, pm_max = 0, pm_curr = 0, pm_recycle = 0\<rparr>"

text \<open>C division rounds towards zero.\<close>

definition cdiv :: "int \<Rightarrow> int \<Rightarrow> int" where
  "cdiv a b = sgn a * sgn b * (\<bar>a\<bar> div \<bar>b\<bar>)"

definition port_at :: "int \<Rightarrow> int \<Rightarrow> nat \<Rightarrow> u32" where
  "port_at start step i = word_of_int (start + int i * step)"

definition pm_init :: "int \<Rightarrow> int \<Rightarrow> int \<Rightarrow> UdpPortManager \<Rightarrow> UdpPortManager res" where
  "pm_init start end_port step pm =
     (if step = 0 then crash DivideByZero
      else
        let len = cdiv (end_port - start) step;
            pm1 = (if len > 0
                   then pm\<lparr>pm_port_array := Some (map (port_at start step) [0..<nat len]),
                           pm_port_array_rec := Some (replicate (nat len) 0)\<rparr>
                   else pm)
        in ok (pm1\<lparr>pm_max := len, pm_curr := 0\<rparr>))"

text \<open>Reading and writing an array through an int index.\<close>

definition arr_get :: "u32 list option \<Rightarrow> int \<Rightarrow> u32 res" where
  "arr_get arr i =
     res_bind (deref arr) (\<lambda>xs. if 0 \<le> i \<and> nat i < length xs then ok (xs ! nat i) else crash OutOfBounds)"

definition arr_set :: "u32 list option \<Rightarrow> int \<Rightarrow> u32 \<Rightarrow> u32 list option res" where
  "arr_set arr i v =
     res_bind (deref arr) (\<lambda>xs. if 0 \<le> i \<and> nat i < length xs then ok (Some (xs[nat i := v])) else crash OutOfBounds)"

text \<open>The loop of \<^verbatim>\<open>allocate_port\<close> from index \<open>i\<close>, with \<open>n\<close> iterations left.\<close>

fun refill_loop :: "nat \<Rightarrow> int \<Rightarrow> UdpPortManager \<Rightarrow> UdpPortManager res" where
  "refill_loop 0 i pm = ok pm"
| "refill_loop (Suc n) i pm =
     res_bind (arr_get (pm_port_array_rec pm) i) (\<lambda>v.
     res_bind (arr_set (pm_port_array pm) (pm_curr pm - 1) v) (\<lambda>arr.
       refill_loop n (i + 1) (pm\<lparr>pm_curr := pm_curr pm - 1, pm_port_array := arr\<rparr>)))"

definition take_port :: "UdpPortManager \<Rightarrow> (u32 \<times> UdpPortManager) res" where
  "take_port pm =
     res_bind (arr_get (pm_port_array pm) (pm_curr pm)) (\<lambda>port. ok (port, pm\<lparr>pm_curr := pm_curr pm + 1\<rparr>))"

definition allocate_port :: "UdpPortManager \<Rightarrow> (u32 \<times> UdpPortManager) res" where
  "allocate_port pm =
     (if pm_curr pm \<ge> pm_max pm
      then if pm_recycle pm > 0
           then res_bind (refill_loop (nat (pm_recycle pm)) 0 pm) (\<lambda>pm1. take_port (pm1\<lparr>pm_recycle := 0\<rparr>))
           else ok (0, pm)
      else take_port pm)"

definition recycle_port :: "u32 \<Rightarrow> UdpPortManager \<Rightarrow> UdpPortManager res" where
  "recycle_port port pm =
     (if pm_recycle pm \<ge> pm_max pm then ok pm
      else
        res_bind (arr_set (pm_port_array_rec pm) (pm_recycle pm) port) (\<lambda>arr.
          ok (pm\<lparr>pm_port_array_rec := arr, pm_recycle := pm_recycle pm + 1\<rparr>)))"

section \<open>The abstract pool\<close>

definition pm_ok :: "UdpPortManager \<Rightarrow> bool" where
  "pm_ok pm =
     (\<exists>xs ys. pm_port_array pm = Some xs \<and> pm_port_array_rec pm = Some ys \<and>
        int (length xs) = pm_max pm \<and> int (length ys) = pm_max pm \<and>
        0 \<le> pm_curr pm \<and> pm_curr pm \<le> pm_max pm \<and> 0 \<le> pm_recycle pm \<and> pm_recycle pm \<le> pm_max pm)"

definition free_ports :: "UdpPortManager \<Rightarrow> u32 multiset" where
  "free_ports pm =
     mset (drop (nat (pm_curr pm)) (the (pm_port_array pm))) +
     mset (take (nat (pm_recycle pm)) (the (pm_port_array_rec pm)))"

lemma refill_loop_moves:
  assumes "pm_port_array pm = Some xs" "pm_port_array_rec pm = Some ys" "pm_curr pm = int c" "c \<le> length xs"
    and "n \<le> c" "k + n \<le> length ys"
  shows "\<exists>xs'. refill_loop n (int k) pm = ok (pm\<lparr>pm_curr := int (c - n), pm_port_array := Some xs'\<rparr>) \<and>
    length xs' = length xs \<and> mset (drop (c - n) xs') = mset (drop c xs) + mset (take n (drop k ys))"
  using assms
proof (induction n arbitrary: k pm xs c)
  case 0
  have "pm\<lparr>pm_curr := int c, pm_port_array := Some xs\<rparr> = pm" using 0 by simp
  then show ?case by (intro exI [of _ xs]) simp
next
  case (Suc n)
  then have c: "c > 0" "c - 1 < length xs" and k: "k < length ys" by auto
  define xs1 where "xs1 = xs[c - 1 := ys ! k]"
  define pm1 where "pm1 = pm\<lparr>pm_curr := int (c - 1), pm_port_array := Some xs1\<rparr>"
  have ix: "nat (int c - 1) = c - 1" using c by auto
  have step: "refill_loop (Suc n) (int k) pm = refill_loop n (int (Suc k)) pm1"
  proof -
    have "arr_get (Some ys) (int k) = ok (ys ! k)" "arr_set (Some xs) (pm_curr pm - 1) (ys ! k) = ok (Some xs1)"
      using c k ix Suc.prems(3) by (simp_all add: arr_get_def arr_set_def xs1_def)
    moreover have "pm_curr pm - 1 = int (c - 1)" "int k + 1 = int (Suc k)"
      using Suc.prems(3) c(1) by auto
    ultimately show ?thesis using Suc.prems(1,2) by (simp only: refill_loop.simps res_bind_ok pm1_def)
  qed
  have "\<exists>xs'. refill_loop n (int (Suc k)) pm1 =
        ok (pm1\<lparr>pm_curr := int (c - 1 - n), pm_port_array := Some xs'\<rparr>) \<and>
      length xs' = length xs1 \<and> mset (drop (c - 1 - n) xs') = mset (drop (c - 1) xs1) + mset (take n (drop (Suc k) ys))"
    using Suc.prems c by (intro Suc.IH) (auto simp: pm1_def xs1_def)
  then obtain xs' where xs': "refill_loop n (int (Suc k)) pm1 = ok (pm1\<lparr>pm_curr := int (c - 1 - n), pm_port_array := Some xs'\<rparr>)"
    "length xs' = length xs1" "mset (drop (c - 1 - n) xs') = mset (drop (c - 1) xs1) + mset (take n (drop (Suc k) ys))"
    by blast
  have "drop (c - 1) xs1 = ys ! k # drop c xs"
    using c by (simp add: xs1_def drop_update_swap Cons_nth_drop_Suc [symmetric])
  moreover have "drop k ys = ys ! k # drop (Suc k) ys" using k by (simp add: Cons_nth_drop_Suc)
  ultimately have "mset (drop (c - Suc n) xs') = mset (drop c xs) + mset (take (Suc n) (drop k ys))"
    using xs'(3) by simp
  with xs' step show ?case by (intro exI [of _ xs']) (simp add: pm1_def xs1_def)
qed

lemma take_port_pops:
  assumes "pm_ok pm" "pm_curr pm < pm_max pm"
  shows "\<exists>p pm'. take_port pm = ok (p, pm') \<and> pm_ok pm' \<and> free_ports pm = add_mset p (free_ports pm') \<and>
    pm_max pm' = pm_max pm"
proof -
  from assms obtain xs ys where a: "pm_port_array pm = Some xs" "pm_port_array_rec pm = Some ys"
    "int (length xs) = pm_max pm" "int (length ys) = pm_max pm" "0 \<le> pm_curr pm"
    "0 \<le> pm_recycle pm" "pm_recycle pm \<le> pm_max pm" by (auto simp: pm_ok_def)
  let ?c = "nat (pm_curr pm)"
  have c: "?c < length xs" "nat (pm_curr pm + 1) = Suc ?c" using a assms(2) by auto
  have "take_port pm = ok (xs ! ?c, pm\<lparr>pm_curr := pm_curr pm + 1\<rparr>)"
    using a c by (simp add: take_port_def arr_get_def)
  moreover have "drop ?c xs = xs ! ?c # drop (Suc ?c) xs" using c(1) by (simp add: Cons_nth_drop_Suc)
  ultimately show ?thesis using a c assms(2) by (auto simp: pm_ok_def free_ports_def)
qed

lemma allocate_port_spec:
  assumes "pm_ok pm"
  shows "\<exists>p pm'. allocate_port pm = ok (p, pm') \<and> pm_ok pm' \<and> pm_max pm' = pm_max pm \<and>
    (if free_ports pm = {#} then p = 0 \<and> pm' = pm else free_ports pm = add_mset p (free_ports pm'))"
proof -
  from assms obtain xs ys where a: "pm_port_array pm = Some xs" "pm_port_array_rec pm = Some ys"
    "int (length xs) = pm_max pm" "int (length ys) = pm_max pm" "0 \<le> pm_curr pm" "pm_curr pm \<le> pm_max pm"
    "0 \<le> pm_recycle pm" "pm_recycle pm \<le> pm_max pm" by (auto simp: pm_ok_def)
  consider "pm_curr pm < pm_max pm" | "pm_curr pm = pm_max pm" "pm_recycle pm = 0"
    | "pm_curr pm = pm_max pm" "0 < pm_recycle pm" using a by linarith
  then show ?thesis
  proof cases
    case 1
    with take_port_pops [OF assms 1] show ?thesis
      by (metis add_mset_not_empty allocate_port_def linorder_not_le)
  next
    case 2
    with a have "free_ports pm = {#}" by (simp add: free_ports_def)
    with 2 assms show ?thesis by (simp add: allocate_port_def)
  next
    case 3
    let ?n = "nat (pm_recycle pm)"
    have "\<exists>xs'. refill_loop ?n (int 0) pm = ok (pm\<lparr>pm_curr := int (length xs - ?n), pm_port_array := Some xs'\<rparr>) \<and>
        length xs' = length xs \<and> mset (drop (length xs - ?n) xs') = mset (drop (length xs) xs) + mset (take ?n (drop 0 ys))"
      using a 3 by (intro refill_loop_moves) auto
    then obtain xs' where r: "refill_loop ?n 0 pm = ok (pm\<lparr>pm_curr := int (length xs - ?n), pm_port_array := Some xs'\<rparr>)"
      "length xs' = length xs" "mset (drop (length xs - ?n) xs') = mset (take ?n ys)" by auto
    define pm1 where "pm1 = pm\<lparr>pm_curr := int (length xs - ?n), pm_port_array := Some xs', pm_recycle := 0\<rparr>"
    have ok1: "pm_ok pm1" "pm_curr pm1 < pm_max pm1" "pm_max pm1 = pm_max pm"
      using a 3 r(2) by (auto simp: pm_ok_def pm1_def)
    have free: "free_ports pm1 = free_ports pm"
    proof -
      have "nat (pm_max pm - pm_recycle pm) = length xs - ?n" using a(3) 3(2) by simp
      with a 3 r(3) show ?thesis by (simp add: free_ports_def pm1_def)
    qed
    have "allocate_port pm = take_port pm1"
      using 3 r(1) by (simp add: allocate_port_def pm1_def)
    with take_port_pops [OF ok1(1,2)] ok1(3) free show ?thesis
      by (metis add_mset_not_empty)
  qed
qed

lemma recycle_port_spec:
  assumes "pm_ok pm" "pm_recycle pm < pm_max pm"
  shows "\<exists>pm'. recycle_port p pm = ok pm' \<and> pm_ok pm' \<and> pm_max pm' = pm_max pm \<and>
    free_ports pm' = add_mset p (free_ports pm)"
proof -
  from assms obtain xs ys where a: "pm_port_array pm = Some xs" "pm_port_array_rec pm = Some ys"
    "int (length xs) = pm_max pm" "int (length ys) = pm_max pm" "0 \<le> pm_curr pm" "pm_curr pm \<le> pm_max pm"
    "0 \<le> pm_recycle pm" by (auto simp: pm_ok_def)
  let ?n = "nat (pm_recycle pm)"
  have n: "?n < length ys" "nat (pm_recycle pm + 1) = Suc ?n" using a assms(2) by auto
  have "recycle_port p pm = ok (pm\<lparr>pm_port_array_rec := Some (ys[?n := p]), pm_recycle := pm_recycle pm + 1\<rparr>)"
    using a n assms(2) by (simp add: recycle_port_def arr_set_def)
  moreover have "take (Suc ?n) (ys[?n := p]) = take ?n ys @ [p]" using n(1) by (simp add: take_Suc_conv_app_nth)
  ultimately show ?thesis using a n assms(2) by (auto simp: pm_ok_def free_ports_def)
qed

lemma free_ports_size: "pm_ok pm \<Longrightarrow> int (size (free_ports pm)) = pm_max pm - pm_curr pm + pm_recycle pm"
  by (auto simp: pm_ok_def free_ports_def)

lemma cdiv_pos: "0 < b \<Longrightarrow> 0 \<le> a \<Longrightarrow> cdiv a b = a div b"
  by (cases "a = 0") (simp_all add: cdiv_def sgn_if)

lemma pm_init_spec:
  assumes "0 < step" "step \<le> end_port - start" "pm_recycle pm = 0"
  shows "\<exists>pm'. pm_init start end_port step pm = ok pm' \<and> pm_ok pm' \<and> pm_max pm' = (end_port - start) div step \<and>
    free_ports pm' = mset (map (port_at start step) [0..<nat ((end_port - start) div step)])"
proof -
  let ?len = "(end_port - start) div step"
  have len: "cdiv (end_port - start) step = ?len" "0 < ?len"
    using assms(1,2) by (simp_all add: cdiv_pos pos_imp_zdiv_pos_iff)
  have "pm_init start end_port step pm =
      ok (pm\<lparr>pm_port_array := Some (map (port_at start step) [0..<nat ?len]),
              pm_port_array_rec := Some (replicate (nat ?len) 0), pm_max := ?len, pm_curr := 0\<rparr>)"
    using assms(1) len by (simp add: pm_init_def Let_def)
  with len(2) assms(3) show ?thesis by (simp add: pm_ok_def free_ports_def)
qed

section \<open>What a client of the pool relies on\<close>

text \<open>
  The interface of a pool: an invariant, the free elements and a capacity; taking gives a free
  element or the value \<open>none\<close>, giving back is accepted below the capacity.
\<close>

locale pool =
  fixes inv :: "'s \<Rightarrow> bool" and free :: "'s \<Rightarrow> 'p multiset" and capacity :: "'s \<Rightarrow> int"
    and alloc :: "'s \<Rightarrow> ('p \<times> 's) res" and recycle :: "'p \<Rightarrow> 's \<Rightarrow> 's res" and none :: 'p
  assumes alloc_law: "inv s \<Longrightarrow> \<exists>p s'. alloc s = ok (p, s') \<and> inv s' \<and> capacity s' = capacity s \<and>
      (if free s = {#} then p = none \<and> s' = s else free s = add_mset p (free s'))"
    and recycle_law: "inv s \<Longrightarrow> int (size (free s)) < capacity s \<Longrightarrow>
      \<exists>s'. recycle p s = ok s' \<and> inv s' \<and> capacity s' = capacity s \<and> free s' = add_mset p (free s)"
begin

text \<open>\<open>leased all out s\<close>: of the elements \<open>all\<close>, those of \<open>out\<close> are in use and the others free.\<close>

definition leased :: "'p multiset \<Rightarrow> 'p multiset \<Rightarrow> 's \<Rightarrow> bool" where
  "leased all out s = (inv s \<and> out + free s = all \<and> int (size all) \<le> capacity s)"

lemma leased_alloc:
  assumes "leased all out s" "alloc s = ok (p, s')" "none \<notin># all"
  shows "if p = none then leased all out s' \<and> out = all else leased all (add_mset p out) s'"
proof -
  have s: "inv s" "out + free s = all" "int (size all) \<le> capacity s"
    using assms(1) by (simp_all add: leased_def)
  from alloc_law [OF s(1)] assms(2) have s': "inv s'" "capacity s' = capacity s"
    "if free s = {#} then p = none \<and> s' = s else free s = add_mset p (free s')" by auto
  show ?thesis
  proof (cases "free s = {#}")
    case True
    with s s' assms(1) show ?thesis by simp
  next
    case False
    then have "out + add_mset p (free s') = all" using s(2) s'(3) by simp
    moreover from this have "p \<noteq> none" using assms(3) by auto
    ultimately show ?thesis using s(3) s'(1,2) by (simp add: leased_def)
  qed
qed

lemma leased_recycle:
  assumes "leased all out s" "p \<in># out"
  shows "\<exists>s'. recycle p s = ok s' \<and> leased all (out - {#p#}) s'"
proof -
  obtain out' where out: "out = add_mset p out'" using assms(2) by (metis multi_member_split)
  then have "int (size (free s)) < capacity s" using assms(1) by (auto simp: leased_def)
  with recycle_law [of s p] assms(1) out show ?thesis by (auto simp: leased_def)
qed

end

interpretation udp_ports: pool pm_ok free_ports pm_max allocate_port recycle_port 0
proof
  fix s p
  assume "pm_ok s"
  then show "\<exists>p s'. allocate_port s = ok (p, s') \<and> pm_ok s' \<and> pm_max s' = pm_max s \<and>
      (if free_ports s = {#} then p = 0 \<and> s' = s else free_ports s = add_mset p (free_ports s'))"
    by (rule allocate_port_spec)
next
  fix s p
  assume "pm_ok s" "int (size (free_ports s)) < pm_max s"
  then have "pm_recycle s < pm_max s" using free_ports_size [of s] by (auto simp: pm_ok_def)
  with \<open>pm_ok s\<close> show "\<exists>s'. recycle_port p s = ok s' \<and> pm_ok s' \<and> pm_max s' = pm_max s \<and>
      free_ports s' = add_mset p (free_ports s)" by (rule recycle_port_spec)
qed

text \<open>
  The pool in use: a step takes a port for a member or gives back a port that is in use; \<open>out\<close> are the
  ports in use. A call that crashes leads to the state \<open>None\<close>.
\<close>

inductive port_step :: "(UdpPortManager \<times> u32 multiset) option \<Rightarrow> (UdpPortManager \<times> u32 multiset) option \<Rightarrow> bool" where
  taken: "allocate_port pm = ok (p, pm') \<Longrightarrow> p \<noteq> 0 \<Longrightarrow> port_step (Some (pm, out)) (Some (pm', add_mset p out))"
| exhausted: "allocate_port pm = ok (0, pm') \<Longrightarrow> port_step (Some (pm, out)) (Some (pm', out))"
| given_back: "p \<in># out \<Longrightarrow> recycle_port p pm = ok pm' \<Longrightarrow> port_step (Some (pm, out)) (Some (pm', out - {#p#}))"
| alloc_crash: "allocate_port pm = crash e \<Longrightarrow> port_step (Some (pm, out)) None"
| recycle_crash: "p \<in># out \<Longrightarrow> recycle_port p pm = crash e \<Longrightarrow> port_step (Some (pm, out)) None"

inductive_cases port_stepE: "port_step (Some (pm, out)) s"

lemma port_step_leased:
  assumes "port_step (Some (pm, out)) s" "udp_ports.leased all out pm" "0 \<notin># all"
  shows "\<exists>pm' out'. s = Some (pm', out') \<and> udp_ports.leased all out' pm'"
proof -
  have "pm_ok pm" using assms(2) by (simp add: udp_ports.leased_def)
  note ap = allocate_port_spec [OF this]
  note a = udp_ports.leased_alloc [OF assms(2) _ assms(3)]
  note r = udp_ports.leased_recycle [OF assms(2)]
  from assms(1) show ?thesis
    by (elim port_stepE) (use a in \<open>force\<close>, use a in \<open>force\<close>, use r in \<open>fastforce\<close>, use ap in \<open>auto\<close>, use r in \<open>fastforce\<close>)
qed

lemma port_steps_leased:
  assumes "port_step\<^sup>*\<^sup>* (Some (pm0, {#})) s" "udp_ports.leased all {#} pm0" "0 \<notin># all"
  shows "\<exists>pm out. s = Some (pm, out) \<and> udp_ports.leased all out pm"
  using assms(1)
proof (induction rule: rtranclp_induct)
  case base
  with assms(2) show ?case by auto
next
  case (step s1 s2)
  then obtain pm out where "s1 = Some (pm, out)" "udp_ports.leased all out pm" by auto
  with port_step_leased [OF _ _ assms(3)] step.hyps(2) show ?case by blast
qed

lemma port_at_inj:
  assumes "0 < step" "0 < start" "start + int n * step < 2 ^ 32"
  shows "inj_on (port_at start step) {0..<n}" and "0 \<notin> port_at start step ` {0..<n}"
proof -
  have u: "uint (port_at start step i) = start + int i * step" if "i < n" for i
  proof -
    have "int i * step \<le> int n * step" using that assms(1) by (intro mult_right_mono) auto
    then have "start + int i * step < 2 ^ 32" using assms(3) by linarith
    then show ?thesis using assms(1,2) unfolding port_at_def uint_word_of_int by simp
  qed
  show "inj_on (port_at start step) {0..<n}"
  proof (rule inj_onI)
    fix i j
    assume ij: "i \<in> {0..<n}" "j \<in> {0..<n}" and eq: "port_at start step i = port_at start step j"
    have "uint (port_at start step i) = uint (port_at start step j)" by (simp only: eq)
    then have "int i * step = int j * step" using u [of i] u [of j] ij
      unfolding atLeastLessThan_iff by linarith
    with assms(1) show "i = j" by (metis less_irrefl mult_right_cancel of_nat_eq_iff)
  qed
  show "0 \<notin> port_at start step ` {0..<n}"
  proof
    assume "0 \<in> port_at start step ` {0..<n}"
    then obtain i where i: "i < n" "port_at start step i = 0" by auto
    with u [of i] have "start + int i * step = 0" by simp
    moreover have "0 \<le> int i * step" using assms(1) by simp
    ultimately show False using assms(2) by linarith
  qed
qed

text \<open>
  C20: The port manager implements a multiset of free ports: while \<^verbatim>\<open>pm_ok\<close> holds, \<^verbatim>\<open>allocate_port\<close> removes one
  free port and returns it, or returns 0 and changes nothing when there is none, and
  \<^verbatim>\<open>recycle_port\<close> adds the port, unless the recycle array is full; no index leaves its array.
\<close>
theorem port_manager_is_multiset:
  assumes "pm_ok pm"
  shows "(\<exists>p pm'. allocate_port pm = ok (p, pm') \<and> pm_ok pm' \<and>
      (if free_ports pm = {#} then p = 0 \<and> pm' = pm else free_ports pm = add_mset p (free_ports pm'))) \<and>
    (\<exists>pm'. recycle_port q pm = ok pm' \<and> pm_ok pm' \<and>
      (if pm_recycle pm < pm_max pm then free_ports pm' = add_mset q (free_ports pm) else pm' = pm))"
proof (cases "pm_recycle pm < pm_max pm")
  case True
  then show ?thesis
    using allocate_port_spec [OF assms] recycle_port_spec [OF assms True, of q]
    by (intro conjI) (blast, metis)
next
  case False
  then have "recycle_port q pm = ok pm" by (simp add: recycle_port_def)
  with False assms show ?thesis
    using allocate_port_spec [OF assms] by (intro conjI) (blast, simp)
qed

definition sample_pool :: UdpPortManager where
  "sample_pool = UdpPortManager_new\<lparr>pm_port_array := Some [5000, 5002], pm_port_array_rec := Some [0, 0], pm_max := 2\<rparr>"

lemma sample_pool_init: "pm_init 5000 5004 2 UdpPortManager_new = ok sample_pool"
  by (simp add: pm_init_def cdiv_def UdpPortManager_new_def sample_pool_def port_at_def numeral_eq_Suc upt_rec)

lemma port_manager_is_multiset_witness:
  "\<exists>p pm'. allocate_port sample_pool = ok (p, pm') \<and> free_ports sample_pool = add_mset p (free_ports pm')"
  using port_manager_is_multiset [of sample_pool 0]
  by (auto simp: sample_pool_def pm_ok_def free_ports_def UdpPortManager_new_def)

text \<open>
  C10: Ports are never shared. From an initialised pool over a range of valid ports, after any sequence
  of allocations and of recyclings of ports in use, no call has crashed, the ports in use and the
  free ports together are the configured ports, and no port is in use twice.
\<close>
theorem ports_never_shared:
  assumes "pm_init start end_port step UdpPortManager_new = ok pm0"
    and "0 < start" "0 < step" "start + step \<le> end_port" "end_port < 2 ^ 32"
    and "port_step\<^sup>*\<^sup>* (Some (pm0, {#})) s"
  shows "\<exists>pm out. s = Some (pm, out) \<and> pm_ok pm \<and>
    out + free_ports pm = mset (map (port_at start step) [0..<nat ((end_port - start) div step)]) \<and>
    (\<forall>p. count out p \<le> 1)"
proof -
  define n where "n = nat ((end_port - start) div step)"
  define all where "all = mset (map (port_at start step) [0..<n])"
  have range: "start + int n * step < 2 ^ 32"
  proof -
    have "int n = (end_port - start) div step"
      using assms(3,4) by (simp add: n_def pos_imp_zdiv_nonneg_iff)
    then have "int n * step \<le> end_port - start" using assms(3) by (simp add: minus_mod_eq_div_mult [symmetric])
    with assms(5) show ?thesis by linarith
  qed
  note inj = port_at_inj [OF assms(3,2) range]
  have zero: "0 \<notin># all" using inj(2) by (auto simp: all_def)
  have "distinct (map (port_at start step) [0..<n])" using inj(1) by (simp add: distinct_map)
  then have distinct: "count all p \<le> 1" for p
    unfolding all_def by (metis distinct_count_atmost_1 le_refl zero_le)
  have "udp_ports.leased all {#} pm0"
    using pm_init_spec [of step end_port start UdpPortManager_new] assms(1,3,4)
    by (auto simp: udp_ports.leased_def all_def n_def UdpPortManager_new_def pos_imp_zdiv_nonneg_iff)
  from port_steps_leased [OF assms(6) this zero] obtain pm out where s: "s = Some (pm, out)" "udp_ports.leased all out pm" by blast
  then have "count out p \<le> 1" for p
    using distinct [of p] by (metis count_union le_add1 order_trans udp_ports.leased_def)
  with s show ?thesis by (auto simp: udp_ports.leased_def all_def n_def)
qed

lemma ports_never_shared_witness:
  "\<exists>pm out. Some (sample_pool\<lparr>pm_curr := 1\<rparr>, {#5000#}) = Some (pm, out) \<and> pm_ok pm \<and> (\<forall>p. count out p \<le> 1)"
proof -
  have "allocate_port sample_pool = ok (5000, sample_pool\<lparr>pm_curr := 1\<rparr>)"
    by (simp add: allocate_port_def take_port_def arr_get_def sample_pool_def UdpPortManager_new_def)
  then have "port_step\<^sup>*\<^sup>* (Some (sample_pool, {#})) (Some (sample_pool\<lparr>pm_curr := 1\<rparr>, {#5000#}))"
    by (intro r_into_rtranclp port_step.taken) simp_all
  from ports_never_shared [OF sample_pool_init _ _ _ _ this] show ?thesis by auto
qed

end
