(* ===== verification/IpAddr.thy ===== *)
theory IpAddr
  imports ByteOrder
begin

text \<open>
  \<^verbatim>\<open>rtc_base/ip_address.{h,cc}\<close>: the version-agnostic IP address, its order, its text, the classes of
  addresses, truncation to a prefix and mask lengths.

  An \<^verbatim>\<open>in6_addr\<close> is the four 32-bit words the code reads it as on a little-endian host; \<open>s6_addr\<close> are
  its bytes in memory. The union of an address of family \<^verbatim>\<open>AF_INET\<close> is zeroed before its v4 member is
  set, so reading the v6 member of one gives the v4 word followed by zeros. The text forms of v6
  addresses come from the C library (\<^verbatim>\<open>inet_ntop\<close>, \<^verbatim>\<open>inet_pton\<close>) and are the parameters \<open>ntop6\<close>, \<open>pton6\<close>;
  those of v4 addresses are modelled.
\<close>

section \<open>Addresses\<close>

datatype in6_addr = in6 u32 u32 u32 u32

fun v6_as_ints :: "in6_addr \<Rightarrow> u32 list" where
  "v6_as_ints (in6 a b c d) = [a, b, c, d]"

definition s6_addr :: "in6_addr \<Rightarrow> bytes" where
  "s6_addr ip = concat (map (le_bytes 4) (v6_as_ints ip))"

text \<open>An initialiser such as \<^verbatim>\<open>{{{0x20, 0x02, 0}}}\<close> fills the remaining bytes with zeros.\<close>

definition in6_init :: "bytes \<Rightarrow> in6_addr" where
  "in6_init bs =
     (let m = bs @ replicate (16 - length bs) 0
      in in6 (le_word (take 4 m)) (le_word (take 4 (drop 4 m))) (le_word (take 4 (drop 8 m))) (le_word (take 4 (drop 12 m))))"

definition AF_UNSPEC :: int where "AF_UNSPEC = 0"
definition AF_INET :: int where "AF_INET = 2"
definition AF_INET6 :: int where "AF_INET6 = 10"

datatype IPAddress = IP_unspec | IP4 u32 | IP6 in6_addr

definition IPAddress_of_host :: "u32 \<Rightarrow> IPAddress" where
  "IPAddress_of_host ip_in_host_byte_order = IP4 (HostToNetwork32 ip_in_host_byte_order)"

fun ip_family :: "IPAddress \<Rightarrow> int" where
  "ip_family IP_unspec = AF_UNSPEC"
| "ip_family (IP4 _) = AF_INET"
| "ip_family (IP6 _) = AF_INET6"

fun ipv6_address :: "IPAddress \<Rightarrow> in6_addr" where
  "ipv6_address IP_unspec = in6 0 0 0 0"
| "ipv6_address (IP4 s_addr) = in6 s_addr 0 0 0"
| "ipv6_address (IP6 a) = a"

fun ipv4_address :: "IPAddress \<Rightarrow> u32" where
  "ipv4_address IP_unspec = 0"
| "ipv4_address (IP4 s_addr) = s_addr"
| "ipv4_address (IP6 (in6 a _ _ _)) = a"

definition in6addr_any :: in6_addr where "in6addr_any = in6_init []"
definition in6addr_loopback :: in6_addr where "in6addr_loopback = in6_init (replicate 15 0 @ [1])"
definition INADDR_ANY :: u32 where "INADDR_ANY = 0"
definition INADDR_LOOPBACK :: u32 where "INADDR_LOOPBACK = 0x7f000001"

definition kV4MappedPrefix :: in6_addr where
  "kV4MappedPrefix = in6_init [0, 0, 0, 0, 0, 0, 0, 0, 0, 0, 0xFF, 0xFF, 0]"
definition k6To4Prefix :: in6_addr where "k6To4Prefix = in6_init [0x20, 0x02, 0]"
definition kTeredoPrefix :: in6_addr where "kTeredoPrefix = in6_init [0x20, 0x01, 0x00, 0x00]"
definition kV4CompatibilityPrefix :: in6_addr where "kV4CompatibilityPrefix = in6_init [0]"
definition k6BonePrefix :: in6_addr where "k6BonePrefix = in6_init [0x3f, 0xfe, 0]"
definition kPrivateNetworkPrefix :: in6_addr where "kPrivateNetworkPrefix = in6_init [0xFD]"

definition v4AddressAsHostOrderInteger :: "IPAddress \<Rightarrow> u32" where
  "v4AddressAsHostOrderInteger ip = (if ip_family ip = AF_INET then NetworkToHost32 (ipv4_address ip) else 0)"

definition overhead :: "IPAddress \<Rightarrow> int" where
  "overhead ip = (if ip_family ip = AF_INET then 20 else if ip_family ip = AF_INET6 then 40 else 0)"

definition IPIsUnspec :: "IPAddress \<Rightarrow> bool" where
  "IPIsUnspec ip = (ip_family ip = AF_UNSPEC)"

definition ip_IsNil :: "IPAddress \<Rightarrow> bool" where
  "ip_IsNil ip = IPIsUnspec ip"

definition ip_Size :: "IPAddress \<Rightarrow> nat" where
  "ip_Size ip = (if ip_family ip = AF_INET then 4 else if ip_family ip = AF_INET6 then 16 else 0)"

section \<open>Comparison\<close>

text \<open>\<^verbatim>\<open>memcmp\<close> of two areas of the same size, up to its sign.\<close>

fun memcmp :: "bytes \<Rightarrow> bytes \<Rightarrow> int" where
  "memcmp (x # xs) (y # ys) = (if x < y then -1 else if y < x then 1 else memcmp xs ys)"
| "memcmp _ _ = 0"

definition ip_eq :: "IPAddress \<Rightarrow> IPAddress \<Rightarrow> bool" where
  "ip_eq a b =
     (if ip_family a \<noteq> ip_family b then False
      else if ip_family a = AF_INET then memcmp (le_bytes 4 (ipv4_address a)) (le_bytes 4 (ipv4_address b)) = 0
      else if ip_family a = AF_INET6 then memcmp (s6_addr (ipv6_address a)) (s6_addr (ipv6_address b)) = 0
      else ip_family a = AF_UNSPEC)"

definition ip_less :: "IPAddress \<Rightarrow> IPAddress \<Rightarrow> bool" where
  "ip_less a b =
     (if ip_family a \<noteq> ip_family b
      then (if ip_family a = AF_UNSPEC then True else if ip_family a = AF_INET \<and> ip_family b = AF_INET6 then True else False)
      else if ip_family a = AF_INET then NetworkToHost32 (ipv4_address a) < NetworkToHost32 (ipv4_address b)
      else if ip_family a = AF_INET6 then memcmp (s6_addr (ipv6_address a)) (s6_addr (ipv6_address b)) < 0
      else False)"

definition ip_greater :: "IPAddress \<Rightarrow> IPAddress \<Rightarrow> bool" where
  "ip_greater a b = (\<not> ip_eq a b \<and> \<not> ip_less a b)"

section \<open>Text\<close>

definition dotted :: "bytes \<Rightarrow> string" where
  "dotted bs = concat (map (\<lambda>(i, b). (if i = 0 then [] else ''.'') @ dec_nat (unat b)) (enumerate 0 bs))"

definition inet_ntop4 :: "u32 \<Rightarrow> string" where
  "inet_ntop4 s_addr = dotted (le_bytes 4 s_addr)"

definition ip_ToString :: "(in6_addr \<Rightarrow> string option) \<Rightarrow> IPAddress \<Rightarrow> string" where
  "ip_ToString ntop6 ip =
     (if ip_family ip \<noteq> AF_INET \<and> ip_family ip \<noteq> AF_INET6 then []
      else if ip_family ip = AF_INET6 then (case ntop6 (ipv6_address ip) of None \<Rightarrow> [] | Some s \<Rightarrow> s)
      else inet_ntop4 (ipv4_address ip))"

text \<open>\<^verbatim>\<open>%x\<close> of a number that is not negative.\<close>

fun hex_nat :: "nat \<Rightarrow> string" where
  "hex_nat n = (if n < 16 then [''0123456789abcdef'' ! n] else hex_nat (n div 16) @ [''0123456789abcdef'' ! (n mod 16)])"

declare hex_nat.simps [simp del]

fun rfind_dot :: "string \<Rightarrow> nat option" where
  "rfind_dot [] = None"
| "rfind_dot (c # cs) =
     (case rfind_dot cs of
        Some p \<Rightarrow> Some (Suc p)
      | None \<Rightarrow> if c = CHR ''.'' then Some 0 else None)"

definition ip_ToSensitiveString :: "(in6_addr \<Rightarrow> string option) \<Rightarrow> IPAddress \<Rightarrow> string" where
  "ip_ToSensitiveString ntop6 ip =
     (if ip_family ip = AF_INET then
        let address = ip_ToString ntop6 ip
        in (case rfind_dot address of None \<Rightarrow> [] | Some find_pos \<Rightarrow> take find_pos address @ ''.x'')
      else if ip_family ip = AF_INET6 then
        let a = s6_addr (ipv6_address ip);
            group = (\<lambda>i. hex_nat (unat (a ! i) * 256 + unat (a ! (i + 1))))
        in group 0 @ '':'' @ group 2 @ '':'' @ group 4 @ '':x:x:x:x:x''
      else [])"

text \<open>
  \<^verbatim>\<open>inet_pton(AF_INET)\<close>: exactly four decimal numbers of at most 255, without leading zeros,
  separated by dots. The text ends at the first zero character.
\<close>

definition pton_part :: "string \<Rightarrow> byte option" where
  "pton_part s =
     (if s \<noteq> [] \<and> list_all isdigit s \<and> (length s > 1 \<longrightarrow> hd s \<noteq> CHR ''0'') \<and> digits_value 0 s \<le> 255
      then Some (of_nat (digits_value 0 s)) else None)"

fun split_dot :: "string \<Rightarrow> string list" where
  "split_dot [] = [[]]"
| "split_dot (c # cs) =
     (if c = CHR ''.'' then [] # split_dot cs
      else (case split_dot cs of [] \<Rightarrow> [[c]] | p # ps \<Rightarrow> (c # p) # ps))"

definition c_str :: "string \<Rightarrow> string" where
  "c_str s = takeWhile (\<lambda>c. c \<noteq> CHR 0x00) s"

definition inet_pton4 :: "string \<Rightarrow> u32 option" where
  "inet_pton4 s =
     (case map pton_part (split_dot (c_str s)) of
        [Some a, Some b, Some c, Some d] \<Rightarrow> Some (le_word [a, b, c, d])
      | _ \<Rightarrow> None)"

definition IPFromString :: "(string \<Rightarrow> in6_addr option) \<Rightarrow> string \<Rightarrow> bool \<times> IPAddress" where
  "IPFromString pton6 str =
     (case inet_pton4 str of
        None \<Rightarrow> (case pton6 (c_str str) of None \<Rightarrow> (False, IP_unspec) | Some addr6 \<Rightarrow> (True, IP6 addr6))
      | Some addr \<Rightarrow> (True, IP4 addr))"

section \<open>Classes of addresses\<close>

text \<open>The prefix test compares whole bytes; the length is in bits.\<close>

definition IPIsHelper :: "IPAddress \<Rightarrow> in6_addr \<Rightarrow> nat \<Rightarrow> bool" where
  "IPIsHelper ip tomatch len =
     (memcmp (take (len div 8) (s6_addr (ipv6_address ip))) (take (len div 8) (s6_addr tomatch)) = 0)"

definition IPIsV4Mapped :: "IPAddress \<Rightarrow> bool" where "IPIsV4Mapped ip = IPIsHelper ip kV4MappedPrefix 96"
definition IPIs6Bone :: "IPAddress \<Rightarrow> bool" where "IPIs6Bone ip = IPIsHelper ip k6BonePrefix 16"
definition IPIs6To4 :: "IPAddress \<Rightarrow> bool" where "IPIs6To4 ip = IPIsHelper ip k6To4Prefix 16"
definition IPIsTeredo :: "IPAddress \<Rightarrow> bool" where "IPIsTeredo ip = IPIsHelper ip kTeredoPrefix 32"
definition IPIsV4Compatibility :: "IPAddress \<Rightarrow> bool" where
  "IPIsV4Compatibility ip = IPIsHelper ip kV4CompatibilityPrefix 96"

definition ExtractMappedAddress :: "in6_addr \<Rightarrow> u32" where
  "ExtractMappedAddress a = le_word (take 4 (drop 12 (s6_addr a)))"

definition Normalized :: "IPAddress \<Rightarrow> IPAddress" where
  "Normalized ip =
     (if ip_family ip \<noteq> AF_INET6 then ip
      else if \<not> IPIsV4Mapped ip then ip
      else IP4 (ExtractMappedAddress (ipv6_address ip)))"

definition AsIPv6Address :: "IPAddress \<Rightarrow> IPAddress" where
  "AsIPv6Address ip =
     (if ip_family ip \<noteq> AF_INET then ip
      else IP6 (in6_init (take 12 (s6_addr kV4MappedPrefix) @ le_bytes 4 (ipv4_address ip))))"

definition IPIsAny :: "IPAddress \<Rightarrow> bool" where
  "IPIsAny ip =
     (if ip_family ip = AF_INET then ip_eq ip (IPAddress_of_host INADDR_ANY)
      else if ip_family ip = AF_INET6 then ip_eq ip (IP6 in6addr_any) \<or> ip_eq ip (IP6 kV4MappedPrefix)
      else False)"

definition IPIsLoopbackV4 :: "IPAddress \<Rightarrow> bool" where
  "IPIsLoopbackV4 ip = (drop_bit 24 (v4AddressAsHostOrderInteger ip) = 127)"

definition IPIsLoopbackV6 :: "IPAddress \<Rightarrow> bool" where
  "IPIsLoopbackV6 ip = ip_eq ip (IP6 in6addr_loopback)"

definition IPIsLoopback :: "IPAddress \<Rightarrow> bool" where
  "IPIsLoopback ip =
     (if ip_family ip = AF_INET then IPIsLoopbackV4 ip else if ip_family ip = AF_INET6 then IPIsLoopbackV6 ip else False)"

definition IPIsLinkLocalV4 :: "IPAddress \<Rightarrow> bool" where
  "IPIsLinkLocalV4 ip = (drop_bit 16 (v4AddressAsHostOrderInteger ip) = (push_bit 8 169 OR 254))"

definition IPIsLinkLocalV6 :: "IPAddress \<Rightarrow> bool" where
  "IPIsLinkLocalV6 ip =
     (let a = s6_addr (ipv6_address ip) in a ! 0 = 0xFE \<and> (a ! 1 AND 0xC0) = 0x80)"

definition IPIsLinkLocal :: "IPAddress \<Rightarrow> bool" where
  "IPIsLinkLocal ip =
     (if ip_family ip = AF_INET then IPIsLinkLocalV4 ip else if ip_family ip = AF_INET6 then IPIsLinkLocalV6 ip else False)"

definition IPIsPrivateNetworkV4 :: "IPAddress \<Rightarrow> bool" where
  "IPIsPrivateNetworkV4 ip =
     (let h = v4AddressAsHostOrderInteger ip
      in drop_bit 24 h = 10 \<or> drop_bit 20 h = (push_bit 4 172 OR 1) \<or> drop_bit 16 h = (push_bit 8 192 OR 168))"

definition IPIsPrivateNetworkV6 :: "IPAddress \<Rightarrow> bool" where
  "IPIsPrivateNetworkV6 ip = IPIsHelper ip kPrivateNetworkPrefix 8"

definition IPIsPrivateNetwork :: "IPAddress \<Rightarrow> bool" where
  "IPIsPrivateNetwork ip =
     (if ip_family ip = AF_INET then IPIsPrivateNetworkV4 ip else if ip_family ip = AF_INET6 then IPIsPrivateNetworkV6 ip else False)"

definition IPIsSharedNetworkV4 :: "IPAddress \<Rightarrow> bool" where
  "IPIsSharedNetworkV4 ip = (drop_bit 22 (v4AddressAsHostOrderInteger ip) = (push_bit 2 100 OR 1))"

definition IPIsSharedNetwork :: "IPAddress \<Rightarrow> bool" where
  "IPIsSharedNetwork ip = (if ip_family ip = AF_INET then IPIsSharedNetworkV4 ip else False)"

definition IPIsPrivate :: "IPAddress \<Rightarrow> bool" where
  "IPIsPrivate ip = (IPIsLinkLocal ip \<or> IPIsLoopback ip \<or> IPIsPrivateNetwork ip \<or> IPIsSharedNetwork ip)"

definition IPIsMacBased :: "IPAddress \<Rightarrow> bool" where
  "IPIsMacBased ip =
     (let a = s6_addr (ipv6_address ip) in (a ! 8 AND 0x02) \<noteq> 0 \<and> a ! 11 = 0xFF \<and> a ! 12 = 0xFE)"

definition IPIsSiteLocal :: "IPAddress \<Rightarrow> bool" where
  "IPIsSiteLocal ip = (let a = s6_addr (ipv6_address ip) in a ! 0 = 0xFE \<and> (a ! 1 AND 0xC0) = 0xC0)"

definition IPIsULA :: "IPAddress \<Rightarrow> bool" where
  "IPIsULA ip = (let a = s6_addr (ipv6_address ip) in (a ! 0 AND 0xFE) = 0xFC)"

definition IPAddressPrecedence :: "IPAddress \<Rightarrow> int" where
  "IPAddressPrecedence ip =
     (if ip_family ip = AF_INET then 30
      else if ip_family ip = AF_INET6 then
        (if IPIsLoopback ip then 60
         else if IPIsULA ip then 50
         else if IPIsV4Mapped ip then 30
         else if IPIs6To4 ip then 20
         else if IPIsTeredo ip then 10
         else if IPIsV4Compatibility ip \<or> IPIsSiteLocal ip \<or> IPIs6Bone ip then 1
         else 40)
      else 0)"

definition GetLoopbackIP :: "int \<Rightarrow> IPAddress" where
  "GetLoopbackIP fam =
     (if fam = AF_INET then IPAddress_of_host INADDR_LOOPBACK
      else if fam = AF_INET6 then IP6 in6addr_loopback else IP_unspec)"

definition GetAnyIP :: "int \<Rightarrow> IPAddress" where
  "GetAnyIP fam =
     (if fam = AF_INET then IPAddress_of_host INADDR_ANY
      else if fam = AF_INET6 then IP6 in6addr_any else IP_unspec)"

definition HashIP :: "IPAddress \<Rightarrow> u64" where
  "HashIP ip =
     (if ip_family ip = AF_INET then ucast (ipv4_address ip)
      else if ip_family ip = AF_INET6 then
        let v = v6_as_ints (ipv6_address ip) in ucast (v ! 0 XOR v ! 1 XOR v ! 2 XOR v ! 3)
      else 0)"

section \<open>Prefixes and masks\<close>

text \<open>One step of the loop of \<^verbatim>\<open>TruncateIP\<close> over the words of a v6 address.\<close>

definition truncate_word :: "nat \<Rightarrow> u32 \<Rightarrow> nat \<Rightarrow> u32 \<Rightarrow> u32" where
  "truncate_word position inner_mask i w =
     (if i = position then HostToNetwork32 (NetworkToHost32 w AND inner_mask)
      else if i > position then 0 else w)"

definition TruncateIP :: "IPAddress \<Rightarrow> int \<Rightarrow> IPAddress" where
  "TruncateIP ip len =
     (if len < 0 then IP_unspec
      else if ip_family ip = AF_INET then
        (if len > 31 then ip
         else if len = 0 then IPAddress_of_host INADDR_ANY
         else
           let mask = push_bit (32 - nat len) (0xFFFFFFFF :: u32);
               host_order_ip = NetworkToHost32 (ipv4_address ip)
           in IP4 (HostToNetwork32 (host_order_ip AND mask)))
      else if ip_family ip = AF_INET6 then
        (if len > 127 then ip
         else if len = 0 then IP6 in6addr_any
         else
           let position = nat len div 32;
               inner_length = 32 - (nat len - position * 32);
               inner_mask = ucast (push_bit inner_length (0xFFFFFFFF :: u64))
           in (case ipv6_address ip of in6 a b c d \<Rightarrow>
                 IP6 (in6 (truncate_word position inner_mask 0 a) (truncate_word position inner_mask 1 b)
                          (truncate_word position inner_mask 2 c) (truncate_word position inner_mask 3 d))))
      else IP_unspec)"

fun first_partial :: "u32 list \<Rightarrow> nat" where
  "first_partial [] = 0"
| "first_partial (w # ws) = (if w \<noteq> 0xFFFFFFFF then 0 else Suc (first_partial ws))"

text \<open>The number of zeros below the lowest set bit of a word, by masks.\<close>

definition count_zeroes :: "u32 \<Rightarrow> int" where
  "count_zeroes word_to_count =
     (let w = word_to_count AND (NOT word_to_count + 1)
      in 32 - (if w \<noteq> 0 then 1 else 0)
            - (if w AND 0x0000FFFF \<noteq> 0 then 16 else 0)
            - (if w AND 0x00FF00FF \<noteq> 0 then 8 else 0)
            - (if w AND 0x0F0F0F0F \<noteq> 0 then 4 else 0)
            - (if w AND 0x33333333 \<noteq> 0 then 2 else 0)
            - (if w AND 0x55555555 \<noteq> 0 then 1 else 0))"

definition CountIPMaskBits :: "IPAddress \<Rightarrow> int" where
  "CountIPMaskBits m =
     (if ip_family m = AF_INET \<or> ip_family m = AF_INET6 then
        let (word_to_count, bits) =
              (if ip_family m = AF_INET then (NetworkToHost32 (ipv4_address m), 0)
               else
                 let v = v6_as_ints (ipv6_address m); i = first_partial v
                 in (if i < 4 then NetworkToHost32 (v ! i) else 0, int i * 32))
        in if word_to_count = 0 then bits else bits + (32 - count_zeroes word_to_count)
      else 0)"

section \<open>Interface addresses\<close>

definition IPV6_ADDRESS_FLAG_NONE :: int where "IPV6_ADDRESS_FLAG_NONE = 0"

record InterfaceAddress =
  if_ip :: IPAddress
  if_ipv6_flags :: int

definition InterfaceAddress_new :: "IPAddress \<Rightarrow> InterfaceAddress" where
  "InterfaceAddress_new ip = \<lparr>if_ip = ip, if_ipv6_flags = IPV6_ADDRESS_FLAG_NONE\<rparr>"

definition if_eq :: "InterfaceAddress \<Rightarrow> InterfaceAddress \<Rightarrow> bool" where
  "if_eq a b = (if_ipv6_flags a = if_ipv6_flags b \<and> ip_eq (if_ip a) (if_ip b))"

definition ToHex :: "int \<Rightarrow> string" where
  "ToHex i = hex_nat (nat (i mod 2 ^ 32))"

definition if_ToString :: "(in6_addr \<Rightarrow> string option) \<Rightarrow> InterfaceAddress \<Rightarrow> string" where
  "if_ToString ntop6 a =
     ip_ToString ntop6 (if_ip a) @ (if ip_family (if_ip a) = AF_INET6 then ''|flags:0x'' @ ToHex (if_ipv6_flags a) else [])"

definition IPFromString_flags :: "(string \<Rightarrow> in6_addr option) \<Rightarrow> string \<Rightarrow> int \<Rightarrow> InterfaceAddress option" where
  "IPFromString_flags pton6 str flags =
     (case IPFromString pton6 str of
        (False, _) \<Rightarrow> None
      | (True, ip) \<Rightarrow> Some \<lparr>if_ip = ip, if_ipv6_flags = flags\<rparr>)"

section \<open>The order of addresses\<close>

lemmas families = AF_UNSPEC_def AF_INET_def AF_INET6_def

lemma le_bytes4_inject [simp]: "le_bytes 4 a = le_bytes 4 b \<longleftrightarrow> a = (b :: u32)"
proof
  assume eq: "le_bytes 4 a = le_bytes 4 b"
  have "(le_word (le_bytes 4 a) :: u32) = le_word (le_bytes 4 b)" by (simp only: eq)
  then show "a = b" by (simp add: le_word_le_bytes)
qed simp

lemma length_s6_addr [simp]: "length (s6_addr a) = 16"
  by (cases a) (simp add: s6_addr_def)

lemma s6_addr_inject [simp]: "s6_addr a = s6_addr b \<longleftrightarrow> a = b"
proof
  assume "s6_addr a = s6_addr b"
  then show "a = b"
    by (cases a; cases b) (auto simp: s6_addr_def le_bytes4_inject)
qed simp

lemma memcmp_eq_0: "length xs = length ys \<Longrightarrow> memcmp xs ys = 0 \<longleftrightarrow> xs = ys"
  by (induction xs ys rule: list_induct2) auto

lemma memcmp_antisym: "length xs = length ys \<Longrightarrow> memcmp ys xs = - memcmp xs ys"
  by (induction xs ys rule: list_induct2) auto

lemma memcmp_trans:
  "length xs = length ys \<Longrightarrow> length ys = length zs \<Longrightarrow> memcmp xs ys < 0 \<Longrightarrow> memcmp ys zs < 0 \<Longrightarrow> memcmp xs zs < 0"
proof (induction xs ys zs rule: list_induct3)
  case (Cons x xs y ys z zs)
  then show ?case by (cases "x < y"; cases "y < z") (auto split: if_splits)
qed simp

lemma ip_eq_iff: "ip_eq a b \<longleftrightarrow> a = b"
  by (cases a; cases b) (auto simp: ip_eq_def families memcmp_eq_0 le_bytes4_inject)

lemma HostToNetwork_NetworkToHost32 [simp]: "HostToNetwork32 (NetworkToHost32 a) = a"
  by (simp add: HostToNetwork32_def NetworkToHost32_def bswap_bswap)

lemma NetworkToHost32_inject: "NetworkToHost32 a = NetworkToHost32 b \<longleftrightarrow> a = b"
  by (metis HostToNetwork_NetworkToHost32)

lemma s6_not_eq: "a \<noteq> b \<Longrightarrow> memcmp (s6_addr a) (s6_addr b) \<noteq> 0"
  by (simp add: memcmp_eq_0)

lemma ip_less_irrefl: "\<not> ip_less a a"
  using memcmp_antisym [of "s6_addr (ipv6_address a)" "s6_addr (ipv6_address a)"] by (simp add: ip_less_def)

lemma ip_less_linear: "ip_less a b \<or> a = b \<or> ip_less b a"
proof -
  have "memcmp (s6_addr x) (s6_addr y) < 0 \<or> x = y \<or> memcmp (s6_addr y) (s6_addr x) < 0" for x y
    using memcmp_antisym [of "s6_addr x" "s6_addr y"] s6_not_eq [of x y] by fastforce
  moreover have "NetworkToHost32 x < NetworkToHost32 y \<or> x = y \<or> NetworkToHost32 y < NetworkToHost32 x" for x y
    using NetworkToHost32_inject [of x y] by auto
  ultimately show ?thesis by (cases a; cases b) (auto simp: ip_less_def families)
qed

lemma ip_less_trans: "ip_less a b \<Longrightarrow> ip_less b c \<Longrightarrow> ip_less a c"
  by (cases a; cases b; cases c)
    (auto simp: ip_less_def families intro: memcmp_trans [of _ "s6_addr (ipv6_address b)"] memcmp_trans)

instantiation IPAddress :: linorder
begin

definition less_IPAddress :: "IPAddress \<Rightarrow> IPAddress \<Rightarrow> bool" where
  "less_IPAddress a b = ip_less a b"

definition less_eq_IPAddress :: "IPAddress \<Rightarrow> IPAddress \<Rightarrow> bool" where
  "less_eq_IPAddress a b = (ip_less a b \<or> a = b)"

instance
proof
  fix a b c :: IPAddress
  show "a < b \<longleftrightarrow> a \<le> b \<and> \<not> b \<le> a"
    unfolding less_IPAddress_def less_eq_IPAddress_def using ip_less_trans ip_less_irrefl by blast
  show "a \<le> a" by (simp add: less_eq_IPAddress_def)
  show "a \<le> b \<Longrightarrow> b \<le> c \<Longrightarrow> a \<le> c"
    unfolding less_eq_IPAddress_def using ip_less_trans by blast
  show "a \<le> b \<Longrightarrow> b \<le> a \<Longrightarrow> a = b"
    unfolding less_eq_IPAddress_def using ip_less_trans ip_less_irrefl by blast
  show "a \<le> b \<or> b \<le> a"
    unfolding less_eq_IPAddress_def using ip_less_linear by blast
qed

end

section \<open>Prefixes and masks\<close>

lemma and_high_mask: "v AND push_bit k (- 1) = push_bit k (drop_bit k (v :: 'a::len word))"
  by (rule bit_word_eqI) (auto simp: bit_simps)

lemma and_not_mask: "v AND NOT (mask k) = push_bit k (drop_bit k (v :: 'a::len word))"
  by (rule bit_word_eqI) (auto simp: bit_simps)

lemma push_drop_eq_iff:
  fixes v c :: "'a::len word"
  assumes "drop_bit k (push_bit k c) = c"
  shows "push_bit k (drop_bit k v) = push_bit k c \<longleftrightarrow> drop_bit k v = c"
proof
  assume "push_bit k (drop_bit k v) = push_bit k c"
  then have "drop_bit k (push_bit k (drop_bit k v)) = c" using assms by simp
  moreover have "drop_bit k (push_bit k (drop_bit k v)) = drop_bit k v"
    by (rule bit_word_eqI) (auto simp: bit_simps dest: bit_imp_le_length)
  ultimately show "drop_bit k v = c" by simp
qed simp

lemma all_ones32: "(0xFFFFFFFF :: u32) = - 1"
  by simp

lemma TruncateIP_v4:
  "0 < n \<Longrightarrow> n < 32 \<Longrightarrow> TruncateIP (IP4 s) (int n) =
     IPAddress_of_host (push_bit (32 - n) (drop_bit (32 - n) (NetworkToHost32 s)))"
  by (simp add: TruncateIP_def families IPAddress_of_host_def and_high_mask and_not_mask all_ones32 Let_def)

lemma host_inject: "IPAddress_of_host a = IPAddress_of_host b \<longleftrightarrow> a = b"
  by (metis IPAddress.inject(1) IPAddress_of_host_def NetworkToHost_HostToNetwork(2))

lemma in_prefix_v4:
  assumes "0 < n" "n < 32" "drop_bit (32 - n) (push_bit (32 - n) c) = c"
  shows "TruncateIP (IP4 s) (int n) = IPAddress_of_host (push_bit (32 - n) c) \<longleftrightarrow> drop_bit (32 - n) (NetworkToHost32 s) = c"
  using assms by (simp add: TruncateIP_v4 host_inject push_drop_eq_iff)

lemma count_zeroes_mask: "k < 32 \<Longrightarrow> count_zeroes (push_bit k (- 1)) = int k"
proof -
  have "list_all (\<lambda>k. count_zeroes (push_bit k (- 1)) = int k) [0..<32]" by code_simp
  then show "k < 32 \<Longrightarrow> count_zeroes (push_bit k (- 1)) = int k" by (simp add: list_all_iff)
qed

lemma NetworkToHost32_ones: "NetworkToHost32 (- 1) = - 1" "HostToNetwork32 (- 1) = - 1"
  "NetworkToHost32 0 = 0" "HostToNetwork32 0 = 0"
proof -
  have "NetworkToHost32 (- 1) = - 1 \<and> HostToNetwork32 (- 1) = - 1 \<and>
      NetworkToHost32 0 = 0 \<and> HostToNetwork32 0 = 0" by code_simp
  then show "NetworkToHost32 (- 1) = - 1" "HostToNetwork32 (- 1) = - 1" "NetworkToHost32 0 = 0" "HostToNetwork32 0 = 0"
    by blast+
qed

lemma push_ones_nz: "k < 32 \<Longrightarrow> push_bit k (- 1 :: u32) \<noteq> 0"
proof
  assume "k < 32" "push_bit k (- 1 :: u32) = 0"
  then have "bit (push_bit k (- 1 :: u32)) k = False" by simp
  with \<open>k < 32\<close> show False by (simp add: bit_simps)
qed

lemma count_mask_word:
  "k \<le> 32 \<Longrightarrow> (if push_bit k (- 1 :: u32) = 0 then (0 :: int) else 32 - count_zeroes (push_bit k (- 1))) = 32 - int k"
proof (cases "k = 32")
  case True
  have "push_bit 32 (- 1 :: u32) = 0" by (rule bit_word_eqI) (auto simp: bit_simps)
  with True show ?thesis by simp
next
  case False
  moreover assume "k \<le> 32"
  ultimately show ?thesis using push_ones_nz [of k] count_zeroes_mask [of k] by simp
qed

lemma push_ones_not_ones: "0 < k \<Longrightarrow> HostToNetwork32 (push_bit k (- 1)) \<noteq> - 1"
proof
  assume k: "0 < k" and "HostToNetwork32 (push_bit k (- 1)) = - 1"
  then have "push_bit k (- 1 :: u32) = - 1"
    by (metis NetworkToHost32_ones(1) NetworkToHost_HostToNetwork(2))
  then have "bit (push_bit k (- 1 :: u32)) 0" by simp
  with k show False by (simp add: bit_simps)
qed

definition all_ones6 :: in6_addr where "all_ones6 = in6 (- 1) (- 1) (- 1) (- 1)"

lemma count_mask_v4:
  assumes "n \<le> 32"
  shows "CountIPMaskBits (TruncateIP (IP4 (- 1)) (int n)) = int n"
proof -
  let ?w = "push_bit (32 - n) (- 1 :: u32)"
  have "NetworkToHost32 (ipv4_address (TruncateIP (IP4 (- 1)) (int n))) = ?w"
  proof (cases "n = 0 \<or> n = 32")
    case True
    have "push_bit 32 (- 1 :: u32) = 0" by (rule bit_word_eqI) (auto simp: bit_simps)
    with True show ?thesis
      by (auto simp: TruncateIP_def families IPAddress_of_host_def INADDR_ANY_def NetworkToHost32_ones)
  next
    case False
    then have "0 < n" "n < 32" using assms by auto
    moreover have "push_bit (32 - n) (drop_bit (32 - n) (- 1)) = ?w"
      by (rule bit_word_eqI) (auto simp: bit_simps)
    ultimately show ?thesis by (simp add: TruncateIP_v4 IPAddress_of_host_def NetworkToHost32_ones(1) del: push_bit_minus_one)
  qed
  moreover have "ip_family (TruncateIP (IP4 (- 1)) (int n)) = AF_INET"
    by (simp add: TruncateIP_def families IPAddress_of_host_def Let_def)
  ultimately have "CountIPMaskBits (TruncateIP (IP4 (- 1)) (int n)) =
      (if ?w = 0 then 0 else 32 - count_zeroes ?w)"
    by (simp add: CountIPMaskBits_def del: push_bit_minus_one)
  also have "\<dots> = 32 - int (32 - n)" by (rule count_mask_word) simp
  finally show ?thesis using assms by simp
qed

lemma inner_mask_eq: "ucast (push_bit k (0xFFFFFFFF :: u64)) = (push_bit k (- 1) :: u32)"
proof (rule bit_word_eqI)
  fix i
  assume i: "i < LENGTH(32)"
  have "(0xFFFFFFFF :: u64) = mask 32" by (simp add: mask_eq_exp_minus_1)
  then have ones: "bit (0xFFFFFFFF :: u64) j \<longleftrightarrow> j < 32" for j
    by (simp only: bit_mask_iff) auto
  from i show "bit (ucast (push_bit k (0xFFFFFFFF :: u64)) :: u32) i = bit (push_bit k (- 1) :: u32) i"
    by (simp only: bit_unsigned_iff bit_push_bit_iff ones bit_minus_1_iff) (auto simp: possible_bit_word)
qed

lemma count_mask_v6:
  assumes "n \<le> 128"
  shows "CountIPMaskBits (TruncateIP (IP6 all_ones6) (int n)) = int n"
proof -
  consider "n = 0" | "n = 128" | "0 < n" "n < 128" using assms by linarith
  then show ?thesis
  proof cases
    case 1
    have any: "in6addr_any = in6 0 0 0 0" by code_simp
    show ?thesis by (simp add: 1 any TruncateIP_def families CountIPMaskBits_def NetworkToHost32_ones Let_def)
  next
    case 2
    then show ?thesis by (simp add: TruncateIP_def families CountIPMaskBits_def all_ones6_def all_ones32)
  next
    case 3
    define p r where "p = n div 32" and "r = n mod 32"
    define w where "w = (push_bit (32 - r) (- 1) :: u32)"
    have p: "p < 4" "r < 32" "n = p * 32 + r" using 3 by (auto simp: p_def r_def)
    have w: "HostToNetwork32 w \<noteq> - 1" using p(2) push_ones_not_ones [of "32 - r"] by (simp only: w_def) simp
    have wm: "NOT (mask (32 - r)) = w" by (simp add: w_def)
    have len: "32 - (n - p * 32) = 32 - r" using p(3) by simp
    have tr: "TruncateIP (IP6 all_ones6) (int n) = IP6 (in6 (truncate_word p w 0 (- 1)) (truncate_word p w 1 (- 1))
        (truncate_word p w 2 (- 1)) (truncate_word p w 3 (- 1)))"
      using 3 unfolding TruncateIP_def all_ones6_def
      by (simp add: families p_def [symmetric] len inner_mask_eq wm Let_def)
    have "CountIPMaskBits (TruncateIP (IP6 all_ones6) (int n)) =
        int p * 32 + (if w = 0 then 0 else 32 - count_zeroes w)"
    proof -
      consider "p = 0" | "p = 1" | "p = 2" | "p = 3" using p(1) by linarith
      then show ?thesis
        by cases (simp_all add: CountIPMaskBits_def tr truncate_word_def NetworkToHost32_ones families w all_ones32 Let_def)
    qed
    also have "(if w = 0 then 0 else 32 - count_zeroes w) = 32 - int (32 - r)"
      unfolding w_def by (rule count_mask_word) simp
    finally show ?thesis using p(2,3) by simp
  qed
qed

section \<open>Text of v4 addresses\<close>

lemma digit_char_0: "digit_char 0 = CHR ''0''"
  by code_simp

lemma hd_dec_nat: "0 < n \<Longrightarrow> hd (dec_nat n) \<noteq> CHR ''0''"
proof (induction n rule: dec_nat.induct)
  case (1 n)
  show ?case
  proof (cases "n < 10")
    case True
    with 1 have "digit_char n \<noteq> digit_char 0"
      using of_char_digit_char [of n] of_char_digit_char [of 0] by (metis add_left_cancel less_not_refl zero_less_numeral)
    with True show ?thesis by (simp add: dec_nat.simps [of n] digit_char_0)
  next
    case False
    then have "0 < n div 10" by (simp add: div_greater_zero_iff)
    with 1 False show ?thesis by (simp add: dec_nat.simps [of n])
  qed
qed

lemma pton_part_dec_nat: "pton_part (dec_nat (unat b)) = Some b"
proof -
  have "unat b < 256" using unsigned_less [of b] by simp
  moreover have "length (dec_nat (unat b)) > 1 \<Longrightarrow> 0 < unat b"
    by (cases "unat b = 0") (auto simp: dec_nat.simps [of 0])
  ultimately show ?thesis
    by (auto simp: pton_part_def list_all_iff dec_nat_digits digits_value_dec_nat hd_dec_nat)
qed

lemma split_dot_append:
  "CHR ''.'' \<notin> set s \<Longrightarrow> split_dot (s @ CHR ''.'' # t) = s # split_dot t"
  "CHR ''.'' \<notin> set s \<Longrightarrow> split_dot s = [s]"
  by (induction s) auto

lemma dec_nat_no_dot: "CHR ''.'' \<notin> set (dec_nat n)" "CHR 0x00 \<notin> set (dec_nat n)"
  using dec_nat_digits [of "CHR ''.''" n] dec_nat_digits [of "CHR 0x00" n] by (auto simp: isdigit_def)

lemma dotted4:
  "dotted [a, b, c, d] = dec_nat (unat a) @ CHR ''.'' # dec_nat (unat b) @ CHR ''.'' # dec_nat (unat c) @ CHR ''.'' # dec_nat (unat d)"
  by (simp add: dotted_def)

lemma c_str_dotted4: "c_str (dotted [a, b, c, d]) = dotted [a, b, c, d]"
  unfolding c_str_def takeWhile_eq_all_conv dotted4
  using dec_nat_no_dot(2) by auto

lemma le_bytes_4: "le_bytes 4 (w :: 'a::len word) = [ucast w, ucast (drop_bit 8 w), ucast (drop_bit 16 w), ucast (drop_bit 24 w)]"
  by (simp add: le_bytes_def upt_rec)

lemma inet_pton4_ntop4: "inet_pton4 (inet_ntop4 s) = Some s"
proof -
  obtain a b c d where m: "le_bytes 4 s = [a, b, c, d]"
    using le_bytes_4 by blast
  have "inet_pton4 (inet_ntop4 s) = Some (le_word [a, b, c, d])"
    unfolding inet_pton4_def inet_ntop4_def m c_str_dotted4
    by (simp add: dotted4 split_dot_append dec_nat_no_dot pton_part_dec_nat)
  also have "le_word [a, b, c, d] = s" unfolding m [symmetric] by (simp add: le_word_le_bytes)
  finally show ?thesis .
qed

section \<open>Properties\<close>

text \<open>
  \<^verbatim>\<open>operator<\<close> on addresses is a strict total order, unspecified before v4 before v6, that agrees with
  \<^verbatim>\<open>operator==\<close> and with \<^verbatim>\<open>operator>\<close>, and equal addresses have equal hashes, so that addresses can be keys of
  ordered and of hashed containers.
\<close>
theorem ip_addresses_are_ordered:
  "(ip_eq a b \<longleftrightarrow> a = b) \<and> (ip_less a b \<longleftrightarrow> a < b) \<and> (ip_greater a b \<longleftrightarrow> b < a) \<and>
   (ip_less a b \<longrightarrow> ip_less b c \<longrightarrow> ip_less a c) \<and>
   (\<not> ip_eq a b \<longrightarrow> (ip_less a b \<longleftrightarrow> \<not> ip_less b a)) \<and>
   (ip_eq a b \<longrightarrow> HashIP a = HashIP b) \<and>
   ip_less IP_unspec (IP4 x) \<and> ip_less (IP4 x) (IP6 y)"
proof (intro conjI)
  show "ip_greater a b \<longleftrightarrow> b < a"
    unfolding ip_greater_def less_IPAddress_def ip_eq_iff
    using ip_less_linear [of a b] ip_less_irrefl [of a] ip_less_trans [of a b a] by auto
  show "\<not> ip_eq a b \<longrightarrow> (ip_less a b \<longleftrightarrow> \<not> ip_less b a)"
    unfolding ip_eq_iff using ip_less_linear [of a b] ip_less_irrefl [of a] ip_less_trans [of a b a] by auto
  show "ip_less a b \<longrightarrow> ip_less b c \<longrightarrow> ip_less a c" by (blast intro: ip_less_trans)
qed (simp_all add: ip_eq_iff less_IPAddress_def ip_less_def families)

lemma ip_addresses_are_ordered_witness:
  "ip_less (IP4 1) (IP6 (in6 0 0 0 0)) \<and> ip_less IP_unspec (IP4 1) \<and> ip_less IP_unspec (IP6 (in6 0 0 0 0))"
  using ip_addresses_are_ordered [of IP_unspec "IP4 1" "IP6 (in6 0 0 0 0)" 1 "in6 0 0 0 0"] by blast

text \<open>
  The tests by shifted host-order integers are the reserved v4 ranges: an address is private exactly
  when it lies in 169.254/16, 127/8, 10/8, 172.16/12, 192.168/16 or 100.64/10, where lying in a range means
  that \<^verbatim>\<open>TruncateIP\<close> to the length of the prefix gives the prefix.
\<close>
theorem private_v4_ranges:
  "IPIsPrivate (IP4 s) \<longleftrightarrow>
     list_ex (\<lambda>(prefix, len). TruncateIP (IP4 s) len = IPAddress_of_host prefix)
       [(0xA9FE0000, 16), (0x7F000000, 8), (0x0A000000, 8), (0xAC100000, 12), (0xC0A80000, 16), (0x64400000, 10)]"
proof -
  have "TruncateIP (IP4 s) 16 = IPAddress_of_host 0xA9FE0000 \<longleftrightarrow> drop_bit 16 (NetworkToHost32 s) = 0xA9FE"
    "TruncateIP (IP4 s) 8 = IPAddress_of_host 0x7F000000 \<longleftrightarrow> drop_bit 24 (NetworkToHost32 s) = 0x7F"
    "TruncateIP (IP4 s) 8 = IPAddress_of_host 0x0A000000 \<longleftrightarrow> drop_bit 24 (NetworkToHost32 s) = 0x0A"
    "TruncateIP (IP4 s) 12 = IPAddress_of_host 0xAC100000 \<longleftrightarrow> drop_bit 20 (NetworkToHost32 s) = 0xAC1"
    "TruncateIP (IP4 s) 16 = IPAddress_of_host 0xC0A80000 \<longleftrightarrow> drop_bit 16 (NetworkToHost32 s) = 0xC0A8"
    "TruncateIP (IP4 s) 10 = IPAddress_of_host 0x64400000 \<longleftrightarrow> drop_bit 22 (NetworkToHost32 s) = 0x191"
    using in_prefix_v4 [of 16 "0xA9FE" s] in_prefix_v4 [of 8 "0x7F" s] in_prefix_v4 [of 8 "0x0A" s]
      in_prefix_v4 [of 12 "0xAC1" s] in_prefix_v4 [of 16 "0xC0A8" s] in_prefix_v4 [of 10 "0x191" s]
    by simp_all
  then show ?thesis
    by (auto simp: IPIsPrivate_def IPIsLinkLocal_def IPIsLinkLocalV4_def IPIsLoopback_def IPIsLoopbackV4_def
        IPIsPrivateNetwork_def IPIsPrivateNetworkV4_def IPIsSharedNetwork_def IPIsSharedNetworkV4_def
        v4AddressAsHostOrderInteger_def families Let_def)
qed

text \<open>
  A prefix length survives: cutting the all-ones address to \<open>n\<close> bits and counting the bits of the mask
  gives \<open>n\<close>, for both families and every length, the word boundaries of v6 included.
\<close>
theorem mask_length_roundtrip:
  "(n \<le> 32 \<longrightarrow> CountIPMaskBits (TruncateIP (IP4 (- 1)) (int n)) = int n) \<and>
   (n \<le> 128 \<longrightarrow> CountIPMaskBits (TruncateIP (IP6 all_ones6) (int n)) = int n)"
  using count_mask_v4 count_mask_v6 by blast

lemma mask_length_roundtrip_witness: "CountIPMaskBits (TruncateIP (IP6 all_ones6) 65) = 65"
  using mask_length_roundtrip [of 65] by simp

text \<open>
  For a mask with a hole \<^verbatim>\<open>CountIPMaskBits\<close> does not return the number of leading ones its comment
  promises: the bits behind the first zero are counted up to the lowest set bit of the word.
\<close>
theorem CountIPMaskBits_counts_holes:
  "CountIPMaskBits (IPAddress_of_host 0xFF00FF00) = 24 \<and> CountIPMaskBits (IPAddress_of_host 0x80000001) = 32"
  by code_simp

text \<open>
  The text of a v4 address parses back to the address, and a v4 address mapped to v6 normalizes to
  itself.
\<close>
theorem v4_text_and_mapping_roundtrip:
  "IPFromString pton6 (ip_ToString ntop6 (IP4 s)) = (True, IP4 s) \<and> Normalized (AsIPv6Address (IP4 s)) = IP4 s"
proof
  show "IPFromString pton6 (ip_ToString ntop6 (IP4 s)) = (True, IP4 s)"
    by (simp add: IPFromString_def ip_ToString_def families inet_pton4_ntop4)
next
  obtain a b c d where m: "le_bytes 4 s = [a, b, c, d]"
    using le_bytes_4 by blast
  have p: "take 12 (s6_addr kV4MappedPrefix) = [0, 0, 0, 0, 0, 0, 0, 0, 0, 0, 0xFF, 0xFF]" by code_simp
  have z: "le_bytes 4 (0 :: u32) = [0, 0, 0, 0]" "le_bytes 4 (0xFFFF0000 :: u32) = [0, 0, 0xFF, 0xFF]"
    by code_simp+
  have w: "le_word [a, b, c, d] = s" unfolding m [symmetric] by (simp add: le_word_le_bytes)
  have v6: "AsIPv6Address (IP4 s) = IP6 (in6 0 0 0xFFFF0000 s)"
    using w by (simp add: AsIPv6Address_def families p m in6_init_def Let_def)
  have bytes: "s6_addr (in6 0 0 0xFFFF0000 s) = [0, 0, 0, 0, 0, 0, 0, 0, 0, 0, 0xFF, 0xFF, a, b, c, d]"
    by (simp add: s6_addr_def z m)
  show "Normalized (AsIPv6Address (IP4 s)) = IP4 s"
    unfolding v6 Normalized_def IPIsV4Mapped_def IPIsHelper_def ExtractMappedAddress_def
    by (simp add: families bytes p w [simplified])
qed

end
