(* ===== verification/SockAddr.thy ===== *)
theory SockAddr
  imports IpAddr Crc
begin

text \<open>
  \<^verbatim>\<open>rtc_base/socket_address.{h,cc}\<close>, the part of \<^verbatim>\<open>rtc_base/strings/string_builder.cc\<close> it prints through,
  and \<^verbatim>\<open>sdp/ice_candidate.{h,cpp}\<close>, the host candidate the server offers.

  The model is the release build, where \<^verbatim>\<open>RTC_DCHECK\<close> does nothing: a port is cut to 16 bits and a text
  that does not fit the buffer is truncated.
\<close>

section \<open>SimpleStringBuilder\<close>

definition sb_Append :: "nat \<Rightarrow> string \<Rightarrow> string \<Rightarrow> string" where
  "sb_Append cap s str = s @ take (min (length str) (cap - length s - 1)) str"

definition sb_AppendFormat_u :: "nat \<Rightarrow> string \<Rightarrow> nat \<Rightarrow> string" where
  "sb_AppendFormat_u cap s n =
     (let formatted = dec_nat n in s @ take (min (length formatted) (cap - 1 - length s)) formatted)"

section \<open>SocketAddress\<close>

record SocketAddress =
  sa_hostname :: string
  sa_ip :: IPAddress
  sa_port :: u16
  sa_scope_id :: int
  sa_literal :: bool

definition sa_Clear :: SocketAddress where
  "sa_Clear = \<lparr>sa_hostname = [], sa_ip = IP_unspec, sa_port = 0, sa_scope_id = 0, sa_literal = False\<rparr>"

definition SetIP_host :: "u32 \<Rightarrow> SocketAddress \<Rightarrow> SocketAddress" where
  "SetIP_host ip_as_host_order_integer sa =
     sa\<lparr>sa_hostname := [], sa_literal := False, sa_ip := IPAddress_of_host ip_as_host_order_integer, sa_scope_id := 0\<rparr>"

definition SetIP_ip :: "IPAddress \<Rightarrow> SocketAddress \<Rightarrow> SocketAddress" where
  "SetIP_ip ip sa = sa\<lparr>sa_hostname := [], sa_literal := False, sa_ip := ip, sa_scope_id := 0\<rparr>"

definition SetIP_name :: "(string \<Rightarrow> in6_addr option) \<Rightarrow> string \<Rightarrow> SocketAddress \<Rightarrow> SocketAddress" where
  "SetIP_name pton6 hostname sa =
     (case IPFromString pton6 hostname of (literal, ip) \<Rightarrow>
        sa\<lparr>sa_hostname := hostname, sa_literal := literal, sa_ip := (if \<not> literal then IP_unspec else ip), sa_scope_id := 0\<rparr>)"

definition SetResolvedIP_host :: "u32 \<Rightarrow> SocketAddress \<Rightarrow> SocketAddress" where
  "SetResolvedIP_host ip_as_host_order_integer sa =
     sa\<lparr>sa_ip := IPAddress_of_host ip_as_host_order_integer, sa_scope_id := 0\<rparr>"

definition SetResolvedIP :: "IPAddress \<Rightarrow> SocketAddress \<Rightarrow> SocketAddress" where
  "SetResolvedIP ip sa = sa\<lparr>sa_ip := ip, sa_scope_id := 0\<rparr>"

definition SetPort :: "int \<Rightarrow> SocketAddress \<Rightarrow> SocketAddress" where
  "SetPort port sa = sa\<lparr>sa_port := word_of_int port\<rparr>"

definition SocketAddress_name :: "(string \<Rightarrow> in6_addr option) \<Rightarrow> string \<Rightarrow> int \<Rightarrow> SocketAddress" where
  "SocketAddress_name pton6 hostname port = SetPort port (SetIP_name pton6 hostname sa_Clear)"

definition SocketAddress_host :: "u32 \<Rightarrow> int \<Rightarrow> SocketAddress" where
  "SocketAddress_host ip port = SetPort port (SetIP_ip (IPAddress_of_host ip) sa_Clear)"

definition SocketAddress_ip :: "IPAddress \<Rightarrow> int \<Rightarrow> SocketAddress" where
  "SocketAddress_ip ip port = SetPort port (SetIP_ip ip sa_Clear)"

definition sa_IsNil :: "SocketAddress \<Rightarrow> bool" where
  "sa_IsNil sa = (sa_hostname sa = [] \<and> IPIsUnspec (sa_ip sa) \<and> 0 = sa_port sa)"

definition IsComplete :: "SocketAddress \<Rightarrow> bool" where
  "IsComplete sa = (\<not> IPIsAny (sa_ip sa) \<and> 0 \<noteq> sa_port sa)"

definition sa_ip_host :: "SocketAddress \<Rightarrow> u32" where
  "sa_ip_host sa = v4AddressAsHostOrderInteger (sa_ip sa)"

definition HostAsURIString :: "(in6_addr \<Rightarrow> string option) \<Rightarrow> SocketAddress \<Rightarrow> string" where
  "HostAsURIString ntop6 sa =
     (if \<not> sa_literal sa \<and> sa_hostname sa \<noteq> [] then sa_hostname sa
      else if ip_family (sa_ip sa) = AF_INET6 then ''['' @ ip_ToString ntop6 (sa_ip sa) @ '']''
      else ip_ToString ntop6 (sa_ip sa))"

definition HostAsSensitiveURIString :: "(in6_addr \<Rightarrow> string option) \<Rightarrow> SocketAddress \<Rightarrow> string" where
  "HostAsSensitiveURIString ntop6 sa =
     (if \<not> sa_literal sa \<and> sa_hostname sa \<noteq> [] then sa_hostname sa
      else if ip_family (sa_ip sa) = AF_INET6 then ''['' @ ip_ToSensitiveString ntop6 (sa_ip sa) @ '']''
      else ip_ToSensitiveString ntop6 (sa_ip sa))"

definition PortAsString :: "SocketAddress \<Rightarrow> string" where
  "PortAsString sa = dec_nat (unat (sa_port sa))"

text \<open>Host, colon and port through a buffer of 1024 characters, read back as a C string.\<close>

definition host_and_port :: "string \<Rightarrow> u16 \<Rightarrow> string" where
  "host_and_port host port = c_str (sb_AppendFormat_u 1024 (sb_Append 1024 (sb_Append 1024 [] host) '':'') (unat port))"

definition sa_ToString :: "(in6_addr \<Rightarrow> string option) \<Rightarrow> SocketAddress \<Rightarrow> string" where
  "sa_ToString ntop6 sa = host_and_port (HostAsURIString ntop6 sa) (sa_port sa)"

definition sa_ToSensitiveString :: "(in6_addr \<Rightarrow> string option) \<Rightarrow> SocketAddress \<Rightarrow> string" where
  "sa_ToSensitiveString ntop6 sa = host_and_port (HostAsSensitiveURIString ntop6 sa) (sa_port sa)"

definition IsUnresolvedIP :: "SocketAddress \<Rightarrow> bool" where
  "IsUnresolvedIP sa = (IPIsUnspec (sa_ip sa) \<and> \<not> sa_literal sa \<and> sa_hostname sa \<noteq> [])"

definition ToResolvedSensitiveString :: "(in6_addr \<Rightarrow> string option) \<Rightarrow> SocketAddress \<Rightarrow> string" where
  "ToResolvedSensitiveString ntop6 sa =
     (if IsUnresolvedIP sa then [] else host_and_port (ip_ToSensitiveString ntop6 (sa_ip sa)) (sa_port sa))"

text \<open>\<^verbatim>\<open>strtoul(s, nullptr, 10)\<close> as it is converted to the int argument of \<^verbatim>\<open>SetPort\<close>.\<close>

definition strtoul :: "string \<Rightarrow> nat" where
  "strtoul s =
     (case int_text (c_str s) of
        None \<Rightarrow> 0
      | Some i \<Rightarrow> if \<bar>i\<bar> \<ge> 2 ^ 64 then 2 ^ 64 - 1 else nat (i mod 2 ^ 64))"

definition to_int32 :: "nat \<Rightarrow> int" where
  "to_int32 n = sint (of_nat n :: 32 word)"

fun rfind :: "char \<Rightarrow> string \<Rightarrow> nat option" where
  "rfind x [] = None"
| "rfind x (c # cs) =
     (case rfind x cs of Some p \<Rightarrow> Some (Suc p) | None \<Rightarrow> if c = x then Some 0 else None)"

text \<open>The result and the address after the call; \<^verbatim>\<open>str.at(0)\<close> throws for the empty text.\<close>

definition sa_FromString :: "(string \<Rightarrow> in6_addr option) \<Rightarrow> string \<Rightarrow> SocketAddress \<Rightarrow> (bool \<times> SocketAddress) res" where
  "sa_FromString pton6 str sa =
     (case str of
        [] \<Rightarrow> crash UncaughtException
      | c # _ \<Rightarrow>
          if c = CHR ''['' then
            (case rfind (CHR '']'') str of
               None \<Rightarrow> ok (True, sa)
             | Some closebracket \<Rightarrow>
                 (case str_find str '':'' closebracket of
                    None \<Rightarrow> ok (False, sa)
                  | Some colon \<Rightarrow>
                      if colon > closebracket
                      then ok (True, SetIP_name pton6 (take (closebracket - 1) (drop 1 str))
                                       (SetPort (to_int32 (strtoul (drop (colon + 1) str))) sa))
                      else ok (False, sa)))
          else
            (case str_find str '':'' 0 of
               None \<Rightarrow> ok (False, sa)
             | Some pos \<Rightarrow>
                 ok (True, SetIP_name pton6 (take pos str) (SetPort (to_int32 (strtoul (drop (pos + 1) str))) sa))))"

definition IsAnyIP :: "SocketAddress \<Rightarrow> bool" where "IsAnyIP sa = IPIsAny (sa_ip sa)"

definition IsLoopbackIP :: "SocketAddress \<Rightarrow> bool" where
  "IsLoopbackIP sa = (IPIsLoopback (sa_ip sa) \<or> (IPIsAny (sa_ip sa) \<and> c_str (sa_hostname sa) = ''localhost''))"

definition IsPrivateIP :: "SocketAddress \<Rightarrow> bool" where "IsPrivateIP sa = IPIsPrivate (sa_ip sa)"

definition EqualIPs :: "SocketAddress \<Rightarrow> SocketAddress \<Rightarrow> bool" where
  "EqualIPs a b =
     (ip_eq (sa_ip a) (sa_ip b) \<and>
      ((\<not> IPIsAny (sa_ip a) \<and> \<not> IPIsUnspec (sa_ip a)) \<or> sa_hostname a = sa_hostname b))"

definition EqualPorts :: "SocketAddress \<Rightarrow> SocketAddress \<Rightarrow> bool" where
  "EqualPorts a b = (sa_port a = sa_port b)"

definition sa_eq :: "SocketAddress \<Rightarrow> SocketAddress \<Rightarrow> bool" where
  "sa_eq a b = (EqualIPs a b \<and> EqualPorts a b)"

text \<open>\<^verbatim>\<open>std::string::operator<\<close>: characters compare as unsigned bytes.\<close>

fun string_less :: "string \<Rightarrow> string \<Rightarrow> bool" where
  "string_less [] [] = False"
| "string_less [] (_ # _) = True"
| "string_less (_ # _) [] = False"
| "string_less (c # cs) (d # ds) =
     ((of_char c :: nat) < of_char d \<or> (c = d \<and> string_less cs ds))"

definition sa_less :: "SocketAddress \<Rightarrow> SocketAddress \<Rightarrow> bool" where
  "sa_less a b =
     (if \<not> ip_eq (sa_ip a) (sa_ip b) then ip_less (sa_ip a) (sa_ip b)
      else if (IPIsAny (sa_ip a) \<or> IPIsUnspec (sa_ip a)) \<and> sa_hostname a \<noteq> sa_hostname b
        then string_less (sa_hostname a) (sa_hostname b)
      else sa_port a < sa_port b)"

text \<open>\<^verbatim>\<open>port_ << 16\<close> is computed as an int and sign-extended to 64 bits.\<close>

definition sa_Hash :: "SocketAddress \<Rightarrow> u64" where
  "sa_Hash sa =
     (let port = (ucast (sa_port sa) :: 32 word)
      in HashIP (sa_ip sa) XOR scast (port OR push_bit 16 port))"

record sockaddr_in =
  sin_family :: int
  sin_port :: u16
  sin_addr :: u32

definition ToSockAddr :: "SocketAddress \<Rightarrow> sockaddr_in" where
  "ToSockAddr sa =
     (if ip_family (sa_ip sa) \<noteq> AF_INET then \<lparr>sin_family = AF_UNSPEC, sin_port = 0, sin_addr = 0\<rparr>
      else \<lparr>sin_family = AF_INET, sin_port = HostToNetwork16 (sa_port sa),
            sin_addr = (if IPIsAny (sa_ip sa) then INADDR_ANY else ipv4_address (sa_ip sa))\<rparr>)"

definition FromSockAddr :: "sockaddr_in \<Rightarrow> SocketAddress \<Rightarrow> bool \<times> SocketAddress" where
  "FromSockAddr saddr sa =
     (if sin_family saddr \<noteq> AF_INET then (False, sa)
      else (True, (SetPort (uint (NetworkToHost16 (sin_port saddr)))
                    (SetIP_host (NetworkToHost32 (sin_addr saddr)) sa))\<lparr>sa_literal := False\<rparr>))"

text \<open>A \<^verbatim>\<open>sockaddr_storage\<close> by the family its first field holds.\<close>

datatype sockaddr_storage =
    ss_none int
  | ss_in u32 u16
  | ss_in6 in6_addr u16 int

definition ToSockAddrStorageHelper :: "IPAddress \<Rightarrow> u16 \<Rightarrow> int \<Rightarrow> nat \<times> sockaddr_storage" where
  "ToSockAddrStorageHelper ip port scope_id =
     (if ip_family ip = AF_INET6 then (28, ss_in6 (ipv6_address ip) (HostToNetwork16 port) scope_id)
      else if ip_family ip = AF_INET then (16, ss_in (ipv4_address ip) (HostToNetwork16 port))
      else (0, ss_none (ip_family ip)))"

definition ToDualStackSockAddrStorage :: "SocketAddress \<Rightarrow> nat \<times> sockaddr_storage" where
  "ToDualStackSockAddrStorage sa = ToSockAddrStorageHelper (AsIPv6Address (sa_ip sa)) (sa_port sa) (sa_scope_id sa)"

definition ToSockAddrStorage :: "SocketAddress \<Rightarrow> nat \<times> sockaddr_storage" where
  "ToSockAddrStorage sa = ToSockAddrStorageHelper (sa_ip sa) (sa_port sa) (sa_scope_id sa)"

fun SocketAddressFromSockAddrStorage :: "sockaddr_storage \<Rightarrow> SocketAddress option" where
  "SocketAddressFromSockAddrStorage (ss_in a p) = Some (SocketAddress_ip (IP4 a) (uint (NetworkToHost16 p)))"
| "SocketAddressFromSockAddrStorage (ss_in6 a p scope_id) =
     Some ((SocketAddress_ip (IP6 a) (uint (NetworkToHost16 p)))\<lparr>sa_scope_id := scope_id\<rparr>)"
| "SocketAddressFromSockAddrStorage (ss_none _) = None"

definition EmptySocketAddressWithFamily :: "int \<Rightarrow> SocketAddress" where
  "EmptySocketAddressWithFamily fam =
     (if fam = AF_INET then SocketAddress_ip (IPAddress_of_host INADDR_ANY) 0
      else if fam = AF_INET6 then SocketAddress_ip (IP6 in6addr_any) 0
      else sa_Clear)"

section \<open>IceCandidate\<close>

definition LOCAL_PORT_TYPE :: string where "LOCAL_PORT_TYPE = ''host''"

datatype IceCandidateComponent = RTP | RTCP

fun component_value :: "IceCandidateComponent \<Rightarrow> int" where
  "component_value RTP = 1"
| "component_value RTCP = 2"

definition ICE_TYPE_PREFERENCE_HOST :: u32 where "ICE_TYPE_PREFERENCE_HOST = 126"

record IceCandidate =
  ca_component :: IceCandidateComponent
  ca_protocol :: string
  ca_address :: SocketAddress
  ca_port :: int
  ca_priority :: u32
  ca_username :: string
  ca_password :: string
  ca_type :: string
  ca_foundation :: string

text \<open>
  The constructor leaves the component and the priority unset; the model gives them a value, and
  the only caller assigns both before anything reads them.
\<close>

definition IceCandidate_new :: "(string \<Rightarrow> in6_addr option) \<Rightarrow> string \<Rightarrow> int \<Rightarrow> IceCandidate" where
  "IceCandidate_new pton6 ipstr port =
     \<lparr>ca_component = RTP, ca_protocol = ''udp'', ca_address = SocketAddress_name pton6 ipstr port, ca_port = port,
      ca_priority = 0, ca_username = [], ca_password = [], ca_type = [], ca_foundation = []\<rparr>"

text \<open>The shifts and the sum are on 32-bit ints, the result is converted to \<^verbatim>\<open>uint32_t\<close>.\<close>

definition get_priority :: "u32 \<Rightarrow> u32 \<Rightarrow> u32 \<Rightarrow> IceCandidate \<Rightarrow> u32" where
  "get_priority type_preference network_adapter_preference relay_preference ca =
     (let addr_ref = word_of_int (IPAddressPrecedence (sa_ip (ca_address ca)));
          local_pref = (push_bit 8 network_adapter_preference OR addr_ref) + relay_preference
      in push_bit 24 type_preference OR push_bit 8 local_pref OR word_of_int (256 - component_value (ca_component ca)))"

definition compute_foundation :: "(in6_addr \<Rightarrow> string option) \<Rightarrow> string \<Rightarrow> string \<Rightarrow> string \<Rightarrow> SocketAddress \<Rightarrow> string" where
  "compute_foundation ntop6 type protocol relay_protocol base =
     dec_nat (unat (ComputeCrc32 (bytes_of_string (type @ HostAsURIString ntop6 base @ protocol @ relay_protocol))))"

definition ca_to_string :: "IceCandidate \<Rightarrow> string" where
  "ca_to_string ca = []"

section \<open>Lemmas\<close>

lemma string_less_irrefl: "\<not> string_less s s"
  by (induction s) auto

lemma string_less_trans: "string_less a b \<Longrightarrow> string_less b c \<Longrightarrow> string_less a c"
proof (induction a b arbitrary: c rule: string_less.induct)
  case (2 d ds)
  then show ?case by (cases c) auto
next
  case (4 x xs y ys)
  then show ?case by (cases c) auto
qed auto

lemma string_less_linear: "string_less a b \<or> a = b \<or> string_less b a"
proof (induction a b rule: string_less.induct)
  case (4 x xs y ys)
  show ?case
  proof (cases "x = y")
    case False
    then have "(of_char x :: nat) < of_char y \<or> (of_char y :: nat) < of_char x"
      by (metis linorder_neqE_nat of_char_eq_iff)
    then show ?thesis by auto
  qed (use 4 in auto)
qed auto

lemmas sa_order_defs = sa_less_def sa_eq_def EqualIPs_def EqualPorts_def ip_eq_iff

lemma sa_trichotomy: "sa_less a b \<or> sa_eq a b \<or> sa_less b a"
proof (cases "sa_ip a = sa_ip b")
  case True
  then show ?thesis
    using string_less_linear [of "sa_hostname a" "sa_hostname b"] by (auto simp: sa_order_defs)
next
  case False
  then show ?thesis using ip_less_linear [of "sa_ip a" "sa_ip b"] by (auto simp: sa_order_defs)
qed

lemma sa_less_irrefl: "\<not> sa_less a a"
  by (simp add: sa_order_defs)

lemma sa_less_trans:
  assumes "sa_less a b" "sa_less b c" shows "sa_less a c"
proof (cases "sa_ip a = sa_ip b \<and> sa_ip b = sa_ip c")
  case True
  with assms show ?thesis
    using string_less_trans [of "sa_hostname a" "sa_hostname b" "sa_hostname c"]
      string_less_irrefl [of "sa_hostname a"]
    by (auto simp: sa_order_defs split: if_splits)
next
  case False
  have l: "ip_less (sa_ip x) (sa_ip y)" if "sa_less x y" "sa_ip x \<noteq> sa_ip y" for x y
    using that by (simp add: sa_order_defs)
  have "ip_less (sa_ip a) (sa_ip c)"
    using False l [OF assms(1)] l [OF assms(2)] ip_less_trans by metis
  then show ?thesis using ip_less_irrefl [of "sa_ip a"] by (auto simp: sa_order_defs)
qed

lemma sa_eq_not_less: "sa_eq a b \<Longrightarrow> \<not> sa_less a b"
  by (auto simp: sa_order_defs)

lemma sa_eq_sym: "sa_eq a b \<longleftrightarrow> sa_eq b a"
  by (auto simp: sa_order_defs)

lemma length_dec_nat: "n < 10 ^ k \<Longrightarrow> 0 < k \<Longrightarrow> length (dec_nat n) \<le> k"
proof (induction n arbitrary: k rule: dec_nat.induct)
  case (1 n)
  show ?case
  proof (cases "n < 10")
    case True
    with 1 show ?thesis by (simp add: dec_nat.simps [of n])
  next
    case False
    then have "k \<noteq> 1" using 1(2) by auto
    then obtain k' where k: "k = Suc k'" "0 < k'" using 1(3) by (cases k) auto
    have "n div 10 < 10 ^ k'" using 1(2) k by (simp add: less_mult_imp_div_less)
    from 1(1) [OF False this k(2)] show ?thesis using False k by (simp add: dec_nat.simps [of n])
  qed
qed

lemma length_byte_text: "length (dec_nat (unat (b :: byte))) \<le> 3"
proof -
  have "unat b < 256" using unsigned_less [of b] by simp
  then show ?thesis using length_dec_nat [of "unat b" 3] by simp
qed

lemma v4_text_props:
  "length (inet_ntop4 s) \<le> 15" "CHR '':'' \<notin> set (inet_ntop4 s)" "inet_ntop4 s \<noteq> []" "hd (inet_ntop4 s) \<noteq> CHR ''[''"
  "c_str (inet_ntop4 s) = inet_ntop4 s"
proof -
  obtain a b c d where m: "le_bytes 4 s = [a, b, c, d]" using le_bytes_4 by blast
  note f = inet_ntop4_def m dotted4
  show "length (inet_ntop4 s) \<le> 15"
    using length_byte_text [of a] length_byte_text [of b] length_byte_text [of c] length_byte_text [of d]
    by (simp add: f)
  have nd: "CHR '':'' \<notin> set (dec_nat n)" "CHR ''['' \<notin> set (dec_nat n)" for n
    using dec_nat_digits [of "CHR '':''" n] dec_nat_digits [of "CHR ''[''" n] by (auto simp: isdigit_def)
  show "CHR '':'' \<notin> set (inet_ntop4 s)" using nd by (simp add: f)
  show "inet_ntop4 s \<noteq> []" by (simp add: f)
  have "hd (dec_nat (unat a)) \<in> set (dec_nat (unat a))" by simp
  with nd(2) [of "unat a"] have "hd (dec_nat (unat a)) \<noteq> CHR ''[''" by metis
  then show "hd (inet_ntop4 s) \<noteq> CHR ''[''" by (simp add: f)
  show "c_str (inet_ntop4 s) = inet_ntop4 s" by (simp add: inet_ntop4_def m c_str_dotted4)
qed

lemma c_str_append: "c_str s = s \<Longrightarrow> c_str (s @ t) = s @ c_str t"
  by (simp add: c_str_def takeWhile_eq_all_conv)

lemma c_str_dec_nat [simp]: "c_str (dec_nat n) = dec_nat n"
  using dec_nat_no_dot(2) [of n] by (auto simp: c_str_def takeWhile_eq_all_conv)

lemma port_text: "unat (p :: u16) < 65536" "length (dec_nat (unat p)) \<le> 5"
proof -
  show "unat p < 65536" using unsigned_less [of p] by simp
  then show "length (dec_nat (unat p)) \<le> 5" using length_dec_nat [of "unat p" 5] by simp
qed

lemma host_and_port_v4: "host_and_port (inet_ntop4 s) p = inet_ntop4 s @ '':'' @ dec_nat (unat p)"
proof -
  have "host_and_port (inet_ntop4 s) p = c_str (inet_ntop4 s @ '':'' @ dec_nat (unat p))"
    using v4_text_props(1) [of s] port_text(2) [of p]
    by (simp add: host_and_port_def sb_Append_def sb_AppendFormat_u_def Let_def)
  also have "\<dots> = inet_ntop4 s @ '':'' @ dec_nat (unat p)"
  proof -
    have "c_str ('':'' @ dec_nat (unat p)) = '':'' @ c_str (dec_nat (unat p))" by (simp add: c_str_def)
    then show ?thesis by (simp only: c_str_append [OF v4_text_props(5)] c_str_dec_nat)
  qed
  finally show ?thesis .
qed

lemma strtoul_dec_nat: "n < 2 ^ 64 \<Longrightarrow> strtoul (dec_nat n) = n"
  by (simp add: strtoul_def int_text_dec_nat)

section \<open>Properties\<close>

text \<open>
  Exactly one of \<^verbatim>\<open>a < b\<close>, \<^verbatim>\<open>a == b\<close> and \<^verbatim>\<open>b < a\<close> holds for two socket addresses, \<^verbatim>\<open>operator<\<close> is transitive, and
  equal addresses hash alike; the host name counts only for the any address and for unresolved ones.
\<close>
theorem socket_addresses_are_ordered:
  "(sa_less a b \<or> sa_eq a b \<or> sa_less b a) \<and> \<not> (sa_less a b \<and> sa_less b a) \<and> \<not> (sa_less a b \<and> sa_eq a b) \<and>
   (sa_less a b \<longrightarrow> sa_less b c \<longrightarrow> sa_less a c) \<and> (sa_eq a b \<longrightarrow> sa_Hash a = sa_Hash b)"
proof (intro conjI)
  show "sa_less a b \<or> sa_eq a b \<or> sa_less b a" by (rule sa_trichotomy)
  show "\<not> (sa_less a b \<and> sa_less b a)" using sa_less_trans sa_less_irrefl by blast
  show "\<not> (sa_less a b \<and> sa_eq a b)" using sa_eq_not_less by blast
  show "sa_less a b \<longrightarrow> sa_less b c \<longrightarrow> sa_less a c" using sa_less_trans by blast
  show "sa_eq a b \<longrightarrow> sa_Hash a = sa_Hash b" by (simp add: sa_order_defs sa_Hash_def)
qed

lemma socket_addresses_are_ordered_witness:
  "sa_less (SocketAddress_host 1 5) (SocketAddress_ip (IP6 in6addr_any) 7)"
  using socket_addresses_are_ordered [of "SocketAddress_host 1 5" "SocketAddress_host 2 5" "SocketAddress_ip (IP6 in6addr_any) 7"]
  by (simp add: sa_order_defs SocketAddress_host_def SocketAddress_ip_def SetPort_def SetIP_ip_def IPAddress_of_host_def
      ip_less_def families NetworkToHost32_inject)

lemma SetPort_uint: "SetPort (uint p) sa = sa\<lparr>sa_port := p\<rparr>"
  by (simp add: SetPort_def)

lemma to_int32_port: "to_int32 (unat (p :: u16)) = uint p"
proof -
  have "uint p < 2 ^ 16" using uint_lt2p [of p] by simp
  then have "sint (word_of_int (uint p) :: 32 word) = uint p"
    unfolding sint_sbintrunc' by (intro signed_take_bit_int_eq_self) (auto intro: order_trans [of _ 0])
  moreover have "(of_nat (unat p) :: 32 word) = word_of_int (uint p)" by (metis of_int_of_nat_eq uint_nat)
  ultimately show ?thesis by (simp only: to_int32_def)
qed

lemma sa_FromString_v4:
  "sa_FromString pton6 (inet_ntop4 s @ '':'' @ dec_nat (unat p)) x =
     ok (True, x\<lparr>sa_hostname := inet_ntop4 s, sa_ip := IP4 s, sa_port := p, sa_scope_id := 0, sa_literal := True\<rparr>)"
proof -
  let ?str = "inet_ntop4 s @ '':'' @ dec_nat (unat p)"
  obtain c cs where str: "?str = c # cs" "c \<noteq> CHR ''[''"
    using v4_text_props(3,4) [of s] by (cases "inet_ntop4 s") auto
  have pos: "str_find ?str '':'' 0 = Some (length (inet_ntop4 s))"
    using v4_text_props(2) [of s] by (simp add: str_find_single takeWhile_append)
  have parts: "take (length (inet_ntop4 s)) ?str = inet_ntop4 s" "drop (length (inet_ntop4 s) + 1) ?str = dec_nat (unat p)"
    by simp_all
  have "sa_FromString pton6 ?str x =
      ok (True, SetIP_name pton6 (inet_ntop4 s) (SetPort (to_int32 (strtoul (dec_nat (unat p)))) x))"
    using str(2) pos parts unfolding sa_FromString_def str(1) by simp
  moreover have "strtoul (dec_nat (unat p)) = unat p"
    using port_text(1) [of p] by (intro strtoul_dec_nat) simp
  moreover have "IPFromString pton6 (inet_ntop4 s) = (True, IP4 s)"
    by (simp add: IPFromString_def inet_pton4_ntop4)
  ultimately show ?thesis by (simp add: SetIP_name_def to_int32_port SetPort_uint)
qed

lemma IPIsAny_v4: "IPIsAny (IP4 s) \<longleftrightarrow> s = 0"
  by (simp add: IPIsAny_def families ip_eq_iff IPAddress_of_host_def INADDR_ANY_def NetworkToHost32_ones)

text \<open>
  C32: A v4 endpoint survives printing and parsing, and the conversions to and from \<^verbatim>\<open>sockaddr_in\<close> and
  \<^verbatim>\<open>sockaddr_storage\<close>; parsing keeps the text as the host name and marks it literal.
\<close>
theorem v4_endpoint_roundtrips:
  assumes "sa_ip sa = IP4 s" "sa_literal sa \<or> sa_hostname sa = []"
  shows "sa_FromString pton6 (sa_ToString ntop6 sa) x =
      ok (True, x\<lparr>sa_hostname := inet_ntop4 s, sa_ip := IP4 s, sa_port := sa_port sa, sa_scope_id := 0, sa_literal := True\<rparr>) \<and>
    FromSockAddr (ToSockAddr sa) x =
      (True, x\<lparr>sa_hostname := [], sa_ip := IP4 s, sa_port := sa_port sa, sa_scope_id := 0, sa_literal := False\<rparr>) \<and>
    SocketAddressFromSockAddrStorage (snd (ToSockAddrStorage sa)) = Some (SocketAddress_ip (IP4 s) (uint (sa_port sa)))"
proof (intro conjI)
  have "HostAsURIString ntop6 sa = inet_ntop4 s"
    using assms by (auto simp: HostAsURIString_def families ip_ToString_def)
  then have "sa_ToString ntop6 sa = inet_ntop4 s @ '':'' @ dec_nat (unat (sa_port sa))"
    by (simp only: sa_ToString_def host_and_port_v4)
  then show "sa_FromString pton6 (sa_ToString ntop6 sa) x =
      ok (True, x\<lparr>sa_hostname := inet_ntop4 s, sa_ip := IP4 s, sa_port := sa_port sa, sa_scope_id := 0, sa_literal := True\<rparr>)"
    by (simp only: sa_FromString_v4)
  show "FromSockAddr (ToSockAddr sa) x =
      (True, x\<lparr>sa_hostname := [], sa_ip := IP4 s, sa_port := sa_port sa, sa_scope_id := 0, sa_literal := False\<rparr>)"
    using assms(1)
    by (simp add: FromSockAddr_def ToSockAddr_def families IPIsAny_v4 INADDR_ANY_def SetIP_host_def SetPort_uint
        IPAddress_of_host_def)
  show "SocketAddressFromSockAddrStorage (snd (ToSockAddrStorage sa)) = Some (SocketAddress_ip (IP4 s) (uint (sa_port sa)))"
    using assms(1) by (simp add: ToSockAddrStorage_def ToSockAddrStorageHelper_def families)
qed

lemma v4_endpoint_roundtrips_witness:
  "\<exists>x. sa_FromString (\<lambda>_. None) (sa_ToString (\<lambda>_. None) (SocketAddress_host 0x7F000001 5000)) sa_Clear = ok (True, x)"
  using v4_endpoint_roundtrips [of "SocketAddress_host 0x7F000001 5000" "HostToNetwork32 0x7F000001" "\<lambda>_. None" "\<lambda>_. None" sa_Clear]
  by (simp add: SocketAddress_host_def SetPort_def SetIP_ip_def IPAddress_of_host_def sa_Clear_def)

lemma push_or_of_nat:
  assumes "b < 2 ^ k"
  shows "push_bit k (of_nat a) OR of_nat b = (of_nat (a * 2 ^ k + b) :: 'a::len word)"
proof -
  have "push_bit k a AND b = 0"
  proof (rule bit_eqI)
    fix i
    have "b = take_bit k b" using assms by (simp add: take_bit_nat_eq_self)
    then have "bit b i \<Longrightarrow> i < k" by (metis bit_take_bit_iff)
    then show "bit (push_bit k a AND b) i = bit 0 i" by (auto simp: bit_simps)
  qed
  then have "push_bit k a OR b = a * 2 ^ k + b"
    by (simp add: disjunctive_add_eq_or [symmetric] push_bit_eq_mult)
  then show ?thesis by (metis of_nat_or_eq push_bit_of_nat)
qed

lemma push_of_nat: "push_bit k (of_nat a) = (of_nat (a * 2 ^ k) :: 'a::len word)"
  by (simp add: push_bit_of_nat push_bit_eq_mult)

lemma IPAddressPrecedence_bounds: "0 \<le> IPAddressPrecedence ip" "IPAddressPrecedence ip \<le> 60"
  by (simp_all add: IPAddressPrecedence_def)

text \<open>
  C30: The shifts of \<^verbatim>\<open>get_priority\<close> compute the formula in its comment, without overflow, for every type
  preference and adapter preference of a byte and a relay preference that keeps the local
  preference below \<open>2 ^ 16\<close>.
\<close>
theorem candidate_priority_formula:
  assumes "t < 2 ^ 8" "n * 2 ^ 8 + nat (IPAddressPrecedence (sa_ip (ca_address ca))) + r < 2 ^ 16"
  shows "unat (get_priority (of_nat t) (of_nat n) (of_nat r) ca) =
    2 ^ 24 * t + 2 ^ 8 * (n * 2 ^ 8 + nat (IPAddressPrecedence (sa_ip (ca_address ca))) + r) +
      (256 - nat (component_value (ca_component ca)))"
proof -
  define pr where "pr = nat (IPAddressPrecedence (sa_ip (ca_address ca)))"
  define L where "L = n * 2 ^ 8 + pr + r"
  define c where "c = 256 - nat (component_value (ca_component ca))"
  have pr: "pr < 2 ^ 8" using IPAddressPrecedence_bounds [of "sa_ip (ca_address ca)"] by (simp add: pr_def)
  have c: "c < 2 ^ 8" "word_of_int (256 - component_value (ca_component ca)) = (of_nat c :: u32)"
    by (cases "ca_component ca"; simp add: c_def)+
  have "(word_of_int (IPAddressPrecedence (sa_ip (ca_address ca))) :: u32) = of_nat pr"
    using IPAddressPrecedence_bounds(1) [of "sa_ip (ca_address ca)"] by (simp add: pr_def)
  then have local: "(push_bit 8 (of_nat n) OR word_of_int (IPAddressPrecedence (sa_ip (ca_address ca)))) + of_nat r = (of_nat L :: u32)"
    using push_or_of_nat [OF pr, of n, where 'a=32] by (simp add: L_def)
  have "L * 2 ^ 8 < 2 ^ 24" using assms(2) by (simp add: L_def pr_def)
  then have high: "push_bit 24 (of_nat t) OR push_bit 8 (of_nat L) = (push_bit 8 (of_nat (t * 2 ^ 16 + L)) :: u32)"
    using push_or_of_nat [of "L * 2 ^ 8" 24 t, where 'a=32] push_of_nat [of 8 L, where 'a=32]
      push_of_nat [of 8 "t * 2 ^ 16 + L", where 'a=32] by (simp add: algebra_simps)
  have "get_priority (of_nat t) (of_nat n) (of_nat r) ca = push_bit 8 (of_nat (t * 2 ^ 16 + L)) OR of_nat c"
    unfolding get_priority_def Let_def local c(2) high [symmetric] by (simp only: or.assoc)
  also have "\<dots> = of_nat ((t * 2 ^ 16 + L) * 2 ^ 8 + c)"
    by (rule push_or_of_nat [OF c(1)])
  finally have "get_priority (of_nat t) (of_nat n) (of_nat r) ca = of_nat ((t * 2 ^ 16 + L) * 2 ^ 8 + c)" .
  moreover have "(t * 2 ^ 16 + L) * 2 ^ 8 + c < 2 ^ 32"
    using assms c(1) by (simp add: L_def pr_def)
  ultimately have "unat (get_priority (of_nat t) (of_nat n) (of_nat r) ca) = (t * 2 ^ 16 + L) * 2 ^ 8 + c"
    by (simp only: unat_of_nat) simp
  then show ?thesis by (simp add: L_def c_def pr_def)
qed

lemma candidate_priority_formula_witness:
  "unat (get_priority 126 0 0 (IceCandidate_new (\<lambda>_. None) (inet_ntop4 7) 5000)) = 2113937151"
proof -
  have "IPAddressPrecedence (sa_ip (ca_address (IceCandidate_new (\<lambda>_. None) (inet_ntop4 7) 5000))) = 30"
    by (simp add: IceCandidate_new_def SocketAddress_name_def SetPort_def SetIP_name_def IPFromString_def
        inet_pton4_ntop4 IPAddressPrecedence_def families)
  then show ?thesis
    using candidate_priority_formula [of 126 0 "IceCandidate_new (\<lambda>_. None) (inet_ntop4 7) 5000" 0]
    by (simp add: IceCandidate_new_def)
qed

end
