(* ===== verification/RandomIds.thy ===== *)
theory RandomIds
  imports ByteOrder "HOL-Library.Monad_Syntax"
begin

text \<open>
  \<^verbatim>\<open>rtc_base/helpers.cc\<close>: random strings (the ICE user names and passwords of the server's answers),
  random bytes, UUIDs and ids.

  The random bytes of OpenSSL are the parameter \<open>rand_bytes\<close> over a state \<open>'o\<close>, with \<open>None\<close> for failure; the
  generator for tests is modelled. The global generator is threaded through as state. Bytes that a
  failed call leaves unset are read by the functions that ignore its result: the fault
  \<open>Uninitialised\<close>.
\<close>

definition kBase64 :: string where
  "kBase64 = ''ABCDEFGHIJKLMNOPQRSTUVWXYZabcdefghijklmnopqrstuvwxyz0123456789+/''"

definition kHex :: string where "kHex = ''0123456789abcdef''"

definition kUuidDigit17 :: string where "kUuidDigit17 = ''89ab''"

section \<open>The generators\<close>

text \<open>\<open>rg_test\<close> holds the seed of the test generator while it is the global one.\<close>

record 'o rng =
  rg_test :: "u32 option"
  rg_os :: 'o

type_synonym 'o rand_bytes = "nat \<Rightarrow> 'o \<Rightarrow> bytes option \<times> 'o"

definition SetRandomTestMode :: "bool \<Rightarrow> 'o rng \<Rightarrow> 'o rng" where
  "SetRandomTestMode test g = g\<lparr>rg_test := (if \<not> test then None else Some 7)\<rparr>"

text \<open>Both generators ignore the seed.\<close>

definition InitRandom :: "bytes \<Rightarrow> 'o rng \<Rightarrow> bool \<times> 'o rng" where
  "InitRandom seed g = (True, g)"

definition GetRandom :: "u32 \<Rightarrow> u32 \<times> u32" where
  "GetRandom seed =
     (let seed' = word_of_int (sint seed * 214013 + 2531011) in (signed_drop_bit 16 seed' AND 0x7fff, seed'))"

fun test_Generate :: "nat \<Rightarrow> u32 \<Rightarrow> bytes \<times> u32" where
  "test_Generate 0 seed = ([], seed)"
| "test_Generate (Suc n) seed =
     (let (r, seed') = GetRandom seed; (bs, seed'') = test_Generate n seed' in (ucast r # bs, seed''))"

definition Generate :: "'o rand_bytes \<Rightarrow> nat \<Rightarrow> 'o rng \<Rightarrow> bytes option \<times> 'o rng" where
  "Generate rand_bytes len g =
     (case rg_test g of
        None \<Rightarrow> (case rand_bytes len (rg_os g) of (r, os) \<Rightarrow> (r, g\<lparr>rg_os := os\<rparr>))
      | Some seed \<Rightarrow> (case test_Generate len seed of (bs, seed') \<Rightarrow> (Some bs, g\<lparr>rg_test := Some seed'\<rparr>)))"

section \<open>Strings, UUIDs and ids\<close>

text \<open>The modulo is taken in int; a table that is empty divides by zero.\<close>

definition CreateRandomString_table :: "'o rand_bytes \<Rightarrow> nat \<Rightarrow> string \<Rightarrow> 'o rng \<Rightarrow> (bool \<times> string \<times> 'o rng) res" where
  "CreateRandomString_table rand_bytes len table g =
     (if length table = 0 then crash DivideByZero
      else if 256 mod length table \<noteq> 0 then ok (False, [], g)
      else
        (case Generate rand_bytes len g of
           (None, g') \<Rightarrow> ok (False, [], g')
         | (Some bytes, g') \<Rightarrow> ok (True, map (\<lambda>b. table ! (unat b mod length table)) bytes, g')))"

definition CreateRandomString_out :: "'o rand_bytes \<Rightarrow> nat \<Rightarrow> 'o rng \<Rightarrow> (bool \<times> string \<times> 'o rng) res" where
  "CreateRandomString_out rand_bytes len g = CreateRandomString_table rand_bytes len kBase64 g"

definition CreateRandomString :: "'o rand_bytes \<Rightarrow> nat \<Rightarrow> 'o rng \<Rightarrow> (string \<times> 'o rng) res" where
  "CreateRandomString rand_bytes len g =
     res_bind (CreateRandomString_out rand_bytes len g) (\<lambda>(_, str, g'). ok (str, g'))"

text \<open>\<^verbatim>\<open>data->at(0)\<close> throws for length zero; after a failure the resized string keeps its zeros.\<close>

definition CreateRandomData :: "'o rand_bytes \<Rightarrow> nat \<Rightarrow> 'o rng \<Rightarrow> (bool \<times> bytes \<times> 'o rng) res" where
  "CreateRandomData rand_bytes len g =
     (if len = 0 then crash UncaughtException
      else
        (case Generate rand_bytes len g of
           (None, g') \<Rightarrow> ok (False, replicate len 0, g')
         | (Some bytes, g') \<Rightarrow> ok (True, bytes, g')))"

definition CreateRandomUuid :: "'o rand_bytes \<Rightarrow> 'o rng \<Rightarrow> (string \<times> 'o rng) res" where
  "CreateRandomUuid rand_bytes g =
     (case Generate rand_bytes 31 g of
        (None, g') \<Rightarrow> crash Uninitialised
      | (Some bytes, g') \<Rightarrow>
          let hex = (\<lambda>i. kHex ! (unat (bytes ! i) mod 16))
          in ok (map hex [0..<8] @ ''-'' @ map hex [8..<12] @ ''-'' @ ''4'' @ map hex [12..<15] @ ''-'' @
                 [kUuidDigit17 ! (unat (bytes ! 15) mod 4)] @ map hex [16..<19] @ ''-'' @ map hex [19..<31], g'))"

definition CreateRandomId :: "'o rand_bytes \<Rightarrow> 'o rng \<Rightarrow> (u32 \<times> 'o rng) res" where
  "CreateRandomId rand_bytes g =
     (case Generate rand_bytes 4 g of
        (None, g') \<Rightarrow> crash Uninitialised
      | (Some bytes, g') \<Rightarrow> ok (le_word bytes, g'))"

text \<open>The loop that draws until the id is not zero; \<open>None\<close> when it never ends.\<close>

partial_function (option) nonzero_loop :: "('g \<Rightarrow> (u32 \<times> 'g) res) \<Rightarrow> 'g \<Rightarrow> (u32 \<times> 'g) res option" where
  "nonzero_loop draw g =
     (case draw g of
        Inl e \<Rightarrow> Some (Inl e)
      | Inr (i, g') \<Rightarrow> if i = 0 then nonzero_loop draw g' else Some (Inr (i, g')))"

definition CreateRandomNonZeroId :: "'o rand_bytes \<Rightarrow> 'o rng \<Rightarrow> (u32 \<times> 'o rng) res" where
  "CreateRandomNonZeroId rand_bytes g =
     (case nonzero_loop (CreateRandomId rand_bytes) g of None \<Rightarrow> crash Diverges | Some r \<Rightarrow> r)"

section \<open>Lemmas\<close>

text \<open>What OpenSSL documents: a successful call fills the whole buffer.\<close>

definition fills :: "'o rand_bytes \<Rightarrow> bool" where
  "fills rand_bytes = (\<forall>n os bs os'. rand_bytes n os = (Some bs, os') \<longrightarrow> length bs = n)"

lemma length_test_Generate: "length (fst (test_Generate n seed)) = n"
  by (induction n arbitrary: seed) (auto simp: Let_def case_prod_beta)

lemma Generate_length: "fills rand_bytes \<Longrightarrow> Generate rand_bytes n g = (Some bs, g') \<Longrightarrow> length bs = n"
  using length_test_Generate [of n]
  by (auto simp: Generate_def fills_def case_prod_beta split: option.splits)
    (metis prod.collapse)

lemma kBase64_props: "length kBase64 = 64" "distinct kBase64"
  by (simp_all add: kBase64_def)

lemma mod64_cases:
  assumes "i < (64 :: nat)"
  shows "b < 256 \<and> b mod 64 = i \<longleftrightarrow> b = i \<or> b = i + 64 \<or> b = i + 128 \<or> b = i + 192"
proof
  assume b: "b < 256 \<and> b mod 64 = i"
  have "b = b div 64 * 64 + b mod 64" by (rule div_mult_mod_eq [symmetric])
  moreover have "b div 64 = 0 \<or> b div 64 = 1 \<or> b div 64 = 2 \<or> b div 64 = 3"
    using b by (simp add: div_nat_eqI) linarith
  ultimately show "b = i \<or> b = i + 64 \<or> b = i + 128 \<or> b = i + 192" using b by (elim disjE) simp_all
next
  have "(i + 128) mod 64 = i" "(i + 192) mod 64 = i" using mod_mult_self1 [of i 2 64] mod_mult_self1 [of i 3 64] assms by simp_all
  then show "b = i \<or> b = i + 64 \<or> b = i + 128 \<or> b = i + 192 \<Longrightarrow> b < 256 \<and> b mod 64 = i"
    using assms by auto
qed

lemma uuid_ranges:
  "[0..<8] = [0, 1, 2, 3, 4, 5, 6, 7]" "[8..<12] = [8, 9, 10, 11]" "[12..<15] = [12, 13, 14]" "[16..<19] = [16, 17, 18]"
  "[19..<31] = [19, 20, 21, 22, 23, 24, 25, 26, 27, 28, 29, 30]"
  by code_simp+

lemma kHex_length: "length kHex = 16" "length kUuidDigit17 = 4"
  by (simp_all add: kHex_def kUuidDigit17_def)

lemma nonzero_loop_result:
  assumes "nonzero_loop draw g = Some r" shows "\<forall>i g'. r = Inr (i, g') \<longrightarrow> i \<noteq> 0"
proof (rule nonzero_loop.raw_induct [OF _ assms])
  fix loop draw g and r :: "(u32 \<times> 'a) res"
  assume "\<And>draw g r. loop draw g = Some r \<Longrightarrow> \<forall>i g'. r = Inr (i, g') \<longrightarrow> i \<noteq> 0"
    and "(case draw g of Inl e \<Rightarrow> Some (Inl e)
      | Inr (i, g') \<Rightarrow> if i = 0 then loop draw g' else Some (Inr (i, g'))) = Some r"
  then show "\<forall>i g'. r = Inr (i, g') \<longrightarrow> i \<noteq> 0"
    by (cases "draw g") (auto split: if_splits, blast)
qed

lemma nonzero_loop_returns:
  assumes "\<And>k. k < n \<Longrightarrow> \<exists>g'. draw (gs k) = Inr (0, gs (Suc k))" "draw (gs n) = Inr (i, g')" "i \<noteq> 0"
  shows "nonzero_loop draw (gs 0) = Some (Inr (i, g'))"
  using assms
proof (induction n arbitrary: gs)
  case 0
  then show ?case by (subst nonzero_loop.simps) simp
next
  case (Suc n)
  have "nonzero_loop draw (gs (Suc 0)) = Some (Inr (i, g'))"
    using Suc.IH [of "\<lambda>k. gs (Suc k)"] Suc.prems by auto
  with Suc.prems(1) [of 0] show ?case by (subst nonzero_loop.simps) simp
qed

lemma CreateRandomString_result:
  assumes "fills rand_bytes"
  obtains str g' where "CreateRandomString rand_bytes n g = ok (str, g')" "set str \<subseteq> set kBase64"
    "length str = (if fst (Generate rand_bytes n g) = None then 0 else n)"
proof (cases "Generate rand_bytes n g")
  case (Pair r g')
  have "(\<lambda>b. kBase64 ! (unat b mod 64)) ` set bytes \<subseteq> set kBase64" for bytes :: bytes
    by (auto simp: kBase64_props intro!: nth_mem)
  then show thesis
    using that Pair Generate_length [OF assms, of n g]
    by (cases r) (auto simp: CreateRandomString_def CreateRandomString_out_def CreateRandomString_table_def kBase64_props)
qed

section \<open>Properties\<close>

text \<open>
  A random string such as an ICE password has the requested length and consists of base64
  characters, each of which comes from exactly four of the 256 values of a random byte, so that
  uniform bytes give uniform characters; when the generator fails the string is empty.
\<close>
theorem random_strings_unbiased:
  assumes "fills rand_bytes"
  shows "(case CreateRandomString rand_bytes n g of
      Inl _ \<Rightarrow> False
    | Inr (str, g') \<Rightarrow> (str = [] \<or> length str = n) \<and> set str \<subseteq> set kBase64 \<and>
        (fst (Generate rand_bytes n g) = None \<longrightarrow> str = [])) \<and>
    (\<forall>c \<in> set kBase64. card {b. b < 256 \<and> kBase64 ! (b mod 64) = c} = 4)"
proof
  show "case CreateRandomString rand_bytes n g of
      Inl _ \<Rightarrow> False
    | Inr (str, g') \<Rightarrow> (str = [] \<or> length str = n) \<and> set str \<subseteq> set kBase64 \<and>
        (fst (Generate rand_bytes n g) = None \<longrightarrow> str = [])"
    by (rule CreateRandomString_result [OF assms, of n g]) (auto split: if_splits)
  show "\<forall>c \<in> set kBase64. card {b. b < 256 \<and> kBase64 ! (b mod 64) = c} = 4"
  proof
    fix c
    assume "c \<in> set kBase64"
    then obtain i where i: "i < 64" "kBase64 ! i = c" by (metis in_set_conv_nth kBase64_props(1))
    have "kBase64 ! (b mod 64) = c \<longleftrightarrow> b mod 64 = i" for b :: nat
      using i nth_eq_iff_index_eq [OF kBase64_props(2), of "b mod 64" i] by (simp add: kBase64_props)
    moreover have "b < 256 \<and> b mod 64 = i \<longleftrightarrow> b \<in> {i, i + 64, i + 128, i + 192}" for b
      using mod64_cases [OF i(1)] by simp
    ultimately have "{b. b < 256 \<and> kBase64 ! (b mod 64) = c} = {i, i + 64, i + 128, i + 192}" by blast
    then show "card {b. b < 256 \<and> kBase64 ! (b mod 64) = c} = 4" by simp
  qed
qed

definition sample_rand :: "nat rand_bytes" where
  "sample_rand n os = (Some (map (\<lambda>i. of_nat (os + i)) [0..<n]), os + n)"

lemma sample_rand_fills: "fills sample_rand"
  by (simp add: fills_def sample_rand_def)

lemma random_strings_unbiased_witness:
  "case CreateRandomString sample_rand 24 \<lparr>rg_test = None, rg_os = 3\<rparr> of
     Inl _ \<Rightarrow> False | Inr (str, g') \<Rightarrow> str = [] \<or> length str = 24"
  using random_strings_unbiased [OF sample_rand_fills, of 24 "\<lparr>rg_test = None, rg_os = 3\<rparr>"]
  by (auto split: sum.splits)

text \<open>
  A UUID has the form \<^verbatim>\<open>xxxxxxxx-xxxx-4xxx-yxxx-xxxxxxxxxxxx\<close>: 36 characters, dashes at the four
  places, the version digit 4, the variant digit one of 8, 9, a, b, and hex digits elsewhere.
\<close>
theorem uuid_has_version_4_form:
  assumes "fills rand_bytes" "CreateRandomUuid rand_bytes g = ok (u, g')"
  shows "length u = 36 \<and> u ! 14 = CHR ''4'' \<and> u ! 19 \<in> set ''89ab'' \<and>
    (\<forall>i < 36. if i \<in> {8, 13, 18, 23} then u ! i = CHR ''-'' else u ! i \<in> set kHex)"
proof -
  obtain bytes where b: "Generate rand_bytes 31 g = (Some bytes, g')"
    using assms(2) by (auto simp: CreateRandomUuid_def Let_def split: option.splits prod.splits)
  define h where "h i = kHex ! (unat (bytes ! i) mod 16)" for i
  have h: "h i \<in> set kHex" for i by (simp add: h_def kHex_length)
  define v where "v = kUuidDigit17 ! (unat (bytes ! 15) mod 4)"
  have "v \<in> set kUuidDigit17" unfolding v_def by (rule nth_mem) (simp add: kHex_length)
  then have v: "v \<in> set ''89ab''" unfolding kUuidDigit17_def .
  have "set ''89ab'' \<subseteq> set kHex" by code_simp
  with v have vk: "v \<in> set kHex" by blast
  have k4: "CHR ''4'' \<in> set kHex" by code_simp
  have u: "u = [h 0, h 1, h 2, h 3, h 4, h 5, h 6, h 7, CHR ''-'', h 8, h 9, h 10, h 11, CHR ''-'', CHR ''4'', h 12, h 13,
      h 14, CHR ''-'', v, h 16, h 17, h 18, CHR ''-'', h 19, h 20, h 21, h 22, h 23, h 24, h 25, h 26, h 27, h 28, h 29, h 30]"
    using assms(2) b by (simp add: CreateRandomUuid_def Let_def h_def v_def uuid_ranges)
  have all36: "(\<forall>i < 36. P i) \<longleftrightarrow> list_all P [0..<36]" for P :: "nat \<Rightarrow> bool" by (auto simp: list_all_iff)
  show ?thesis unfolding all36 u using h v vk k4 by (simp add: upt_rec)
qed

lemma uuid_has_version_4_form_witness:
  "\<exists>u g'. CreateRandomUuid sample_rand \<lparr>rg_test = None, rg_os = 3\<rparr> = ok (u, g') \<and> length u = 36"
proof -
  obtain u g' where u: "CreateRandomUuid sample_rand \<lparr>rg_test = None, rg_os = 3\<rparr> = ok (u, g')"
    by (simp add: CreateRandomUuid_def Generate_def sample_rand_def Let_def)
  from uuid_has_version_4_form [OF sample_rand_fills u] u show ?thesis by blast
qed

end
