(* ===== verification/Sdp.thy ===== *)
theory Sdp
  imports Stun Sutil SockAddr RandomIds
begin

text \<open>
  \<^verbatim>\<open>sdp/session_description.{h,cpp}\<close>: reading the offer of a browser, building the server's answer and
  printing it.

  A \<^verbatim>\<open>MediaContent\<close> is a record with its type, and the shared pointer \<^verbatim>\<open>parse_sdp\<close> keeps to the content
  it last created is that content's index. An \<^verbatim>\<open>unordered_map\<close> is an association list; the order in which
  it is printed is the parameter \<open>iter\<close>. Of the peer's offer only the media contents are read. The
  fingerprint of the server's certificate (OpenSSL) is the parameter \<open>cert_fp\<close>.
\<close>

definition k_media_proto_dtls_savpf :: string where "k_media_proto_dtls_savpf = ''UDP/TLS/RTP/SAVPF''"
definition k_media_proto_savpf :: string where "k_media_proto_savpf = ''RTP/SAVPF''"

section \<open>Data\<close>

record SessionSdp =
  ses_version :: string
  ses_username :: string
  ses_session_id :: string
  ses_session_version :: string
  ses_nett_type :: string
  ses_addr_type :: string
  ses_uni_addr :: string
  ses_session_name :: string
  ses_ts :: string
  ses_attr :: string

definition SessionSdp_new :: SessionSdp where
  "SessionSdp_new =
     \<lparr>ses_version = [], ses_username = [], ses_session_id = [], ses_session_version = ''2'', ses_nett_type = ''IN'',
      ses_addr_type = ''IP4'', ses_uni_addr = [], ses_session_name = ''-'', ses_ts = ''0 0'',
      ses_attr = ''a=msid-semantic: WMS''\<rparr>"

datatype MediaType = MEDIA_TYPE_AUDIO | MEDIA_TYPE_VIDEO

record FeedbackParameter =
  fb_id :: string
  fb_param :: string

record CodecInfo =
  ci_payload_type :: int
  ci_desc :: string
  ci_fbs :: "FeedbackParameter list"

record MediaCodecSupport =
  sup_name :: string
  sup_port :: int
  sup_dtls :: bool
  sup_codec_ids :: "(int \<times> CodecInfo) list"

record RTCOfferAnswerOptions =
  send_audio :: bool
  send_video :: bool
  recv_audio :: bool
  recv_video :: bool
  use_rtcp_mux :: bool

record FormatParameter =
  fmt_codec_id :: int
  fmt_params :: "(string \<times> string) list"

datatype RtcDirection = SendRecv | SendOnly | RecvOnly | Inactive

record DtlsParameter =
  dp_alg :: string
  dp_finger_print :: string
  dp_identity_fp :: "SSLFingerprint option"

record SsrcParameter =
  sp_ssrc :: u32
  sp_attri :: string
  sp_value :: string

record SsrcGroup =
  sg_semantic :: string
  sg_ssrcs :: "u32 list"

record MediaContent =
  mc_type :: MediaType
  mc_connection_info :: string
  mc_fix_attr1 :: string
  mc_rtpmaps :: "CodecInfo list"
  mc_fmtps :: "FormatParameter list"
  mc_use_dtls :: bool
  mc_rtcp_mux :: bool
  mc_direct :: RtcDirection
  mc_ice :: IceParameter
  mc_connection_role :: string
  mc_cands :: "IceCandidate list"
  mc_dtls :: "DtlsParameter option"
  mc_ssrcs :: "SsrcParameter list"
  mc_ssrc_groups :: "SsrcGroup list"

text \<open>\<^verbatim>\<open>direct\<close> has no initialiser; the answers assign it, and an offer's is never read.\<close>

definition MediaContent_new :: "MediaType \<Rightarrow> MediaContent" where
  "MediaContent_new t =
     \<lparr>mc_type = t, mc_connection_info = ''IN IP4 0.0.0.0'', mc_fix_attr1 = ''rtcp:9 IN IP4 0.0.0.0'', mc_rtpmaps = [],
      mc_fmtps = [], mc_use_dtls = True, mc_rtcp_mux = True, mc_direct = Inactive,
      mc_ice = \<lparr>ice_mode = [], ufrag = [], passwd = []\<rparr>, mc_connection_role = [], mc_cands = [], mc_dtls = None,
      mc_ssrcs = [], mc_ssrc_groups = []\<rparr>"

fun mc_mid :: "MediaType \<Rightarrow> string" where
  "mc_mid MEDIA_TYPE_AUDIO = ''0''"
| "mc_mid MEDIA_TYPE_VIDEO = ''1''"

fun mc_name :: "MediaType \<Rightarrow> string" where
  "mc_name MEDIA_TYPE_AUDIO = ''audio''"
| "mc_name MEDIA_TYPE_VIDEO = ''video''"

record SessionDescription =
  sd_session :: SessionSdp
  sd_media_contents :: "MediaContent list"
  sd_video_sup :: MediaCodecSupport
  sd_audio_sup :: MediaCodecSupport
  sd_fingerprint :: "SSLFingerprint option"
  sd_addr :: "string \<times> int"
  sd_peer_offer_sdp :: "MediaContent list option"

definition MediaCodecSupport_new :: "string \<Rightarrow> MediaCodecSupport" where
  "MediaCodecSupport_new name = \<lparr>sup_name = name, sup_port = 0, sup_dtls = False, sup_codec_ids = []\<rparr>"

definition SessionDescription_new :: SessionDescription where
  "SessionDescription_new =
     \<lparr>sd_session = SessionSdp_new, sd_media_contents = [], sd_video_sup = MediaCodecSupport_new ''video'',
      sd_audio_sup = MediaCodecSupport_new ''audio'', sd_fingerprint = None, sd_addr = ([], 0),
      sd_peer_offer_sdp = None\<rparr>"

section \<open>Printing\<close>

definition crlf :: string where "crlf = [CHR 0x0D, CHR 0x0A]"

definition print_direction :: "RtcDirection \<Rightarrow> string" where
  "print_direction dir =
     (if dir = RecvOnly then ''a=recvonly'' @ crlf
      else if dir = SendRecv then ''a=sendrecv'' @ crlf
      else if dir = SendOnly then ''a=sendonly'' @ crlf
      else ''a=inactive'' @ crlf)"

fun print_params :: "(string \<times> string) list \<Rightarrow> string" where
  "print_params [] = []"
| "print_params [(k, v)] = k @ ''='' @ v"
| "print_params ((k, v) # ps) = k @ ''='' @ v @ '';'' @ print_params ps"

definition print_fmtp :: "((string \<times> string) list \<Rightarrow> (string \<times> string) list) \<Rightarrow> FormatParameter \<Rightarrow> string" where
  "print_fmtp iter f = ''a=fmtp:'' @ dec_int (fmt_codec_id f) @ '' '' @ print_params (iter (fmt_params f)) @ crlf"

definition print_fb :: "int \<Rightarrow> FeedbackParameter \<Rightarrow> string" where
  "print_fb pt fb =
     ''a=rtcp-fb:'' @ dec_int pt @ '' '' @ fb_id fb @ (if fb_param fb = [] then crlf else '' '' @ fb_param fb @ crlf)"

definition print_cand :: "(in6_addr \<Rightarrow> string option) \<Rightarrow> IceCandidate \<Rightarrow> string" where
  "print_cand ntop6 c =
     ''a=candidate:'' @ ca_foundation c @ '' '' @ dec_int (component_value (ca_component c)) @ '' '' @ ca_protocol c @
     '' '' @ dec_nat (unat (ca_priority c)) @ '' '' @ HostAsURIString ntop6 (ca_address c) @ '' '' @ dec_int (ca_port c) @
     '' typ '' @ ca_type c @ crlf"

definition print_ssrc_group :: "SsrcGroup \<Rightarrow> string" where
  "print_ssrc_group g = ''a=ssrc-group:'' @ sg_semantic g @ concat (map (\<lambda>s. '' '' @ dec_nat (unat s)) (sg_ssrcs g)) @ crlf"

definition print_ssrc :: "SsrcParameter \<Rightarrow> string" where
  "print_ssrc s =
     ''a=ssrc:'' @ dec_nat (unat (sp_ssrc s)) @ '' '' @ sp_attri s @
     (if length (sp_value s) > 0 then '':'' @ sp_value s else []) @ crlf"

definition print_fingerprint :: "SSLFingerprint \<Rightarrow> string" where
  "print_fingerprint fpr = ''a=fingerprint:'' @ fp_algorithm fpr @ '' '' @ GetRfc4572Fingerprint fpr @ crlf"

definition print_m_line :: "MediaContent \<Rightarrow> string" where
  "print_m_line c =
     ''m='' @ mc_name (mc_type c) @ '' 9 '' @ (if mc_use_dtls c then k_media_proto_dtls_savpf else k_media_proto_savpf) @
     concat (map (\<lambda>r. '' '' @ dec_int (ci_payload_type r)) (mc_rtpmaps c)) @ crlf"

definition print_rtpmap :: "CodecInfo \<Rightarrow> string" where
  "print_rtpmap r = ''a=rtpmap:'' @ dec_int (ci_payload_type r) @ '' '' @ ci_desc r @ crlf"

definition add_media_content ::
  "((string \<times> string) list \<Rightarrow> (string \<times> string) list) \<Rightarrow> (in6_addr \<Rightarrow> string option) \<Rightarrow> SSLFingerprint option \<Rightarrow> MediaContent \<Rightarrow> string" where
  "add_media_content iter ntop6 fingerprint c =
     print_m_line c @
     ''c='' @ mc_connection_info c @ crlf @
     ''a='' @ mc_fix_attr1 c @ crlf @
     concat (map print_rtpmap (mc_rtpmaps c)) @
     concat (map (print_fmtp iter) (mc_fmtps c)) @
     concat (map (\<lambda>r. concat (map (print_fb (ci_payload_type r)) (ci_fbs r))) (mc_rtpmaps c)) @
     (if mc_rtcp_mux c then ''a=rtcp-mux'' @ crlf else []) @
     ''a='' @ ice_mode (mc_ice c) @ crlf @
     ''a=ice-ufrag:'' @ ufrag (mc_ice c) @ crlf @
     ''a=ice-pwd:'' @ passwd (mc_ice c) @ crlf @
     (case fingerprint of
        None \<Rightarrow> []
      | Some fpr \<Rightarrow>
          if mc_use_dtls c then print_fingerprint fpr @ ''a=setup:'' @ mc_connection_role c @ crlf else []) @
     ''a=mid:'' @ mc_mid (mc_type c) @ crlf @
     print_direction (mc_direct c) @
     concat (map (print_cand ntop6) (mc_cands c)) @
     concat (map print_ssrc_group (mc_ssrc_groups c)) @
     concat (map print_ssrc (mc_ssrcs c))"

definition sdp_to_string ::
  "((string \<times> string) list \<Rightarrow> (string \<times> string) list) \<Rightarrow> (in6_addr \<Rightarrow> string option) \<Rightarrow> SessionDescription \<Rightarrow> string" where
  "sdp_to_string iter ntop6 sd =
     (let s = sd_session sd
      in ''v='' @ ses_version s @ crlf @
         ''o='' @ ses_username s @ '' '' @ ses_session_id s @ '' '' @ ses_session_version s @ '' '' @ ses_nett_type s @
         '' '' @ ses_addr_type s @ '' '' @ ses_uni_addr s @ crlf @
         ''s='' @ ses_session_name s @ crlf @
         ''t='' @ ses_ts s @ crlf @
         ses_attr s @ crlf @
         ''a=group:BUNDLE 0 1'' @ crlf @
         concat (map (add_media_content iter ntop6 (sd_fingerprint sd)) (sd_media_contents sd)))"

section \<open>Building the answer\<close>

definition sdp_build :: "SessionDescription \<Rightarrow> SessionDescription \<Rightarrow> SessionDescription" where
  "sdp_build sdp sd =
     sd\<lparr>sd_session := (sd_session sd)\<lparr>ses_version := ses_version (sd_session sdp),
          ses_session_id := ses_session_id (sd_session sdp), ses_uni_addr := ''0.0.0.0'', ses_username := ''-''\<rparr>\<rparr>"

definition set_peer_sdp :: "SessionDescription \<Rightarrow> SessionDescription \<Rightarrow> SessionDescription" where
  "set_peer_sdp sdp sd = sd\<lparr>sd_peer_offer_sdp := Some (sd_media_contents sdp)\<rparr>"

fun get_media_content :: "MediaContent list \<Rightarrow> MediaType \<Rightarrow> MediaContent option" where
  "get_media_content [] mt = None"
| "get_media_content (c # cs) mt = (if mc_type c = mt then Some c else get_media_content cs mt)"

definition answer_direction :: "RTCOfferAnswerOptions \<Rightarrow> RtcDirection" where
  "answer_direction options =
     (if (recv_audio options \<or> recv_video options) \<and> (send_audio options \<or> send_video options) then SendRecv
      else if (send_audio options \<or> send_video options) \<and> (recv_audio options = False \<and> recv_video options = False)
        then SendOnly
      else if (send_audio options = False \<and> send_video options = False) \<and> (recv_audio options \<or> recv_video options)
        then RecvOnly
      else Inactive)"

definition plain_fb :: "string \<Rightarrow> FeedbackParameter" where
  "plain_fb i = \<lparr>fb_id = i, fb_param = []\<rparr>"

definition audio_answer :: "RTCOfferAnswerOptions \<Rightarrow> RtcDirection \<Rightarrow> MediaContent list option \<Rightarrow> MediaContent" where
  "audio_answer options direct peer =
     (let ci = \<lparr>ci_payload_type = 111, ci_desc = ''opus/48000/2'', ci_fbs = [plain_fb ''transport-cc'']\<rparr>;
          fmt = \<lparr>fmt_codec_id = 111, fmt_params = AList.update ''useinbandfec'' ''1'' (AList.update ''minptime'' ''10'' [])\<rparr>;
          a = (MediaContent_new MEDIA_TYPE_AUDIO)\<lparr>mc_direct := direct, mc_rtpmaps := [ci], mc_fmtps := [fmt]\<rparr>
      in (case peer of
            None \<Rightarrow> a
          | Some contents \<Rightarrow>
              (case get_media_content contents MEDIA_TYPE_AUDIO of
                 None \<Rightarrow> a
               | Some offer_a \<Rightarrow> if send_audio options then a\<lparr>mc_ssrcs := mc_ssrcs offer_a\<rparr> else a)))"

definition video_answer :: "RTCOfferAnswerOptions \<Rightarrow> RtcDirection \<Rightarrow> MediaContent list option \<Rightarrow> MediaContent" where
  "video_answer options direct peer =
     (let h264 = \<lparr>ci_payload_type = 108, ci_desc = ''H264/90000'',
                   ci_fbs = [plain_fb ''goog-remb'', plain_fb ''nack'', \<lparr>fb_id = ''nack'', fb_param = ''pli''\<rparr>]\<rparr>;
          rtx = \<lparr>ci_payload_type = 109, ci_desc = ''rtx/90000'', ci_fbs = []\<rparr>;
          f108 = \<lparr>fmt_codec_id = 108, fmt_params =
                   AList.update ''profile-level-id'' ''42e01f''
                     (AList.update ''packetization-mode'' ''1'' (AList.update ''level-asymmetry-allowed'' ''1'' []))\<rparr>;
          f109 = \<lparr>fmt_codec_id = 109, fmt_params = AList.update ''apt'' ''108'' []\<rparr>;
          v = (MediaContent_new MEDIA_TYPE_VIDEO)\<lparr>mc_direct := direct, mc_rtpmaps := [h264, rtx], mc_fmtps := [f108, f109]\<rparr>
      in (case peer of
            None \<Rightarrow> v
          | Some contents \<Rightarrow>
              (case get_media_content contents MEDIA_TYPE_VIDEO of
                 None \<Rightarrow> v
               | Some offer_v \<Rightarrow>
                   if send_video options then v\<lparr>mc_ssrcs := mc_ssrcs offer_v, mc_ssrc_groups := mc_ssrc_groups offer_v\<rparr> else v)))"

definition answer_candidate ::
  "(string \<Rightarrow> in6_addr option) \<Rightarrow> (in6_addr \<Rightarrow> string option) \<Rightarrow> string \<times> int \<Rightarrow> string \<Rightarrow> string \<Rightarrow> IceCandidate" where
  "answer_candidate pton6 ntop6 addr uf pw =
     (let cand = (IceCandidate_new pton6 (fst addr) (snd addr))\<lparr>ca_component := RTP, ca_username := uf, ca_password := pw,
                   ca_type := LOCAL_PORT_TYPE, ca_protocol := ''udp''\<rparr>
      in cand\<lparr>ca_foundation := compute_foundation ntop6 (ca_type cand) (ca_protocol cand) [] (ca_address cand),
              ca_priority := get_priority ICE_TYPE_PREFERENCE_HOST 0 0 cand\<rparr>)"

text \<open>\<^verbatim>\<open>addr\<close> is the pair of \<^verbatim>\<open>_addr.getIp()\<close> and \<^verbatim>\<open>_addr.getPort()\<close>.\<close>

definition create_answer ::
  "'o rand_bytes \<Rightarrow> (string \<Rightarrow> in6_addr option) \<Rightarrow> (in6_addr \<Rightarrow> string option) \<Rightarrow> SSLFingerprint option \<Rightarrow>
   RTCOfferAnswerOptions \<Rightarrow> string \<times> int \<Rightarrow> 'o rng \<Rightarrow> SessionDescription \<Rightarrow> (SessionDescription \<times> 'o rng) res" where
  "create_answer rand_bytes pton6 ntop6 cert_fp options addr g sd =
     (let direct = answer_direction options;
          sd1 = sd\<lparr>sd_addr := addr, sd_fingerprint := cert_fp\<rparr>
      in if cert_fp = None then ok (sd1, g)
         else
           let a = audio_answer options direct (sd_peer_offer_sdp sd);
               v = video_answer options direct (sd_peer_offer_sdp sd)
           in res_bind (CreateRandomString rand_bytes 4 g) (\<lambda>(uf, g1).
              res_bind (CreateRandomString rand_bytes 24 g1) (\<lambda>(pw, g2).
                let ipa = \<lparr>ice_mode = ''ice-lite'', ufrag = uf, passwd = pw\<rparr>;
                    cand = answer_candidate pton6 ntop6 addr uf pw;
                    finish = (\<lambda>c. c\<lparr>mc_ice := ipa, mc_connection_role := ''passive'', mc_cands := [cand]\<rparr>)
                in ok (sd1\<lparr>sd_media_contents := sd_media_contents sd @ [finish a, finish v]\<rparr>, g2))))"

section \<open>Parsing the offer\<close>

text \<open>\<^verbatim>\<open>sdp.substr(sdp.find(":") + 1)\<close>; without a colon \<^verbatim>\<open>npos + 1\<close> wraps to zero.\<close>

definition behind_colon :: "string \<Rightarrow> string" where
  "behind_colon s = (case str_find s '':'' 0 of None \<Rightarrow> s | Some p \<Rightarrow> drop (p + 1) s)"

definition parse_version :: "string \<Rightarrow> SessionDescription \<Rightarrow> (bool \<times> SessionDescription) res" where
  "parse_version sdp sd =
     res_bind (split_r sdp ''='') (\<lambda>vecs.
       if length vecs \<noteq> 2 then ok (False, sd)
       else ok (True, sd\<lparr>sd_session := (sd_session sd)\<lparr>ses_version := vecs ! 1\<rparr>\<rparr>))"

definition parse_origin :: "string \<Rightarrow> SessionDescription \<Rightarrow> (bool \<times> SessionDescription) res" where
  "parse_origin sdp sd =
     res_bind (split_r sdp ''='') (\<lambda>vecs.
       if length vecs \<noteq> 2 then ok (False, sd)
       else
         res_bind (split_r (vecs ! 1) '' '') (\<lambda>vecs2.
           if length vecs2 \<noteq> 6 then ok (False, sd)
           else ok (True, sd\<lparr>sd_session := (sd_session sd)\<lparr>ses_username := vecs2 ! 0, ses_session_id := vecs2 ! 1\<rparr>\<rparr>)))"

text \<open>The loop over the payload types; \<^verbatim>\<open>codec_ids[id] = info\<close>.\<close>

fun payload_loop :: "string list \<Rightarrow> (int \<times> CodecInfo) list \<Rightarrow> (int \<times> CodecInfo) list" where
  "payload_loop [] ids = ids"
| "payload_loop (t # ts) ids =
     payload_loop ts (AList.update (atoi t) \<lparr>ci_payload_type = atoi t, ci_desc = [], ci_fbs = []\<rparr> ids)"

text \<open>The index of the new content is \<open>None\<close> for a null result.\<close>

definition parse_media :: "string \<Rightarrow> SessionDescription \<Rightarrow> (nat option \<times> SessionDescription) res" where
  "parse_media sdp sd =
     res_bind (split_r sdp ''='') (\<lambda>vecs.
       if length vecs \<noteq> 2 then ok (None, sd)
       else
         res_bind (split_r (vecs ! 1) '' '') (\<lambda>vecs2.
           if length vecs2 < 4 then ok (None, sd)
           else if vecs2 ! 2 \<noteq> k_media_proto_dtls_savpf \<and> vecs2 ! 2 \<noteq> k_media_proto_savpf then ok (None, sd)
           else
             let support = \<lparr>sup_name = [], sup_port = atoi (vecs2 ! 1), sup_dtls = (vecs2 ! 2 = k_media_proto_dtls_savpf),
                        sup_codec_ids = payload_loop (drop 3 vecs2) []\<rparr>;
                 i = length (sd_media_contents sd)
             in if vecs2 ! 0 = ''video'' then
                  ok (Some i, sd\<lparr>sd_video_sup := support,
                                 sd_media_contents := sd_media_contents sd @ [MediaContent_new MEDIA_TYPE_VIDEO]\<rparr>)
                else if vecs2 ! 0 = ''audio'' then
                  ok (Some i, sd\<lparr>sd_audio_sup := support,
                                 sd_media_contents := sd_media_contents sd @ [MediaContent_new MEDIA_TYPE_AUDIO]\<rparr>)
                else ok (None, sd)))"

definition set_desc :: "int \<Rightarrow> string \<Rightarrow> MediaCodecSupport \<Rightarrow> MediaCodecSupport" where
  "set_desc i desc support = support\<lparr>sup_codec_ids := AList.map_entry i (\<lambda>c. c\<lparr>ci_desc := desc\<rparr>) (sup_codec_ids support)\<rparr>"

definition parse_rtpmap :: "string \<Rightarrow> SessionDescription \<Rightarrow> (bool \<times> SessionDescription) res" where
  "parse_rtpmap sdp sd =
     res_bind (split_r sdp ''='') (\<lambda>vecs.
       if length vecs \<noteq> 2 then ok (False, sd)
       else
         res_bind (split_r (vecs ! 1) '' '') (\<lambda>vecs2.
           if length vecs2 \<noteq> 2 then ok (False, sd)
           else
             (case str_find (vecs2 ! 0) '':'' 0 of
                None \<Rightarrow> ok (False, sd)
              | Some pos \<Rightarrow>
                  let i = atoi (drop (pos + 1) (vecs2 ! 0))
                  in if map_of (sup_codec_ids (sd_video_sup sd)) i \<noteq> None
                     then ok (True, sd\<lparr>sd_video_sup := set_desc i (vecs2 ! 1) (sd_video_sup sd)\<rparr>)
                     else if map_of (sup_codec_ids (sd_audio_sup sd)) i \<noteq> None
                     then ok (True, sd\<lparr>sd_audio_sup := set_desc i (vecs2 ! 1) (sd_audio_sup sd)\<rparr>)
                     else ok (True, sd))))"

definition parse_dtls :: "string \<Rightarrow> MediaContent \<Rightarrow> (bool \<times> MediaContent) res" where
  "parse_dtls sdp c =
     (case str_find sdp '':'' 0 of
        None \<Rightarrow> ok (False, c)
      | Some pos \<Rightarrow>
          res_bind (split_r (drop (pos + 1) sdp) '' '') (\<lambda>vecs.
            if length vecs \<noteq> 2 then ok (False, c)
            else ok (True, c\<lparr>mc_dtls := Some \<lparr>dp_alg = vecs ! 0, dp_finger_print = vecs ! 1, dp_identity_fp = None\<rparr>\<rparr>)))"

text \<open>Behind the second split the size of the first result is tested again, not of the second.\<close>

definition parse_ssrcs :: "string \<Rightarrow> MediaContent \<Rightarrow> (bool \<times> MediaContent) res" where
  "parse_ssrcs sdp c =
     res_bind (split_r (behind_colon sdp) '':'') (\<lambda>vecs.
       if length vecs \<noteq> 2 then ok (False, c)
       else
         res_bind (split_r (vecs ! 0) '' '') (\<lambda>vecs2.
         res_bind (nth_res vecs2 1) (\<lambda>attri.
         res_bind (nth_res vecs2 0) (\<lambda>ssrc.
           ok (True, c\<lparr>mc_ssrcs := mc_ssrcs c @ [\<lparr>sp_ssrc = word_of_int (atoll ssrc), sp_attri = attri, sp_value = vecs ! 1\<rparr>]\<rparr>)))))"

definition parse_ssrc_groups :: "string \<Rightarrow> MediaContent \<Rightarrow> (bool \<times> MediaContent) res" where
  "parse_ssrc_groups sdp c =
     res_bind (split_r (behind_colon sdp) '' '') (\<lambda>vecs.
       if length vecs < 2 then ok (False, c)
       else
         ok (True, c\<lparr>mc_ssrc_groups := mc_ssrc_groups c @
                       [\<lparr>sg_semantic = vecs ! 0, sg_ssrcs = map (\<lambda>s. word_of_int (atoll s)) (drop 1 vecs)\<rparr>]\<rparr>))"

text \<open>A parser of a content applied to the content the pointer names.\<close>

definition on_content ::
  "(MediaContent \<Rightarrow> (bool \<times> MediaContent) res) \<Rightarrow> nat \<Rightarrow> SessionDescription \<Rightarrow> (bool \<times> SessionDescription) res" where
  "on_content f i sd =
     res_bind (f (sd_media_contents sd ! i)) (\<lambda>(flag, c). ok (flag, sd\<lparr>sd_media_contents := (sd_media_contents sd)[i := c]\<rparr>))"

definition set_identity_fp :: "MediaContent \<Rightarrow> (bool \<times> MediaContent) res" where
  "set_identity_fp c =
     (case mc_dtls c of
        None \<Rightarrow> crash NullDeref
      | Some d \<Rightarrow>
          res_bind (CreateUniqueFromRfc4572 (dp_alg d) (dp_finger_print d)) (\<lambda>fpr.
            ok (True, c\<lparr>mc_dtls := Some (d\<lparr>dp_identity_fp := fpr\<rparr>)\<rparr>)))"

text \<open>One line: the new flag, pointer and description.\<close>

definition parse_line ::
  "string \<Rightarrow> bool \<times> nat option \<times> SessionDescription \<Rightarrow> (bool \<times> nat option \<times> SessionDescription) res" where
  "parse_line line st =
     (case st of (flag, ptr, sd) \<Rightarrow>
        if contains line ''v='' then res_bind (parse_version line sd) (\<lambda>(f, sd'). ok (f, ptr, sd'))
        else if contains line ''o='' then res_bind (parse_origin line sd) (\<lambda>(f, sd'). ok (f, ptr, sd'))
        else if contains line ''m='' then
          res_bind (parse_media line sd) (\<lambda>(p, sd'). ok (if p = None then False else flag, p, sd'))
        else if contains line ''a=rtpmap'' then res_bind (parse_rtpmap line sd) (\<lambda>(f, sd'). ok (f, ptr, sd'))
        else if contains line ''a=fingerprint:'' \<and> ptr \<noteq> None then
          res_bind (on_content (parse_dtls line) (the ptr) sd) (\<lambda>(f, sd').
            if f then res_bind (on_content set_identity_fp (the ptr) sd') (\<lambda>(_, sd''). ok (f, ptr, sd''))
            else ok (f, ptr, sd'))
        else if contains line ''a=ssrc:'' \<and> ptr \<noteq> None then
          res_bind (on_content (parse_ssrcs line) (the ptr) sd) (\<lambda>(f, sd'). ok (f, ptr, sd'))
        else if contains line ''a=ssrc-group:'' \<and> ptr \<noteq> None then
          res_bind (on_content (parse_ssrc_groups line) (the ptr) sd) (\<lambda>(f, sd'). ok (f, ptr, sd'))
        else ok (flag, ptr, sd))"

fun parse_lines ::
  "string list \<Rightarrow> bool \<times> nat option \<times> SessionDescription \<Rightarrow> (bool \<times> SessionDescription) res" where
  "parse_lines [] (flag, ptr, sd) = ok (flag, sd)"
| "parse_lines (line # lines) st =
     res_bind (parse_line line st) (\<lambda>(flag, ptr, sd).
       if \<not> flag then ok (False, sd) else parse_lines lines (flag, ptr, sd))"

definition parse_sdp :: "string list \<Rightarrow> SessionDescription \<Rightarrow> (bool \<times> SessionDescription) res" where
  "parse_sdp vecs sd = parse_lines vecs (False, None, sd)"

section \<open>Safety of the parser\<close>

text \<open>
  The lines \<^verbatim>\<open>parse_ssrcs\<close> can handle: when the text behind the first colon has two fields, the first one
  has at least two words. \<open>sdp_ok\<close> is the invariant of \<^verbatim>\<open>parse_sdp\<close>: the pointer names a content.
\<close>

definition ssrc_line_ok :: "string \<Rightarrow> bool" where
  "ssrc_line_ok line =
     (let vecs = tokens (CHR '':'') (behind_colon line) in length vecs = 2 \<longrightarrow> 2 \<le> length (tokens (CHR '' '') (vecs ! 0)))"

text \<open>The lines that are handed to \<^verbatim>\<open>parse_ssrcs\<close> although it cannot handle them.\<close>

definition bare_ssrc :: "string \<Rightarrow> bool" where
  "bare_ssrc line =
     (contains line ''a=ssrc:'' \<and> \<not> contains line ''v='' \<and> \<not> contains line ''o='' \<and> \<not> contains line ''m='' \<and>
      \<not> contains line ''a=rtpmap'' \<and> \<not> contains line ''a=fingerprint:'' \<and> \<not> ssrc_line_ok line)"

definition ptr_ok :: "nat option \<Rightarrow> SessionDescription \<Rightarrow> bool" where
  "ptr_ok ptr sd = (case ptr of None \<Rightarrow> True | Some i \<Rightarrow> i < length (sd_media_contents sd))"

lemma parse_version_ok: "\<exists>f sd'. parse_version line sd = ok (f, sd') \<and> sd_media_contents sd' = sd_media_contents sd"
  by (auto simp: parse_version_def)

lemma parse_origin_ok: "\<exists>f sd'. parse_origin line sd = ok (f, sd') \<and> sd_media_contents sd' = sd_media_contents sd"
  by (auto simp: parse_origin_def)

lemma parse_media_ok: "\<exists>p sd'. parse_media line sd = ok (p, sd') \<and> ptr_ok p sd'"
  by (simp add: parse_media_def ptr_ok_def Let_def)

lemma parse_rtpmap_ok: "\<exists>f sd'. parse_rtpmap line sd = ok (f, sd') \<and> sd_media_contents sd' = sd_media_contents sd"
  by (cases "str_find (tokens CHR '' '' (tokens CHR ''='' line ! 1) ! 0) '':'' 0") (auto simp: parse_rtpmap_def Let_def)

lemma parse_dtls_ok: "\<exists>f c'. parse_dtls line c = ok (f, c') \<and> (f \<longrightarrow> mc_dtls c' \<noteq> None)"
  by (cases "str_find line '':'' 0") (auto simp: parse_dtls_def)

lemma parse_ssrcs_ok: "ssrc_line_ok line \<Longrightarrow> \<exists>f c'. parse_ssrcs line c = ok (f, c')"
  by (auto simp: parse_ssrcs_def ssrc_line_ok_def Let_def nth_res_def)

lemma parse_ssrcs_crash: "\<not> ssrc_line_ok line \<Longrightarrow> parse_ssrcs line c = crash OutOfBounds"
  by (auto simp: parse_ssrcs_def ssrc_line_ok_def Let_def nth_res_def)

lemma parse_line_crash: "bare_ssrc line \<Longrightarrow> parse_line line (flag, Some i, sd) = crash OutOfBounds"
  by (simp add: bare_ssrc_def parse_line_def on_content_def parse_ssrcs_crash)

lemma parse_ssrc_groups_ok: "\<exists>f c'. parse_ssrc_groups line c = ok (f, c')"
  by (auto simp: parse_ssrc_groups_def)

lemma set_identity_fp_ok: "mc_dtls c \<noteq> None \<Longrightarrow> \<exists>f c'. set_identity_fp c = ok (f, c')"
  using CreateUnique_never_overruns
  by (auto simp: set_identity_fp_def is_ok_iff) (metis res_bind_ok)

lemma on_content_ok:
  "\<exists>f c'. g (sd_media_contents sd ! i) = ok (f, c') \<Longrightarrow>
   \<exists>f c'. g (sd_media_contents sd ! i) = ok (f, c') \<and>
     on_content g i sd = ok (f, sd\<lparr>sd_media_contents := (sd_media_contents sd)[i := c']\<rparr>)"
  by (auto simp: on_content_def)

lemma parse_line_ok:
  assumes "bare_ssrc line \<longrightarrow> ptr = None" "ptr_ok ptr sd"
  shows "\<exists>f p sd'. parse_line line (flag, ptr, sd) = ok (f, p, sd') \<and> ptr_ok p sd'"
proof -
  have keep: "ptr_ok ptr sd'" if "sd_media_contents sd' = sd_media_contents sd" for sd'
    using assms(2) unfolding ptr_ok_def that .
  consider "contains line ''v=''" | "\<not> contains line ''v=''" "contains line ''o=''"
    | "\<not> contains line ''v=''" "\<not> contains line ''o=''" "contains line ''m=''"
    | "\<not> contains line ''v=''" "\<not> contains line ''o=''" "\<not> contains line ''m=''" "contains line ''a=rtpmap''"
    | "\<not> contains line ''v=''" "\<not> contains line ''o=''" "\<not> contains line ''m=''" "\<not> contains line ''a=rtpmap''" by blast
  then show ?thesis
  proof cases
    case 1
    obtain f sd' where v: "parse_version line sd = ok (f, sd')" "sd_media_contents sd' = sd_media_contents sd"
      using parse_version_ok by blast
    from 1 v(1) have "parse_line line (flag, ptr, sd) = ok (f, ptr, sd')" by (simp add: parse_line_def)
    with keep [OF v(2)] show ?thesis by blast
  next
    case 2
    obtain f sd' where v: "parse_origin line sd = ok (f, sd')" "sd_media_contents sd' = sd_media_contents sd"
      using parse_origin_ok by blast
    from 2 v(1) have "parse_line line (flag, ptr, sd) = ok (f, ptr, sd')" by (simp add: parse_line_def)
    with keep [OF v(2)] show ?thesis by blast
  next
    case 3
    with parse_media_ok [of line sd] show ?thesis by (auto simp: parse_line_def)
  next
    case 4
    obtain f sd' where v: "parse_rtpmap line sd = ok (f, sd')" "sd_media_contents sd' = sd_media_contents sd"
      using parse_rtpmap_ok by blast
    from 4 v(1) have "parse_line line (flag, ptr, sd) = ok (f, ptr, sd')" by (simp add: parse_line_def)
    with keep [OF v(2)] show ?thesis by blast
  next
    case 5
    show ?thesis
    proof (cases ptr)
      case None
      with 5 show ?thesis by (simp add: parse_line_def ptr_ok_def)
    next
      case (Some i)
      with assms(2) have i: "i < length (sd_media_contents sd)" by (simp add: ptr_ok_def)
      show ?thesis
      proof (cases "contains line ''a=fingerprint:''")
        case True
        obtain f c' where d: "parse_dtls line (sd_media_contents sd ! i) = ok (f, c')" "f \<longrightarrow> mc_dtls c' \<noteq> None"
          using parse_dtls_ok by blast
        then have o: "on_content (parse_dtls line) i sd = ok (f, sd\<lparr>sd_media_contents := (sd_media_contents sd)[i := c']\<rparr>)"
          by (simp add: on_content_def)
        show ?thesis
        proof (cases f)
          case True
          with d(2) set_identity_fp_ok obtain f2 c2 where "set_identity_fp c' = ok (f2, c2)" by blast
          with \<open>contains line ''a=fingerprint:''\<close> 5 Some i o True show ?thesis
            by (auto simp: parse_line_def on_content_def ptr_ok_def)
        next
          case False
          with \<open>contains line ''a=fingerprint:''\<close> 5 Some i o show ?thesis
            by (auto simp: parse_line_def ptr_ok_def)
        qed
      next
        case False
        from assms(1) Some 5 False have "contains line ''a=ssrc:'' \<longrightarrow> ssrc_line_ok line" by (simp add: bare_ssrc_def)
        with parse_ssrcs_ok have s: "contains line ''a=ssrc:'' \<Longrightarrow> \<exists>f c'. parse_ssrcs line c = ok (f, c')" for c
          by blast
        show ?thesis
          using 5 False Some i on_content_ok [of "parse_ssrcs line" sd i, OF s]
            on_content_ok [of "parse_ssrc_groups line" sd i, OF parse_ssrc_groups_ok]
          by (auto simp: parse_line_def ptr_ok_def)
      qed
    qed
  qed
qed

text \<open>
  C19: Parsing an offer never crashes when every \<^verbatim>\<open>a=ssrc:\<close> line has an attribute, whatever the other
  lines contain: no index leaves a split line, no null pointer is followed, no fingerprint overruns
  its buffer and every split returns.
\<close>
theorem parse_sdp_is_safe:
  assumes "\<forall>line \<in> set vecs. contains line ''a=ssrc:'' \<longrightarrow> ssrc_line_ok line"
  shows "\<exists>flag sd'. parse_sdp vecs sd = ok (flag, sd')"
proof -
  have "\<exists>f sd'. parse_lines vecs (flag, ptr, sd) = ok (f, sd')" if "ptr_ok ptr sd" for flag ptr sd
    using assms that
  proof (induction vecs arbitrary: flag ptr sd)
    case (Cons line vecs)
    then obtain f p sd' where "parse_line line (flag, ptr, sd) = ok (f, p, sd')" "ptr_ok p sd'"
      using parse_line_ok [of line ptr sd flag] by (auto simp: bare_ssrc_def)
    with Cons.IH [of p sd' f] Cons.prems(1) show ?case by (cases f) auto
  qed simp
  then show ?thesis by (simp add: parse_sdp_def ptr_ok_def)
qed

lemma parse_sdp_is_safe_witness:
  "\<exists>flag sd'. parse_sdp [''v=0'', ''m=audio 9 UDP/TLS/RTP/SAVPF 111'', ''a=ssrc:7 cname:x''] SessionDescription_new = ok (flag, sd')"
  by (rule parse_sdp_is_safe) code_simp

definition sample_m_line :: string where "sample_m_line = ''m=audio 9 UDP/TLS/RTP/SAVPF 111''"

lemma sample_contains:
  "contains ''v=0'' ''v=''" "\<not> contains sample_m_line ''v=''" "\<not> contains sample_m_line ''o=''"
  "contains sample_m_line ''m=''" "\<not> contains ''a=ssrc:7:x'' ''v=''" "\<not> contains ''a=ssrc:7:x'' ''o=''"
  "\<not> contains ''a=ssrc:7:x'' ''m=''" "\<not> contains ''a=ssrc:7:x'' ''a=rtpmap''"
  "\<not> contains ''a=ssrc:7:x'' ''a=fingerprint:''" "contains ''a=ssrc:7:x'' ''a=ssrc:''"
  by code_simp+

lemma sample_tokens:
  "tokens (CHR ''='') ''v=0'' = [''v'', ''0'']"
  "tokens (CHR ''='') sample_m_line = [''m'', ''audio 9 UDP/TLS/RTP/SAVPF 111'']"
  "tokens (CHR '' '') ''audio 9 UDP/TLS/RTP/SAVPF 111'' = [''audio'', ''9'', ''UDP/TLS/RTP/SAVPF'', ''111'']"
  "behind_colon ''a=ssrc:7:x'' = ''7:x''" "tokens (CHR '':'') ''7:x'' = [''7'', ''x'']" "tokens (CHR '' '') ''7'' = [''7'']"
  by code_simp+

lemma bare_ssrc_crashes:
  "parse_sdp [''v=0'', sample_m_line, ''a=ssrc:7:x''] SessionDescription_new = crash OutOfBounds"
  by (simp add: parse_sdp_def parse_line_def sample_contains sample_tokens parse_version_def parse_media_def
      k_media_proto_dtls_savpf_def Let_def on_content_def parse_ssrcs_def nth_res_def)

text \<open>What the lines in front of a line leave, when each of them is parsed and succeeds.\<close>

fun run_lines ::
  "string list \<Rightarrow> bool \<times> nat option \<times> SessionDescription \<Rightarrow> (bool \<times> nat option \<times> SessionDescription) option" where
  "run_lines [] st = Some st"
| "run_lines (line # lines) st =
     (case parse_line line st of
        Inr (True, ptr, sd) \<Rightarrow> run_lines lines (True, ptr, sd)
      | _ \<Rightarrow> None)"

definition reaches_bare_ssrc :: "string list \<Rightarrow> bool \<times> nat option \<times> SessionDescription \<Rightarrow> bool" where
  "reaches_bare_ssrc vecs st =
     (\<exists>before line behind flag i sd'. vecs = before @ line # behind \<and>
        run_lines before st = Some (flag, Some i, sd') \<and> bare_ssrc line)"

lemma reaches_bare_Cons:
  "reaches_bare_ssrc (line # lines) (flag, ptr, sd) \<longleftrightarrow>
     ptr \<noteq> None \<and> bare_ssrc line \<or>
     (\<exists>p sd'. parse_line line (flag, ptr, sd) = ok (True, p, sd') \<and> reaches_bare_ssrc lines (True, p, sd'))"
    (is "?l \<longleftrightarrow> ?here \<or> ?later")
proof
  assume ?l
  then obtain before x behind f i sd' where x: "line # lines = before @ x # behind"
    "run_lines before (flag, ptr, sd) = Some (f, Some i, sd')" "bare_ssrc x" by (auto simp: reaches_bare_ssrc_def)
  show "?here \<or> ?later"
  proof (cases before)
    case Nil
    with x show ?thesis by auto
  next
    case (Cons y before')
    with x show ?thesis
      by (fastforce simp: reaches_bare_ssrc_def split: sum.splits prod.splits bool.splits)
  qed
next
  assume "?here \<or> ?later"
  then show ?l
  proof
    assume ?here
    then show ?l unfolding reaches_bare_ssrc_def
      by (intro exI [of _ "[]"] exI [of _ line] exI [of _ lines] exI [of _ flag] exI [of _ "the ptr"] exI [of _ sd]) auto
  next
    assume ?later
    then obtain p sd' before x behind f i sd'' where
      "parse_line line (flag, ptr, sd) = ok (True, p, sd')" "lines = before @ x # behind"
      "run_lines before (True, p, sd') = Some (f, Some i, sd'')" "bare_ssrc x" by (auto simp: reaches_bare_ssrc_def)
    then show ?l unfolding reaches_bare_ssrc_def by (intro exI [of _ "line # before"]) auto
  qed
qed

lemma parse_lines_crash_iff:
  "ptr_ok ptr sd \<Longrightarrow>
   parse_lines vecs (flag, ptr, sd) = crash fl \<longleftrightarrow> fl = OutOfBounds \<and> reaches_bare_ssrc vecs (flag, ptr, sd)"
proof (induction vecs arbitrary: flag ptr sd)
  case Nil
  then show ?case by (simp add: reaches_bare_ssrc_def)
next
  case (Cons line lines)
  show ?case
  proof (cases "ptr \<noteq> None \<and> bare_ssrc line")
    case True
    then have "parse_line line (flag, ptr, sd) = crash OutOfBounds" using parse_line_crash by auto
    with True show ?thesis by (auto simp: reaches_bare_Cons)
  next
    case False
    with Cons.prems obtain f p sd' where l: "parse_line line (flag, ptr, sd) = ok (f, p, sd')" "ptr_ok p sd'"
      using parse_line_ok [of line ptr sd flag] by auto
    from Cons.IH [OF l(2), of f] l(1) False show ?thesis by (cases f) (auto simp: reaches_bare_Cons)
  qed
qed


section \<open>Reading what was printed\<close>

lemma find_behind_prefix:
  assumes "CHR '':'' \<notin> set p"
  shows "str_find (p @ CHR '':'' # r) '':'' 0 = Some (length p)" "behind_colon (p @ CHR '':'' # r) = r"
proof -
  show f: "str_find (p @ CHR '':'' # r) '':'' 0 = Some (length p)"
    using assms by (simp add: str_find_single takeWhile_append)
  show "behind_colon (p @ CHR '':'' # r) = r" by (simp add: behind_colon_def f)
qed

lemma concat_join: "t @ concat (map (\<lambda>s. c # f s) xs) = join_by c (t # map f xs)"
proof (induction xs arbitrary: t)
  case (Cons x xs)
  have "join_by c ((c # f x) # map f xs) = c # join_by c (f x # map f xs)" by (cases xs) simp_all
  then show ?case using Cons [of "f x"] by simp
qed simp

lemma dec_nat_chars:
  "CHR '' '' \<notin> set (dec_nat n)" "CHR '':'' \<notin> set (dec_nat n)" "CHR ''='' \<notin> set (dec_nat n)"
  using dec_nat_digits [of "CHR '' ''" n] dec_nat_digits [of "CHR '':''" n] dec_nat_digits [of "CHR ''=''" n]
  by (auto simp: isdigit_def)

lemma dec_int_chars:
  "CHR '' '' \<notin> set (dec_int i)" "CHR ''='' \<notin> set (dec_int i)" "dec_int i \<noteq> []"
  by (simp_all add: dec_int_def dec_nat_chars)

lemma ssrc_text: "word_of_int (atoll (dec_nat (unat (s :: u32)))) = s"
proof -
  have "unat s < 2 ^ 32" using unsigned_less [of s] by simp
  then have "atoll (dec_nat (unat s)) = int (unat s)" by (intro atoll_dec_nat) simp
  then show ?thesis by simp
qed

lemma atoi_dec_int:
  assumes "0 \<le> i" "i < 2 ^ 31" shows "atoi (dec_int i) = i"
proof -
  have "atoll (dec_int i) = i" using assms atoll_dec_nat [of "nat i"] by (simp add: dec_int_def)
  moreover have "sint (word_of_int i :: 32 word) = i"
    unfolding sint_sbintrunc' using assms by (intro signed_take_bit_int_eq_self) auto
  ultimately show ?thesis by (simp add: atoi_def)
qed

definition ssrc_wf :: "SsrcParameter \<Rightarrow> bool" where
  "ssrc_wf s =
     (sp_attri s \<noteq> [] \<and> CHR '' '' \<notin> set (sp_attri s) \<and> CHR '':'' \<notin> set (sp_attri s) \<and>
      sp_value s \<noteq> [] \<and> CHR '':'' \<notin> set (sp_value s))"

lemma ssrc_line_parses:
  assumes "ssrc_wf s"
  shows "\<exists>line. print_ssrc s = line @ crlf \<and> parse_ssrcs line c = ok (True, c\<lparr>mc_ssrcs := mc_ssrcs c @ [s]\<rparr>)"
proof -
  let ?D = "dec_nat (unat (sp_ssrc s))"
  define line where "line = ''a=ssrc'' @ CHR '':'' # (?D @ CHR '' '' # sp_attri s) @ CHR '':'' # sp_value s"
  have "print_ssrc s = line @ crlf" using assms by (simp add: print_ssrc_def line_def ssrc_wf_def)
  moreover have "behind_colon line = (?D @ CHR '' '' # sp_attri s) @ CHR '':'' # sp_value s"
    unfolding line_def by (rule find_behind_prefix) simp
  then have "tokens (CHR '':'') (behind_colon line) = [?D @ CHR '' '' # sp_attri s, sp_value s]"
    using assms by (simp only: tokens_append_sep ssrc_wf_def dec_nat_chars set_append set_simps
        Un_iff insert_iff append_is_Nil_conv list.distinct char.inject simp_thms) simp?
  moreover have "tokens (CHR '' '') (?D @ CHR '' '' # sp_attri s) = [?D, sp_attri s]"
    using assms by (simp add: tokens_append_sep ssrc_wf_def dec_nat_chars)
  ultimately show ?thesis
    by (intro exI [of _ line]) (simp add: parse_ssrcs_def nth_res_def ssrc_text del: of_nat_unat word_of_int_uint)
qed

lemma ssrc_group_line_parses:
  assumes "sg_semantic g \<noteq> []" "CHR '' '' \<notin> set (sg_semantic g)" "sg_ssrcs g \<noteq> []"
  shows "\<exists>line. print_ssrc_group g = line @ crlf \<and>
    parse_ssrc_groups line c = ok (True, c\<lparr>mc_ssrc_groups := mc_ssrc_groups c @ [g]\<rparr>)"
proof -
  let ?ts = "sg_semantic g # map (\<lambda>s. dec_nat (unat s)) (sg_ssrcs g)"
  define line where "line = ''a=ssrc-group'' @ CHR '':'' # join_by (CHR '' '') ?ts"
  have "print_ssrc_group g = line @ crlf"
    using concat_join [of "sg_semantic g" "CHR '' ''" "\<lambda>s. dec_nat (unat s)" "sg_ssrcs g"]
    by (simp add: print_ssrc_group_def line_def)
  moreover have "behind_colon line = join_by (CHR '' '') ?ts"
    unfolding line_def by (rule find_behind_prefix) simp
  moreover have "tokens (CHR '' '') (join_by (CHR '' '') ?ts) = ?ts"
    using assms dec_nat_chars by (intro tokens_join) auto
  moreover have "map (\<lambda>s. word_of_int (atoll s)) (map (\<lambda>s. dec_nat (unat s)) (sg_ssrcs g)) = sg_ssrcs g"
    unfolding map_map comp_def ssrc_text by simp
  ultimately show ?thesis
    using assms(3) by (intro exI [of _ line]) (simp add: parse_ssrc_groups_def comp_def Suc_le_eq)
qed

lemma fips_names: "IsFips180DigestAlgorithm alg \<Longrightarrow> alg \<noteq> [] \<and> CHR '' '' \<notin> set alg"
  by (auto simp: IsFips180DigestAlgorithm_def digest_names)

lemma hex_encode_char_in: "hex_encode_char n \<in> insert (CHR 0x21) (set HEX)"
proof -
  have "length HEX = 16" by (simp add: HEX_def)
  then show ?thesis by (simp add: hex_encode_char_def)
qed

lemma hex_encode_loop_chars: "set (hex_encode_loop d s) \<subseteq> insert d (insert (CHR 0x21) (set HEX))"
  using hex_encode_char_in by (induction s) auto

lemma toupper_blank: "toupper c = CHR '' '' \<longleftrightarrow> c = CHR '' ''"
proof -
  have "(char_of (n - 32) :: char) \<noteq> CHR '' ''" if "97 \<le> n" "n \<le> 122" for n :: nat
  proof
    assume "(char_of (n - 32) :: char) = CHR '' ''"
    then have "(of_char (char_of (n - 32) :: char) :: nat) = of_char (CHR '' '')" by simp
    with that show False by simp
  qed
  then show ?thesis by (auto simp: toupper_def Let_def)
qed

lemma fingerprint_no_blank: "CHR '' '' \<notin> set (GetRfc4572Fingerprint fpr)"
proof
  assume "CHR '' '' \<in> set (GetRfc4572Fingerprint fpr)"
  then obtain c where "c \<in> set (hex_encode_loop (CHR '':'') (string_of_bytes (fp_digest fpr)))" "CHR '' '' = toupper c"
    by (auto simp: GetRfc4572Fingerprint_def hex_encode_with_delimiter_eq)
  with hex_encode_loop_chars [of "CHR '':''" "string_of_bytes (fp_digest fpr)"]
  have "toupper c = CHR '' ''" "c \<in> insert (CHR '':'') (insert (CHR 0x21) (set HEX))" by auto
  then show False by (auto simp: toupper_blank HEX_def)
qed

lemma fingerprint_nonempty: "fp_digest fpr \<noteq> [] \<Longrightarrow> GetRfc4572Fingerprint fpr \<noteq> []"
  by (cases "fp_digest fpr")
    (simp_all add: GetRfc4572Fingerprint_def hex_encode_with_delimiter_eq string_of_bytes_def)

lemma fingerprint_line_parses:
  assumes "IsFips180DigestAlgorithm (fp_algorithm fpr)" "fp_digest fpr \<noteq> []" "length (fp_digest fpr) \<le> kMaxSize"
  shows "\<exists>line d. print_fingerprint fpr = line @ crlf \<and> dp_identity_fp d = Some fpr \<and>
    res_bind (parse_dtls line c) (\<lambda>(f, c'). set_identity_fp c') = ok (True, c\<lparr>mc_dtls := Some d\<rparr>)"
proof -
  let ?F = "GetRfc4572Fingerprint fpr"
  define line where "line = ''a=fingerprint'' @ CHR '':'' # fp_algorithm fpr @ CHR '' '' # ?F"
  have "print_fingerprint fpr = line @ crlf" by (simp add: print_fingerprint_def line_def)
  moreover have "str_find line '':'' 0 = Some 13"
    unfolding line_def using find_behind_prefix(1) [of "''a=fingerprint''"] by simp
  moreover have "drop 14 line = fp_algorithm fpr @ CHR '' '' # ?F" by (simp add: line_def)
  moreover have "tokens (CHR '' '') (fp_algorithm fpr @ CHR '' '' # ?F) = [fp_algorithm fpr, ?F]"
    using fips_names [OF assms(1)] fingerprint_no_blank fingerprint_nonempty [OF assms(2)]
    by (simp add: tokens_append_sep)
  ultimately show ?thesis
    using fingerprint_parse_print [OF assms]
    by (intro exI [of _ line] exI [of _ "\<lparr>dp_alg = fp_algorithm fpr, dp_finger_print = ?F, dp_identity_fp = Some fpr\<rparr>"])
      (simp add: parse_dtls_def set_identity_fp_def)
qed

lemma join_by_free: "\<forall>t \<in> set ts. d \<notin> set t \<Longrightarrow> d \<noteq> c \<Longrightarrow> d \<notin> set (join_by c ts)"
  by (induction c ts rule: join_by.induct) auto

lemma payload_loop_keys: "set (map fst (payload_loop ts ids)) = set (map atoi ts) \<union> set (map fst ids)"
proof (induction ts ids rule: payload_loop.induct)
  case (2 t ts ids)
  then show ?case by (simp add: AList.dom_update)
qed simp

lemma m_line_parses:
  assumes "\<forall>r \<in> set (mc_rtpmaps c). 0 \<le> ci_payload_type r \<and> ci_payload_type r < 2 ^ 31" "mc_rtpmaps c \<noteq> []"
  shows "\<exists>line support. print_m_line c = line @ crlf \<and>
    parse_media line sd = ok (Some (length (sd_media_contents sd)),
      (case mc_type c of MEDIA_TYPE_VIDEO \<Rightarrow> sd\<lparr>sd_video_sup := support\<rparr> | MEDIA_TYPE_AUDIO \<Rightarrow> sd\<lparr>sd_audio_sup := support\<rparr>)
        \<lparr>sd_media_contents := sd_media_contents sd @ [MediaContent_new (mc_type c)]\<rparr>) \<and>
    sup_port support = 9 \<and> sup_dtls support = mc_use_dtls c \<and>
    set (map fst (sup_codec_ids support)) = ci_payload_type ` set (mc_rtpmaps c)"
proof -
  let ?proto = "if mc_use_dtls c then k_media_proto_dtls_savpf else k_media_proto_savpf"
  let ?pts = "map (\<lambda>r. dec_int (ci_payload_type r)) (mc_rtpmaps c)"
  let ?ts = "mc_name (mc_type c) # ''9'' # ?proto # ?pts"
  define line where "line = ''m'' @ CHR ''='' # join_by (CHR '' '') ?ts"
  define support where "support = \<lparr>sup_name = [], sup_port = 9, sup_dtls = mc_use_dtls c, sup_codec_ids = payload_loop ?pts []\<rparr>"
  have names: "mc_name t \<noteq> []" "CHR '' '' \<notin> set (mc_name t)" "CHR ''='' \<notin> set (mc_name t)" for t
    by (cases t; simp)+
  have proto: "?proto \<noteq> []" "CHR '' '' \<notin> set ?proto" "CHR ''='' \<notin> set ?proto"
    by (auto simp: k_media_proto_dtls_savpf_def k_media_proto_savpf_def)
  have line: "print_m_line c = line @ crlf"
    using concat_join [of ?proto "CHR '' ''" "\<lambda>r. dec_int (ci_payload_type r)" "mc_rtpmaps c"]
    by (simp add: print_m_line_def line_def)
  have free: "CHR ''='' \<notin> set (join_by (CHR '' '') ?ts)"
    using names(3) proto(3) dec_int_chars by (intro join_by_free ballI) auto
  have "join_by (CHR '' '') ?ts \<noteq> []" using names(1) by simp
  then have "tokens (CHR ''='') line = [''m'', join_by (CHR '' '') ?ts]"
    unfolding line_def using tokens_append_sep(1) [of "''m''" "CHR ''=''" "join_by (CHR '' '') ?ts"]
      tokens_append_sep(2) [OF _ free] by simp
  moreover have "tokens (CHR '' '') (join_by (CHR '' '') ?ts) = ?ts"
    using names proto dec_int_chars by (intro tokens_join) auto
  moreover have "atoi ''9'' = 9" by code_simp
  moreover have "mc_name t = ''video'' \<longleftrightarrow> t = MEDIA_TYPE_VIDEO" "mc_name t = ''audio'' \<longleftrightarrow> t = MEDIA_TYPE_AUDIO" for t
    by (cases t; simp)+
  moreover have "k_media_proto_dtls_savpf \<noteq> k_media_proto_savpf"
    by (simp add: k_media_proto_dtls_savpf_def k_media_proto_savpf_def)
  ultimately have media: "parse_media line sd = ok (Some (length (sd_media_contents sd)),
      (case mc_type c of MEDIA_TYPE_VIDEO \<Rightarrow> sd\<lparr>sd_video_sup := support\<rparr> | MEDIA_TYPE_AUDIO \<Rightarrow> sd\<lparr>sd_audio_sup := support\<rparr>)
        \<lparr>sd_media_contents := sd_media_contents sd @ [MediaContent_new (mc_type c)]\<rparr>)"
    using assms(2) by (cases "mc_type c"; cases "mc_use_dtls c") (simp_all add: parse_media_def support_def Let_def)
  have "set (map atoi ?pts) = ci_payload_type ` set (mc_rtpmaps c)"
    using assms(1) atoi_dec_int by (force simp: image_image)
  then have "set (map fst (sup_codec_ids support)) = ci_payload_type ` set (mc_rtpmaps c)"
    using payload_loop_keys [of ?pts "[]"] by (simp add: support_def)
  with line media show ?thesis by (intro exI [of _ line] exI [of _ support]) (simp add: support_def)
qed

text \<open>
  C18: The server reads back the lines it prints: the media line gives a content of the same type whose codecs
  are the payload types printed, the fingerprint line gives the certificate fingerprint, and the lines of
  an SSRC and of a group of SSRCs append the same record.
\<close>
theorem sdp_lines_roundtrip:
  assumes "\<forall>r \<in> set (mc_rtpmaps c). 0 \<le> ci_payload_type r \<and> ci_payload_type r < 2 ^ 31" "mc_rtpmaps c \<noteq> []"
    and "IsFips180DigestAlgorithm (fp_algorithm fpr)" "fp_digest fpr \<noteq> []" "length (fp_digest fpr) \<le> kMaxSize"
    and "ssrc_wf s"
    and "sg_semantic g \<noteq> []" "CHR '' '' \<notin> set (sg_semantic g)" "sg_ssrcs g \<noteq> []"
  shows
    "(\<exists>line support sd'. print_m_line c = line @ crlf \<and>
        parse_media line sd = ok (Some (length (sd_media_contents sd)), sd') \<and>
        sd_media_contents sd' = sd_media_contents sd @ [MediaContent_new (mc_type c)] \<and>
        (case mc_type c of MEDIA_TYPE_VIDEO \<Rightarrow> sd_video_sup sd' | MEDIA_TYPE_AUDIO \<Rightarrow> sd_audio_sup sd') = support \<and>
        set (map fst (sup_codec_ids support)) = ci_payload_type ` set (mc_rtpmaps c)) \<and>
     (\<exists>line d. print_fingerprint fpr = line @ crlf \<and> dp_identity_fp d = Some fpr \<and>
        res_bind (parse_dtls line c) (\<lambda>(f, c'). set_identity_fp c') = ok (True, c\<lparr>mc_dtls := Some d\<rparr>)) \<and>
     (\<exists>line. print_ssrc s = line @ crlf \<and> parse_ssrcs line c = ok (True, c\<lparr>mc_ssrcs := mc_ssrcs c @ [s]\<rparr>)) \<and>
     (\<exists>line. print_ssrc_group g = line @ crlf \<and>
        parse_ssrc_groups line c = ok (True, c\<lparr>mc_ssrc_groups := mc_ssrc_groups c @ [g]\<rparr>))"
proof -
  obtain line support where m: "print_m_line c = line @ crlf"
    "parse_media line sd = ok (Some (length (sd_media_contents sd)),
      (case mc_type c of MEDIA_TYPE_VIDEO \<Rightarrow> sd\<lparr>sd_video_sup := support\<rparr> | MEDIA_TYPE_AUDIO \<Rightarrow> sd\<lparr>sd_audio_sup := support\<rparr>)
        \<lparr>sd_media_contents := sd_media_contents sd @ [MediaContent_new (mc_type c)]\<rparr>)"
    "set (map fst (sup_codec_ids support)) = ci_payload_type ` set (mc_rtpmaps c)"
    using m_line_parses [OF assms(1,2)] by blast
  then have "\<exists>line support sd'. print_m_line c = line @ crlf \<and>
        parse_media line sd = ok (Some (length (sd_media_contents sd)), sd') \<and>
        sd_media_contents sd' = sd_media_contents sd @ [MediaContent_new (mc_type c)] \<and>
        (case mc_type c of MEDIA_TYPE_VIDEO \<Rightarrow> sd_video_sup sd' | MEDIA_TYPE_AUDIO \<Rightarrow> sd_audio_sup sd') = support \<and>
        set (map fst (sup_codec_ids support)) = ci_payload_type ` set (mc_rtpmaps c)"
    by (intro exI [of _ line] exI [of _ support]) (cases "mc_type c"; simp)
  then show ?thesis
    using fingerprint_line_parses [OF assms(3-5)] ssrc_line_parses [OF assms(6)] ssrc_group_line_parses [OF assms(7-9)]
    by blast
qed

lemma sdp_lines_roundtrip_witness:
  "\<exists>line. print_ssrc \<lparr>sp_ssrc = 7, sp_attri = ''cname'', sp_value = ''x''\<rparr> = line @ crlf \<and>
     parse_ssrcs line (video_answer \<lparr>send_audio = False, send_video = False, recv_audio = True, recv_video = True, use_rtcp_mux = True\<rparr> RecvOnly None) =
       ok (True, (video_answer \<lparr>send_audio = False, send_video = False, recv_audio = True, recv_video = True, use_rtcp_mux = True\<rparr> RecvOnly None)
         \<lparr>mc_ssrcs := [\<lparr>sp_ssrc = 7, sp_attri = ''cname'', sp_value = ''x''\<rparr>]\<rparr>)"
proof -
  let ?c = "video_answer \<lparr>send_audio = False, send_video = False, recv_audio = True, recv_video = True, use_rtcp_mux = True\<rparr> RecvOnly None"
  have c: "map ci_payload_type (mc_rtpmaps ?c) = [108, 109]" "mc_ssrcs ?c = []"
    by (simp_all add: video_answer_def MediaContent_new_def Let_def)
  then have "\<forall>r \<in> set (mc_rtpmaps ?c). 0 \<le> ci_payload_type r \<and> ci_payload_type r < 2 ^ 31" "mc_rtpmaps ?c \<noteq> []"
    by (auto dest!: map_eq_Cons_D)
  then show ?thesis
    using sdp_lines_roundtrip [of ?c "\<lparr>fp_algorithm = ''sha-256'', fp_digest = [1]\<rparr>" "\<lparr>sp_ssrc = 7, sp_attri = ''cname'', sp_value = ''x''\<rparr>"
        "\<lparr>sg_semantic = ''FID'', sg_ssrcs = [7, 8]\<rparr>" SessionDescription_new] c(2)
    by (simp add: IsFips180DigestAlgorithm_def digest_names kMaxSize_def ssrc_wf_def)
qed

section \<open>The answer\<close>

definition describes_server :: "string \<times> int \<Rightarrow> RTCOfferAnswerOptions \<Rightarrow> MediaContent \<Rightarrow> bool" where
  "describes_server addr options c =
     (mc_direct c = answer_direction options \<and> mc_connection_role c = ''passive'' \<and> ice_mode (mc_ice c) = ''ice-lite'' \<and>
      length (mc_cands c) = 1 \<and> ca_port (mc_cands c ! 0) = snd addr \<and>
      ca_username (mc_cands c ! 0) = ufrag (mc_ice c) \<and> ca_password (mc_cands c ! 0) = passwd (mc_ice c))"

lemma audio_answer_fields:
  "mc_type (audio_answer options dir peer) = MEDIA_TYPE_AUDIO" "mc_direct (audio_answer options dir peer) = dir"
  "mc_ssrcs (audio_answer options dir (Some contents)) =
     (case get_media_content contents MEDIA_TYPE_AUDIO of
        None \<Rightarrow> [] | Some offer \<Rightarrow> if send_audio options then mc_ssrcs offer else [])"
  by (simp_all add: audio_answer_def MediaContent_new_def Let_def split: option.split)

lemma video_answer_fields:
  "mc_type (video_answer options dir peer) = MEDIA_TYPE_VIDEO" "mc_direct (video_answer options dir peer) = dir"
  "mc_ssrcs (video_answer options dir (Some contents)) =
     (case get_media_content contents MEDIA_TYPE_VIDEO of
        None \<Rightarrow> [] | Some offer \<Rightarrow> if send_video options then mc_ssrcs offer else [])"
  by (simp_all add: video_answer_def MediaContent_new_def Let_def split: option.split)

lemma IceCandidate_new_port: "ca_port (IceCandidate_new pton6 ip port) = port"
  by (simp add: IceCandidate_new_def)

text \<open>
  C11: An answer adds exactly an audio and a video content, in this order, with the direction the options ask
  for, the passive DTLS role, and one candidate at the server's port; both share one ICE user
  fragment of 4 and one password of 24 base64 characters, the candidate's too. A pull answer carries the
  SSRCs of the publisher's offer. Without a certificate nothing is added.
\<close>
theorem answer_describes_server:
  assumes "fills rand_bytes" "fst (Generate rand_bytes 4 g) \<noteq> None"
    and "\<And>g'. fst (Generate rand_bytes 24 g') \<noteq> None"
  shows "(\<exists>a v g'. create_answer rand_bytes pton6 ntop6 (Some fpr) options addr g sd =
      ok (sd\<lparr>sd_addr := addr, sd_fingerprint := Some fpr, sd_media_contents := sd_media_contents sd @ [a, v]\<rparr>, g') \<and>
      mc_type a = MEDIA_TYPE_AUDIO \<and> mc_type v = MEDIA_TYPE_VIDEO \<and>
      describes_server addr options a \<and> describes_server addr options v \<and>
      mc_ice a = mc_ice v \<and> length (ufrag (mc_ice a)) = 4 \<and> length (passwd (mc_ice a)) = 24 \<and>
      set (ufrag (mc_ice a)) \<union> set (passwd (mc_ice a)) \<subseteq> set kBase64 \<and>
      (\<forall>contents offer. sd_peer_offer_sdp sd = Some contents \<longrightarrow>
         (send_audio options \<and> get_media_content contents MEDIA_TYPE_AUDIO = Some offer \<longrightarrow> mc_ssrcs a = mc_ssrcs offer) \<and>
         (send_video options \<and> get_media_content contents MEDIA_TYPE_VIDEO = Some offer \<longrightarrow> mc_ssrcs v = mc_ssrcs offer))) \<and>
    create_answer rand_bytes pton6 ntop6 None options addr g sd = ok (sd\<lparr>sd_addr := addr, sd_fingerprint := None\<rparr>, g)"
proof -
  obtain uf g1 where u: "CreateRandomString rand_bytes 4 g = ok (uf, g1)" "set uf \<subseteq> set kBase64" "length uf = 4"
    using assms(2) by (auto intro: CreateRandomString_result [OF assms(1), of 4 g])
  obtain pw g2 where p: "CreateRandomString rand_bytes 24 g1 = ok (pw, g2)" "set pw \<subseteq> set kBase64" "length pw = 24"
    using assms(3) by (auto intro: CreateRandomString_result [OF assms(1), of 24 g1])
  define a where "a = (audio_answer options (answer_direction options) (sd_peer_offer_sdp sd))
    \<lparr>mc_ice := \<lparr>ice_mode = ''ice-lite'', ufrag = uf, passwd = pw\<rparr>, mc_connection_role := ''passive'',
     mc_cands := [answer_candidate pton6 ntop6 addr uf pw]\<rparr>"
  define v where "v = (video_answer options (answer_direction options) (sd_peer_offer_sdp sd))
    \<lparr>mc_ice := \<lparr>ice_mode = ''ice-lite'', ufrag = uf, passwd = pw\<rparr>, mc_connection_role := ''passive'',
     mc_cands := [answer_candidate pton6 ntop6 addr uf pw]\<rparr>"
  have "create_answer rand_bytes pton6 ntop6 (Some fpr) options addr g sd =
      ok (sd\<lparr>sd_addr := addr, sd_fingerprint := Some fpr, sd_media_contents := sd_media_contents sd @ [a, v]\<rparr>, g2)"
    using u(1) p(1) by (simp add: create_answer_def Let_def a_def v_def)
  moreover have "describes_server addr options a" "describes_server addr options v"
    by (simp_all add: describes_server_def a_def v_def audio_answer_fields video_answer_fields answer_candidate_def Let_def
        IceCandidate_new_port)
  ultimately show ?thesis
    using u p by (intro conjI exI [of _ a] exI [of _ v] exI [of _ g2])
      (auto simp: a_def v_def audio_answer_fields video_answer_fields create_answer_def)
qed

lemma answer_describes_server_witness:
  "\<exists>a v g'. create_answer sample_rand (\<lambda>_. None) (\<lambda>_. None) (Some \<lparr>fp_algorithm = ''sha-256'', fp_digest = [1]\<rparr>)
      \<lparr>send_audio = False, send_video = False, recv_audio = True, recv_video = True, use_rtcp_mux = True\<rparr>
      (''10.0.0.1'', 9000) \<lparr>rg_test = None, rg_os = 3\<rparr> SessionDescription_new =
      ok (SessionDescription_new\<lparr>sd_addr := (''10.0.0.1'', 9000),
        sd_fingerprint := Some \<lparr>fp_algorithm = ''sha-256'', fp_digest = [1]\<rparr>, sd_media_contents := [a, v]\<rparr>, g') \<and>
      mc_ice a = mc_ice v"
proof -
  let ?opt = "\<lparr>send_audio = False, send_video = False, recv_audio = True, recv_video = True, use_rtcp_mux = True\<rparr>"
  let ?g = "\<lparr>rg_test = None, rg_os = 3\<rparr> :: nat rng"
  have "fst (Generate sample_rand n g) \<noteq> None" for n and g :: "nat rng"
    by (auto simp: Generate_def sample_rand_def split: option.split prod.split)
  then show ?thesis
    using answer_describes_server [OF sample_rand_fills, of ?g "\<lambda>_. None" "\<lambda>_. None"
        "\<lparr>fp_algorithm = ''sha-256'', fp_digest = [1]\<rparr>" ?opt "(''10.0.0.1'', 9000)" SessionDescription_new]
    by (simp add: SessionDescription_new_def) blast
qed

end
