(* ===== verification/SslStream.thy ===== *)
theory SslStream
  imports Dtls
begin

text \<open>
  \<^verbatim>\<open>rtc_base/openssl_stream_adapter.{h,cc}\<close>, with what it uses of \<^verbatim>\<open>openssl_certificate.cc\<close> and
  \<^verbatim>\<open>openssl_identity.cc\<close>: the DTLS adapter of \<open>Dtls\<close>, its six states, the verification of the peer's
  certificate against the fingerprint of the signaled description, and the BIO through which the
  TLS engine reads and writes the stream.

  The engine is OpenSSL, the parameter \<open>lib\<close>. A call of it that can call back is an interaction
  tree (\<open>ssl_call\<close>): it reads and writes through the BIO, asks the BIO control questions and has the
  peer's certificate verified, each answered by the code modelled here, before it returns a
  code, the value of \<^verbatim>\<open>SSL_get_error\<close>, the bytes read and the new state of the \<^verbatim>\<open>SSL\<close> object. Signals to
  the owner are the \<open>Signal\<close>s of \<open>Dtls\<close>. The main result is that keys and data are only handed out
  for a peer whose certificate has the expected digest.
\<close>

section \<open>State\<close>

datatype SSLState = SSL_NONE | SSL_WAIT | SSL_CONNECTING | SSL_CONNECTED | SSL_ERROR | SSL_CLOSED
datatype SSLRole = SSL_CLIENT | SSL_SERVER
datatype SSLMode = SSL_MODE_TLS | SSL_MODE_DTLS
datatype SSLProtocolVersion = SSL_PROTOCOL_NOT_GIVEN | SSL_PROTOCOL_TLS_10 | SSL_PROTOCOL_TLS_11 | SSL_PROTOCOL_TLS_12
datatype SSLPeerCertificateDigestError = NONE_ERROR | UNKNOWN_ALGORITHM | INVALID_LENGTH | VERIFICATION_FAILED

text \<open>The DTLS versions are the same values of the enumeration as two of the TLS versions.\<close>

abbreviation SSL_PROTOCOL_DTLS_10 :: SSLProtocolVersion where "SSL_PROTOCOL_DTLS_10 \<equiv> SSL_PROTOCOL_TLS_11"
abbreviation SSL_PROTOCOL_DTLS_12 :: SSLProtocolVersion where "SSL_PROTOCOL_DTLS_12 \<equiv> SSL_PROTOCOL_TLS_12"

definition SSE_MSG_TRUNC :: int where "SSE_MSG_TRUNC = 0xff0001"

record OpenSSLIdentity =
  id_cert_chain :: "bytes list"
  id_key_pair :: bytes

text \<open>The settings of an \<^verbatim>\<open>SSL_CTX\<close>.\<close>

record ssl_ctx =
  ctx_mode :: SSLMode
  ctx_min_version :: nat
  ctx_max_version :: nat
  ctx_identity :: "OpenSSLIdentity option"
  ctx_verify_mode :: nat
  ctx_verify_callback :: bool
  ctx_cipher_list :: string
  ctx_srtp :: string

record 's OpenSSLStreamAdapter =
  oa_state :: SSLState
  oa_role :: SSLRole
  oa_error_code :: int
  oa_read_needs_write :: bool
  oa_write_needs_read :: bool
  oa_ssl :: "'s option"
  oa_ssl_ctx :: "ssl_ctx option"
  oa_identity :: "OpenSSLIdentity option"
  oa_peer_cert_chain :: "bytes list option"
  oa_verified :: bool
  oa_digest_value :: bytes
  oa_digest_alg :: string
  oa_srtp_ciphers :: string
  oa_mode :: SSLMode
  oa_max_version :: SSLProtocolVersion
  oa_handshake_timeout_ms :: int
  oa_legacy :: bool
  oa_client_auth :: bool
  oa_timeout :: "int option"
  oa_posted :: "(nat \<times> int) list"

text \<open>
  The override is the pair of atomic flags \<^verbatim>\<open>g_use_legacy_tls_protocols_override\<close> and
  \<^verbatim>\<open>g_allow_legacy_tls_protocols\<close>; \<open>trial\<close> is the field trial. The error code of a new adapter has no
  value yet; 0 stands for it. \<open>oa_timeout\<close> is the retransmission task, \<open>oa_posted\<close> what \<^verbatim>\<open>PostEvent\<close> leaves
  in the queue of the owning thread.
\<close>

definition SetAllowLegacyTLSProtocols :: "bool option \<Rightarrow> bool \<times> bool \<Rightarrow> bool \<times> bool" where
  "SetAllowLegacyTLSProtocols allow g =
     (allow \<noteq> None, (case allow of None \<Rightarrow> snd g | Some b \<Rightarrow> b))"

definition ShouldAllowLegacyTLSProtocols :: "bool \<times> bool \<Rightarrow> bool \<Rightarrow> bool" where
  "ShouldAllowLegacyTLSProtocols g trial = (if fst g then snd g else trial)"

definition OpenSSLStreamAdapter_new :: "bool \<Rightarrow> 's OpenSSLStreamAdapter" where
  "OpenSSLStreamAdapter_new legacy =
     \<lparr>oa_state = SSL_NONE, oa_role = SSL_CLIENT, oa_error_code = 0, oa_read_needs_write = False,
      oa_write_needs_read = False, oa_ssl = None, oa_ssl_ctx = None, oa_identity = None,
      oa_peer_cert_chain = None, oa_verified = False, oa_digest_value = [], oa_digest_alg = [],
      oa_srtp_ciphers = [], oa_mode = SSL_MODE_TLS, oa_max_version = SSL_PROTOCOL_TLS_12,
      oa_handshake_timeout_ms = 50, oa_legacy = legacy, oa_client_auth = True, oa_timeout = None, oa_posted = []\<rparr>"

section \<open>The engine\<close>

datatype bio_cmd = BIO_CTRL_RESET | BIO_CTRL_EOF | BIO_CTRL_PENDING | BIO_CTRL_WPENDING | BIO_CTRL_FLUSH | BIO_CTRL_DGRAM_QUERY_MTU | BIO_CTRL_OTHER

datatype 's ssl_call =
    SslReturn int int bytes 's
  | BioRead nat "int \<times> bytes \<Rightarrow> 's ssl_call"
  | BioWrite bytes "int \<Rightarrow> 's ssl_call"
  | BioCtrl bio_cmd "int \<Rightarrow> 's ssl_call"
  | VerifyCert bytes "int \<Rightarrow> 's ssl_call"

definition SSL_ERROR_NONE :: int where "SSL_ERROR_NONE = 0"
definition SSL_ERROR_WANT_READ :: int where "SSL_ERROR_WANT_READ = 2"
definition SSL_ERROR_WANT_WRITE :: int where "SSL_ERROR_WANT_WRITE = 3"
definition SSL_ERROR_ZERO_RETURN :: int where "SSL_ERROR_ZERO_RETURN = 6"

lemmas ssl_errors = SSL_ERROR_NONE_def SSL_ERROR_WANT_READ_def SSL_ERROR_WANT_WRITE_def SSL_ERROR_ZERO_RETURN_def

text \<open>\<open>sl_settings\<close> are the settings an \<^verbatim>\<open>SSL\<close> object has taken over from its context.\<close>

record 's ssl_lib =
  sl_evp :: evp
  sl_CTX_new :: "SSLMode \<Rightarrow> bool"
  sl_use_certificate :: "bytes \<Rightarrow> int"
  sl_use_PrivateKey :: "bytes \<Rightarrow> int"
  sl_add1_chain_cert :: "bytes \<Rightarrow> int"
  sl_set_tlsext_use_srtp :: "string \<Rightarrow> int"
  sl_BIO_new :: bool
  sl_SSL_new :: "ssl_ctx \<Rightarrow> 's option"
  sl_settings :: "'s \<Rightarrow> ssl_ctx"
  sl_connect :: "'s \<Rightarrow> 's ssl_call"
  sl_accept :: "'s \<Rightarrow> 's ssl_call"
  sl_read :: "nat \<Rightarrow> 's \<Rightarrow> 's ssl_call"
  sl_write :: "bytes \<Rightarrow> 's \<Rightarrow> 's ssl_call"
  sl_shutdown :: "'s \<Rightarrow> 's ssl_call"
  sl_handle_timeout :: "'s \<Rightarrow> 's ssl_call"
  sl_get_timeout :: "'s \<Rightarrow> (int \<times> int) option"
  sl_pending :: "'s \<Rightarrow> nat"
  sl_version :: "'s \<Rightarrow> nat"
  sl_cipher_id :: "'s \<Rightarrow> nat option"
  sl_selected_srtp_profile :: "'s \<Rightarrow> int option"
  sl_export_keying_material :: "string \<Rightarrow> nat \<Rightarrow> 's \<Rightarrow> bytes option"

section \<open>Certificates\<close>

text \<open>
  \<^verbatim>\<open>OpenSSLCertificate::ComputeDigest\<close>: a certificate is its DER encoding, which \<^verbatim>\<open>X509_digest\<close> digests.
\<close>

definition cert_ComputeDigest :: "evp \<Rightarrow> string \<Rightarrow> nat \<Rightarrow> bytes \<Rightarrow> bytes option" where
  "cert_ComputeDigest e algorithm cap cert =
     (case GetDigestEVP algorithm of
        None \<Rightarrow> None
      | Some md \<Rightarrow> if cap < EVP_MD_size e md then None else Some (evp_hash e md cert))"

definition EVP_MAX_MD_SIZE :: nat where "EVP_MAX_MD_SIZE = 64"

definition ConfigureIdentity :: "'s ssl_lib \<Rightarrow> OpenSSLIdentity \<Rightarrow> bool res" where
  "ConfigureIdentity lib identity =
     res_bind (nth_res (id_cert_chain identity) 0) (\<lambda>cert.
       ok (sl_use_certificate lib cert = 1 \<and> sl_use_PrivateKey lib (id_key_pair identity) = 1 \<and>
           list_all (\<lambda>c. sl_add1_chain_cert lib c = 1) (tl (id_cert_chain identity))))"

definition WaitingToVerifyPeerCertificate :: "'s OpenSSLStreamAdapter \<Rightarrow> bool" where
  "WaitingToVerifyPeerCertificate oa = (oa_client_auth oa \<and> \<not> oa_verified oa)"

definition HasPeerCertificateDigest :: "'s OpenSSLStreamAdapter \<Rightarrow> bool" where
  "HasPeerCertificateDigest oa = (oa_digest_alg oa \<noteq> [] \<and> oa_digest_value oa \<noteq> [])"

definition VerifyPeerCertificate :: "evp \<Rightarrow> 's OpenSSLStreamAdapter \<Rightarrow> bool \<times> 's OpenSSLStreamAdapter" where
  "VerifyPeerCertificate e oa =
     (case oa_peer_cert_chain oa of
        Some (cert # _) \<Rightarrow>
          if \<not> HasPeerCertificateDigest oa then (False, oa)
          else
            (case cert_ComputeDigest e (oa_digest_alg oa) EVP_MAX_MD_SIZE cert of
               None \<Rightarrow> (False, oa)
             | Some computed_digest \<Rightarrow>
                 if computed_digest \<noteq> oa_digest_value oa then (False, oa) else (True, oa\<lparr>oa_verified := True\<rparr>))
      | _ \<Rightarrow> (False, oa))"

definition SSLVerifyCallback :: "evp \<Rightarrow> bytes \<Rightarrow> 's OpenSSLStreamAdapter \<Rightarrow> int \<times> 's OpenSSLStreamAdapter" where
  "SSLVerifyCallback e cert oa =
     (let stream = oa\<lparr>oa_peer_cert_chain := Some [cert]\<rparr>
      in if oa_digest_alg stream = [] then (1, stream)
         else (case VerifyPeerCertificate e stream of (good, stream') \<Rightarrow> (if good then 1 else 0, stream')))"

section \<open>StreamBIO\<close>

definition stream_read :: "nat \<Rightarrow> DtlsStreamInterface \<Rightarrow> (int \<times> bytes) \<times> DtlsStreamInterface" where
  "stream_read outl ds =
     (case ds_Read outl ds of
        (SR_SUCCESS, bs, ds') \<Rightarrow> ((int (length bs), bs), ds')
      | (_, _, ds') \<Rightarrow> ((-1, []), ds'))"

definition stream_write :: "bytes \<Rightarrow> DtlsStreamInterface \<Rightarrow> int \<times> sends" where
  "stream_write bs ds =
     (case ds_Write bs ds of
        (SR_SUCCESS, written, out) \<Rightarrow> (int written, out)
      | (_, _, out) \<Rightarrow> (-1, out))"

text \<open>
  The stream whose end is asked for is taken from the argument of the control call, not from the
  data of the BIO, and \<^verbatim>\<open>BIO_eof\<close> passes a null pointer there.
\<close>

definition stream_ctrl :: "bio_cmd \<Rightarrow> DtlsStreamInterface option \<Rightarrow> int res" where
  "stream_ctrl cmd ptr =
     (case cmd of
        BIO_CTRL_EOF \<Rightarrow> res_bind (deref ptr) (\<lambda>stream. ok (if ds_GetState stream = SS_CLOSED then 1 else 0))
      | BIO_CTRL_FLUSH \<Rightarrow> ok 1
      | BIO_CTRL_DGRAM_QUERY_MTU \<Rightarrow> ok 1200
      | _ \<Rightarrow> ok 0)"

text \<open>A call of the engine, answered by the code above.\<close>

type_synonym 's oaw = "'s OpenSSLStreamAdapter \<times> DtlsStreamInterface"

primrec run_call ::
  "'s ssl_call \<Rightarrow> evp \<Rightarrow> 's oaw \<Rightarrow> ((int \<times> int \<times> bytes \<times> 's) \<times> 's oaw \<times> sends) res" where
  "run_call (SslReturn code err bs s) e w = ok ((code, err, bs, s), w, [])"
| "run_call (BioRead n k) e w =
     (case stream_read n (snd w) of (r, ds') \<Rightarrow> run_call (k r) e (fst w, ds'))"
| "run_call (BioWrite bs k) e w =
     (case stream_write bs (snd w) of
        (r, o1) \<Rightarrow> res_bind (run_call (k r) e w) (\<lambda>(x, w', o2). ok (x, w', o1 @ o2)))"
| "run_call (BioCtrl cmd k) e w = res_bind (stream_ctrl cmd None) (\<lambda>r. run_call (k r) e w)"
| "run_call (VerifyCert cert k) e w =
     (case SSLVerifyCallback e cert (fst w) of (r, oa') \<Rightarrow> run_call (k r) e (oa', snd w))"

definition with_ssl ::
  "'s ssl_lib \<Rightarrow> ('s \<Rightarrow> 's ssl_call) \<Rightarrow> 's oaw \<Rightarrow> ((int \<times> int \<times> bytes) \<times> 's oaw \<times> sends) res" where
  "with_ssl lib f w =
     res_bind (deref (oa_ssl (fst w))) (\<lambda>s.
     res_bind (run_call (f s) (sl_evp lib) w) (\<lambda>((code, err, bs, s'), (oa, ds), out).
       ok ((code, err, bs), (oa\<lparr>oa_ssl := Some s'\<rparr>, ds), out)))"

section \<open>Setting up\<close>

definition SetIdentity :: "OpenSSLIdentity \<Rightarrow> 's OpenSSLStreamAdapter \<Rightarrow> 's OpenSSLStreamAdapter" where
  "SetIdentity identity oa = oa\<lparr>oa_identity := Some identity\<rparr>"

definition SetServerRole :: "SSLRole \<Rightarrow> 's OpenSSLStreamAdapter \<Rightarrow> 's OpenSSLStreamAdapter" where
  "SetServerRole role oa = oa\<lparr>oa_role := role\<rparr>"

definition SetMode :: "SSLMode \<Rightarrow> 's OpenSSLStreamAdapter \<Rightarrow> 's OpenSSLStreamAdapter" where
  "SetMode mode oa = oa\<lparr>oa_mode := mode\<rparr>"

definition SetMaxProtocolVersion :: "SSLProtocolVersion \<Rightarrow> 's OpenSSLStreamAdapter \<Rightarrow> 's OpenSSLStreamAdapter" where
  "SetMaxProtocolVersion version oa = oa\<lparr>oa_max_version := version\<rparr>"

text \<open>Only BoringSSL is told the initial timeout.\<close>

definition SetInitialRetransmissionTimeout :: "int \<Rightarrow> 's OpenSSLStreamAdapter \<Rightarrow> 's OpenSSLStreamAdapter" where
  "SetInitialRetransmissionTimeout timeout_ms oa = oa\<lparr>oa_handshake_timeout_ms := timeout_ms\<rparr>"

definition kSrtpCipherMap :: "(string \<times> int) list" where
  "kSrtpCipherMap =
     [(''SRTP_AES128_CM_SHA1_80'', kSrtpAes128CmSha1_80), (''SRTP_AES128_CM_SHA1_32'', kSrtpAes128CmSha1_32),
      (''SRTP_AEAD_AES_128_GCM'', kSrtpAeadAes128Gcm), (''SRTP_AEAD_AES_256_GCM'', kSrtpAeadAes256Gcm)]"

fun srtp_cipher_names :: "int list \<Rightarrow> string \<Rightarrow> string option" where
  "srtp_cipher_names [] internal_ciphers = Some internal_ciphers"
| "srtp_cipher_names (cipher # ciphers) internal_ciphers =
     (case List.find (\<lambda>entry. cipher = snd entry) kSrtpCipherMap of
        None \<Rightarrow> None
      | Some entry \<Rightarrow>
          srtp_cipher_names ciphers
            ((if internal_ciphers \<noteq> [] then internal_ciphers @ '':'' else internal_ciphers) @ fst entry))"

definition oa_SetDtlsSrtpCryptoSuites :: "int list \<Rightarrow> 's OpenSSLStreamAdapter \<Rightarrow> bool \<times> 's OpenSSLStreamAdapter" where
  "oa_SetDtlsSrtpCryptoSuites ciphers oa =
     (if oa_state oa \<noteq> SSL_NONE then (False, oa)
      else
        (case srtp_cipher_names ciphers [] of
           None \<Rightarrow> (False, oa)
         | Some internal_ciphers \<Rightarrow>
             if internal_ciphers = [] then (False, oa) else (True, oa\<lparr>oa_srtp_ciphers := internal_ciphers\<rparr>)))"

definition DTLS1_VERSION :: nat where "DTLS1_VERSION = 0xFEFF"
definition DTLS1_2_VERSION :: nat where "DTLS1_2_VERSION = 0xFEFD"
definition TLS1_VERSION :: nat where "TLS1_VERSION = 0x0301"
definition TLS1_1_VERSION :: nat where "TLS1_1_VERSION = 0x0302"
definition TLS1_2_VERSION :: nat where "TLS1_2_VERSION = 0x0303"
definition SSL_VERIFY_PEER :: nat where "SSL_VERIFY_PEER = 1"
definition SSL_VERIFY_FAIL_IF_NO_PEER_CERT :: nat where "SSL_VERIFY_FAIL_IF_NO_PEER_CERT = 2"

definition kCipherList :: string where
  "kCipherList = ''DEFAULT:!NULL:!aNULL:!SHA256:!SHA384:!aECDH:!AESGCM+AES256:!aPSK:!3DES''"

text \<open>The minimal and maximal protocol version of the context.\<close>

definition protocol_range :: "'s OpenSSLStreamAdapter \<Rightarrow> nat \<times> nat" where
  "protocol_range oa =
     (let dtls = (oa_mode oa = SSL_MODE_DTLS)
      in if oa_legacy oa
         then (if dtls then DTLS1_VERSION else TLS1_VERSION,
               case oa_max_version oa of
                 SSL_PROTOCOL_TLS_10 \<Rightarrow> if dtls then DTLS1_VERSION else TLS1_VERSION
               | SSL_PROTOCOL_TLS_11 \<Rightarrow> if dtls then DTLS1_VERSION else TLS1_1_VERSION
               | _ \<Rightarrow> if dtls then DTLS1_2_VERSION else TLS1_2_VERSION)
         else (if dtls then DTLS1_2_VERSION else TLS1_2_VERSION, if dtls then DTLS1_2_VERSION else TLS1_2_VERSION))"

text \<open>A null context is \<open>None\<close>; \<^verbatim>\<open>SSL_CTX_set_tlsext_use_srtp\<close> returns 0 on success.\<close>

definition SetupSSLContext :: "'s ssl_lib \<Rightarrow> 's OpenSSLStreamAdapter \<Rightarrow> ssl_ctx option res" where
  "SetupSSLContext lib oa =
     (if \<not> sl_CTX_new lib (oa_mode oa) then ok None
      else
        res_bind (case oa_identity oa of None \<Rightarrow> ok True | Some identity \<Rightarrow> ConfigureIdentity lib identity) (\<lambda>good.
          if \<not> good then ok None
          else if oa_srtp_ciphers oa \<noteq> [] \<and> sl_set_tlsext_use_srtp lib (oa_srtp_ciphers oa) \<noteq> 0 then ok None
          else
            ok (Some \<lparr>ctx_mode = oa_mode oa, ctx_min_version = fst (protocol_range oa),
                      ctx_max_version = snd (protocol_range oa), ctx_identity = oa_identity oa,
                      ctx_verify_mode = (if oa_client_auth oa then SSL_VERIFY_PEER OR SSL_VERIFY_FAIL_IF_NO_PEER_CERT
                                         else SSL_VERIFY_PEER),
                      ctx_verify_callback = True, ctx_cipher_list = kCipherList,
                      ctx_srtp = oa_srtp_ciphers oa\<rparr>)))"

section \<open>Errors and closing\<close>

text \<open>The alert is only sent by BoringSSL, so it is not a parameter here.\<close>

definition Cleanup :: "'s ssl_lib \<Rightarrow> 's oaw \<Rightarrow> ('s oaw \<times> sends) res" where
  "Cleanup lib w =
     (let oa = fst w;
          oa1 = (if oa_state oa \<noteq> SSL_ERROR then oa\<lparr>oa_state := SSL_CLOSED, oa_error_code := 0\<rparr> else oa)
      in res_bind
           (if oa_ssl oa1 \<noteq> None
            then res_bind (with_ssl lib (sl_shutdown lib) (oa1, snd w)) (\<lambda>(_, w2, out). ok (w2, out))
            else ok ((oa1, snd w), []))
           (\<lambda>((oa2, ds), out).
              ok ((oa2\<lparr>oa_ssl := None, oa_ssl_ctx := None, oa_identity := None, oa_peer_cert_chain := None,
                       oa_timeout := None\<rparr>, ds), out)))"

text \<open>\<open>Error\<close> without its signal, which the callers that pass \<^verbatim>\<open>true\<close> raise next.\<close>

definition oa_Error :: "'s ssl_lib \<Rightarrow> int \<Rightarrow> 's oaw \<Rightarrow> ('s oaw \<times> sends) res" where
  "oa_Error lib err w = Cleanup lib ((fst w)\<lparr>oa_state := SSL_ERROR, oa_error_code := err\<rparr>, snd w)"

definition oa_Close :: "'s ssl_lib \<Rightarrow> 's oaw \<Rightarrow> ('s oaw \<times> sends) res" where
  "oa_Close lib w = res_bind (Cleanup lib w) (\<lambda>(w', out). ok ((fst w', ds_Close (snd w')), out))"

definition oa_GetState :: "'s OpenSSLStreamAdapter \<Rightarrow> StreamState" where
  "oa_GetState oa =
     (case oa_state oa of
        SSL_WAIT \<Rightarrow> SS_OPENING
      | SSL_CONNECTING \<Rightarrow> SS_OPENING
      | SSL_CONNECTED \<Rightarrow> if WaitingToVerifyPeerCertificate oa then SS_OPENING else SS_OPEN
      | _ \<Rightarrow> SS_CLOSED)"

definition PostEvent :: "nat \<Rightarrow> int \<Rightarrow> 's OpenSSLStreamAdapter \<Rightarrow> 's OpenSSLStreamAdapter" where
  "PostEvent events err oa = oa\<lparr>oa_posted := oa_posted oa @ [(events, err)]\<rparr>"

definition oa_SetPeerCertificateDigest ::
  "'s ssl_lib \<Rightarrow> string \<Rightarrow> bytes \<Rightarrow> 's oaw \<Rightarrow> ((bool \<times> SSLPeerCertificateDigestError) \<times> 's oaw \<times> sends) res" where
  "oa_SetPeerCertificateDigest lib digest_alg digest_val w =
     (case GetDigestSize (sl_evp lib) digest_alg of
        None \<Rightarrow> ok ((False, UNKNOWN_ALGORITHM), w, [])
      | Some expected_len \<Rightarrow>
          if expected_len \<noteq> length digest_val then ok ((False, INVALID_LENGTH), w, [])
          else
            let oa = (fst w)\<lparr>oa_digest_value := digest_val, oa_digest_alg := digest_alg\<rparr>
            in if oa_peer_cert_chain oa = None then ok ((True, NONE_ERROR), (oa, snd w), [])
               else
                 (case VerifyPeerCertificate (sl_evp lib) oa of
                    (good, oa1) \<Rightarrow>
                      if \<not> good
                      then res_bind (oa_Error lib (-1) (oa1, snd w)) (\<lambda>(w', out). ok ((False, VERIFICATION_FAILED), w', out))
                      else if oa_state oa1 = SSL_CONNECTED
                      then ok ((True, NONE_ERROR), (PostEvent (SE_OPEN OR SE_READ OR SE_WRITE) 0 oa1, snd w), [])
                      else ok ((True, NONE_ERROR), (oa1, snd w), [])))"

section \<open>Reading and writing\<close>

text \<open>
  Both return the result, the bytes or the count where the code sets them, and the error code
  where it does. Before \<^verbatim>\<open>StartSSL\<close> the data passes through in the clear.
\<close>

definition oa_Write ::
  "'s ssl_lib \<Rightarrow> bytes \<Rightarrow> 's oaw \<Rightarrow> ((StreamResult \<times> nat option \<times> int option) \<times> 's oaw \<times> sends) res" where
  "oa_Write lib data w =
     (let oa = fst w;
          failed = ok ((SR_ERROR, None, Some (oa_error_code oa)), w, []);
          blocked = ok ((SR_BLOCK, None, None), w, [])
      in case oa_state oa of
           SSL_NONE \<Rightarrow> (case ds_Write data (snd w) of (r, written, out) \<Rightarrow> ok ((r, Some written, None), w, out))
         | SSL_WAIT \<Rightarrow> blocked
         | SSL_CONNECTING \<Rightarrow> blocked
         | SSL_CONNECTED \<Rightarrow>
             if WaitingToVerifyPeerCertificate oa then blocked
             else if length data = 0 then ok ((SR_SUCCESS, Some 0, None), w, [])
             else
               res_bind (with_ssl lib (sl_write lib data) (oa\<lparr>oa_write_needs_read := False\<rparr>, snd w)) (\<lambda>((code, ssl_error, _), w1, out).
                 if ssl_error = SSL_ERROR_NONE then ok ((SR_SUCCESS, Some (nat code), None), w1, out)
                 else if ssl_error = SSL_ERROR_WANT_READ
                 then ok ((SR_BLOCK, None, None), ((fst w1)\<lparr>oa_write_needs_read := True\<rparr>, snd w1), out)
                 else if ssl_error = SSL_ERROR_WANT_WRITE then ok ((SR_BLOCK, None, None), w1, out)
                 else res_bind (oa_Error lib (if ssl_error \<noteq> 0 then ssl_error else -1) w1) (\<lambda>(w2, o2).
                        ok ((SR_ERROR, None, Some (oa_error_code (fst w2))), w2, out @ o2)))
         | _ \<Rightarrow> failed)"

text \<open>
  The loop ends when the engine delivers what it announced; it is a \<^theory_text>\<open>partial_function\<close>, for an
  engine that keeps returning nothing without an error would run it for ever. \<^verbatim>\<open>left\<close> is unsigned.
\<close>

partial_function (option) FlushInput :: "'s ssl_lib \<Rightarrow> nat \<Rightarrow> 's oaw \<Rightarrow> sends \<Rightarrow> ('s oaw \<times> sends) res option" where
  "FlushInput lib left w out =
     (if left = 0 then Some (Inr (w, out))
      else
        (case with_ssl lib (sl_read lib (if 2048 < left then 2048 else left)) w of
           Inl e \<Rightarrow> Some (Inl e)
         | Inr ((code, ssl_error, _), w1, o1) \<Rightarrow>
             if ssl_error \<noteq> SSL_ERROR_NONE
             then Some (res_bind (oa_Error lib (if ssl_error \<noteq> 0 then ssl_error else -1) w1) (\<lambda>(w2, o2). ok (w2, out @ o1 @ o2)))
             else FlushInput lib (nat ((int left - code) mod 2 ^ 32)) w1 (out @ o1)))"

definition oa_Read ::
  "'s ssl_lib \<Rightarrow> nat \<Rightarrow> 's oaw \<Rightarrow> ((StreamResult \<times> bytes option \<times> int option) \<times> 's oaw \<times> sends) res" where
  "oa_Read lib data_len w =
     (let oa = fst w;
          blocked = ok ((SR_BLOCK, None, None), w, [])
      in case oa_state oa of
           SSL_NONE \<Rightarrow> (case ds_Read data_len (snd w) of (r, bs, ds') \<Rightarrow> ok ((r, Some bs, None), (oa, ds'), []))
         | SSL_WAIT \<Rightarrow> blocked
         | SSL_CONNECTING \<Rightarrow> blocked
         | SSL_CONNECTED \<Rightarrow>
             if WaitingToVerifyPeerCertificate oa then blocked
             else if data_len = 0 then ok ((SR_SUCCESS, Some [], None), w, [])
             else
               res_bind (with_ssl lib (sl_read lib data_len) (oa\<lparr>oa_read_needs_write := False\<rparr>, snd w)) (\<lambda>((code, ssl_error, bs), w1, out).
                 if ssl_error = SSL_ERROR_NONE
                 then res_bind (deref (oa_ssl (fst w1))) (\<lambda>s.
                        let pending = sl_pending lib s
                        in if oa_mode (fst w1) = SSL_MODE_DTLS \<and> pending \<noteq> 0
                           then (case FlushInput lib pending w1 out of
                                   None \<Rightarrow> crash Diverges
                                 | Some r \<Rightarrow> res_bind r (\<lambda>(w2, o2). ok ((SR_ERROR, Some bs, Some SSE_MSG_TRUNC), w2, o2)))
                           else ok ((SR_SUCCESS, Some bs, None), w1, out))
                 else if ssl_error = SSL_ERROR_WANT_READ then ok ((SR_BLOCK, None, None), w1, out)
                 else if ssl_error = SSL_ERROR_WANT_WRITE
                 then ok ((SR_BLOCK, None, None), ((fst w1)\<lparr>oa_read_needs_write := True\<rparr>, snd w1), out)
                 else if ssl_error = SSL_ERROR_ZERO_RETURN
                 then res_bind (oa_Close lib w1) (\<lambda>(w2, o2). ok ((SR_EOS, None, None), w2, out @ o2))
                 else res_bind (oa_Error lib (if ssl_error \<noteq> 0 then ssl_error else -1) w1) (\<lambda>(w2, o2).
                        ok ((SR_ERROR, None, Some (oa_error_code (fst w2))), w2, out @ o2)))
         | SSL_CLOSED \<Rightarrow> ok ((SR_EOS, None, None), w, [])
         | SSL_ERROR \<Rightarrow> ok ((SR_ERROR, None, Some (oa_error_code oa)), w, []))"

section \<open>The handshake\<close>

text \<open>
  These operations raise signals, so they are reactions; the last argument is what the caller does
  with their result. A nonzero result of \<^verbatim>\<open>ContinueSSL\<close> is an error its caller has to handle.
\<close>

definition react_sends :: "sends \<Rightarrow> 'a react \<Rightarrow> 'a react" where
  "react_sends out r = foldr (\<lambda>(bs, addr). Send bs addr) out r"

definition react_bind ::
  "('b \<times> 'a adw \<times> sends) res \<Rightarrow> ('b \<Rightarrow> 'a adw \<Rightarrow> 'a react) \<Rightarrow> 'a react" where
  "react_bind x f = (case x of Inl e \<Rightarrow> Crash e | Inr (v, w, out) \<Rightarrow> react_sends out (f v w))"

definition ContinueSSL ::
  "'s ssl_lib \<Rightarrow> 's oaw \<Rightarrow> (int \<Rightarrow> 's oaw \<Rightarrow> 's OpenSSLStreamAdapter react) \<Rightarrow> 's OpenSSLStreamAdapter react" where
  "ContinueSSL lib w k =
     (let w0 = ((fst w)\<lparr>oa_timeout := None\<rparr>, snd w)
      in react_bind (with_ssl lib (if oa_role (fst w0) = SSL_CLIENT then sl_connect lib else sl_accept lib) w0)
           (\<lambda>(code, ssl_error, _) w1.
              if ssl_error = SSL_ERROR_NONE
              then let w2 = ((fst w1)\<lparr>oa_state := SSL_CONNECTED\<rparr>, snd w1)
                   in if \<not> WaitingToVerifyPeerCertificate (fst w2)
                      then Signal (SE_OPEN OR SE_READ OR SE_WRITE) 0 w2 (k 0)
                      else k 0 w2
              else if ssl_error = SSL_ERROR_WANT_READ
              then (case Option.bind (oa_ssl (fst w1)) (sl_get_timeout lib) of
                      None \<Rightarrow> k 0 w1
                    | Some (tv_sec, tv_usec) \<Rightarrow>
                        k 0 ((fst w1)\<lparr>oa_timeout := Some (tv_sec * 1000 + tv_usec div 1000)\<rparr>, snd w1))
              else if ssl_error = SSL_ERROR_WANT_WRITE then k 0 w1
              else k (if ssl_error \<noteq> 0 then ssl_error else -1) w1))"

definition BeginSSL ::
  "'s ssl_lib \<Rightarrow> 's oaw \<Rightarrow> (int \<Rightarrow> 's oaw \<Rightarrow> 's OpenSSLStreamAdapter react) \<Rightarrow> 's OpenSSLStreamAdapter react" where
  "BeginSSL lib w k =
     (case SetupSSLContext lib (fst w) of
        Inl e \<Rightarrow> Crash e
      | Inr ctx \<Rightarrow>
          let w1 = ((fst w)\<lparr>oa_ssl_ctx := ctx\<rparr>, snd w)
          in (case ctx of
                None \<Rightarrow> k (-1) w1
              | Some c \<Rightarrow>
                  if \<not> sl_BIO_new lib then k (-1) w1
                  else
                    (case sl_SSL_new lib c of
                       None \<Rightarrow> k (-1) w1
                     | Some s \<Rightarrow> ContinueSSL lib ((fst w1)\<lparr>oa_ssl := Some s\<rparr>, snd w1) k)))"

definition StartSSL :: "'s ssl_lib \<Rightarrow> 's oaw \<Rightarrow> 's OpenSSLStreamAdapter react" where
  "StartSSL lib w =
     (if oa_state (fst w) \<noteq> SSL_NONE then Done (-1) w
      else if ds_GetState (snd w) \<noteq> SS_OPEN then Done 0 ((fst w)\<lparr>oa_state := SSL_WAIT\<rparr>, snd w)
      else
        BeginSSL lib ((fst w)\<lparr>oa_state := SSL_CONNECTING\<rparr>, snd w) (\<lambda>err w1.
          if err \<noteq> 0
          then react_bind (res_bind (oa_Error lib err w1) (\<lambda>(w2, out). ok ((), w2, out))) (\<lambda>_. Done err)
          else Done 0 w1))"

text \<open>\<open>Error\<close> with its signal.\<close>

definition Error_signal :: "'s ssl_lib \<Rightarrow> int \<Rightarrow> 's oaw \<Rightarrow> 's OpenSSLStreamAdapter react" where
  "Error_signal lib err w =
     react_bind (res_bind (oa_Error lib err w) (\<lambda>(w2, out). ok ((), w2, out))) (\<lambda>_ w2. Signal SE_CLOSE err w2 (Done 0))"

text \<open>The three parts of \<^verbatim>\<open>OnEvent\<close>: the stream opens, has data or room, closes; then the signal.\<close>

definition raise_events :: "nat \<Rightarrow> int \<Rightarrow> 'a adw \<Rightarrow> 'a react" where
  "raise_events events_to_signal signal_error w =
     (if events_to_signal \<noteq> 0 then Signal events_to_signal signal_error w (Done 0) else Done 0 w)"

definition OnEvent_close :: "'s ssl_lib \<Rightarrow> nat \<Rightarrow> int \<Rightarrow> nat \<Rightarrow> 's oaw \<Rightarrow> 's OpenSSLStreamAdapter react" where
  "OnEvent_close lib events err to_signal w =
     (if events AND SE_CLOSE \<noteq> 0
      then react_bind (res_bind (Cleanup lib w) (\<lambda>(w2, out). ok ((), w2, out))) (\<lambda>_. raise_events (to_signal OR SE_CLOSE) err)
      else raise_events to_signal 0 w)"

definition OnEvent_data :: "'s ssl_lib \<Rightarrow> nat \<Rightarrow> int \<Rightarrow> nat \<Rightarrow> 's oaw \<Rightarrow> 's OpenSSLStreamAdapter react" where
  "OnEvent_data lib events err to_signal w =
     (let oa = fst w; rw = SE_READ OR SE_WRITE;
          readable = (events AND SE_READ \<noteq> 0); writable = (events AND SE_WRITE \<noteq> 0)
      in if events AND rw = 0 then OnEvent_close lib events err to_signal w
         else if oa_state oa = SSL_NONE then OnEvent_close lib events err (to_signal OR (events AND rw)) w
         else if oa_state oa = SSL_CONNECTING
         then ContinueSSL lib w (\<lambda>code w1.
                if code \<noteq> 0 then Error_signal lib code w1 else OnEvent_close lib events err to_signal w1)
         else if oa_state oa = SSL_CONNECTED
         then OnEvent_close lib events err
                ((to_signal OR (if readable \<and> oa_write_needs_read oa \<or> writable then SE_WRITE else 0))
                   OR (if writable \<and> oa_read_needs_write oa \<or> readable then SE_READ else 0)) w
         else OnEvent_close lib events err to_signal w)"

definition OnEvent :: "'s ssl_lib \<Rightarrow> nat \<Rightarrow> int \<Rightarrow> 's oaw \<Rightarrow> 's OpenSSLStreamAdapter react" where
  "OnEvent lib events err w =
     (if events AND SE_OPEN = 0 then OnEvent_data lib events err 0 w
      else if oa_state (fst w) \<noteq> SSL_WAIT then OnEvent_data lib events err SE_OPEN w
      else
        BeginSSL lib ((fst w)\<lparr>oa_state := SSL_CONNECTING\<rparr>, snd w) (\<lambda>code w1.
          if code \<noteq> 0 then Error_signal lib code w1 else OnEvent_data lib events err 0 w1))"

text \<open>
  The task \<^verbatim>\<open>SetTimeout\<close> leaves with the owning thread: it retransmits and continues the handshake, and
  drops the result of that.
\<close>

definition dtls_timeout :: "'s ssl_lib \<Rightarrow> 's oaw \<Rightarrow> 's OpenSSLStreamAdapter react" where
  "dtls_timeout lib w =
     (case oa_timeout (fst w) of
        None \<Rightarrow> Done 0 w
      | Some _ \<Rightarrow>
          react_bind (with_ssl lib (sl_handle_timeout lib) ((fst w)\<lparr>oa_timeout := None\<rparr>, snd w)) (\<lambda>_ w1.
            ContinueSSL lib w1 (\<lambda>_. Done 0)))"

section \<open>Questions\<close>

definition GetSslVersion :: "'s ssl_lib \<Rightarrow> 's OpenSSLStreamAdapter \<Rightarrow> SSLProtocolVersion res" where
  "GetSslVersion lib oa =
     (if oa_state oa \<noteq> SSL_CONNECTED then ok SSL_PROTOCOL_NOT_GIVEN
      else
        res_bind (deref (oa_ssl oa)) (\<lambda>s.
          let v = sl_version lib s
          in ok (if oa_mode oa = SSL_MODE_DTLS
                 then (if v = DTLS1_VERSION then SSL_PROTOCOL_DTLS_10
                       else if v = DTLS1_2_VERSION then SSL_PROTOCOL_DTLS_12 else SSL_PROTOCOL_NOT_GIVEN)
                 else (if v = TLS1_VERSION then SSL_PROTOCOL_TLS_10
                       else if v = TLS1_1_VERSION then SSL_PROTOCOL_TLS_11
                       else if v = TLS1_2_VERSION then SSL_PROTOCOL_TLS_12 else SSL_PROTOCOL_NOT_GIVEN))))"

definition GetSslVersionBytes :: "'s ssl_lib \<Rightarrow> 's OpenSSLStreamAdapter \<Rightarrow> nat option res" where
  "GetSslVersionBytes lib oa =
     (if oa_state oa \<noteq> SSL_CONNECTED then ok None
      else res_bind (deref (oa_ssl oa)) (\<lambda>s. ok (Some (sl_version lib s))))"

definition GetSslCipherSuite :: "'s ssl_lib \<Rightarrow> 's OpenSSLStreamAdapter \<Rightarrow> u16 option res" where
  "GetSslCipherSuite lib oa =
     (if oa_state oa \<noteq> SSL_CONNECTED then ok None
      else res_bind (deref (oa_ssl oa)) (\<lambda>s. ok (map_option word_of_nat (sl_cipher_id lib s))))"

definition oa_GetDtlsSrtpCryptoSuite :: "'s ssl_lib \<Rightarrow> 's OpenSSLStreamAdapter \<Rightarrow> int option res" where
  "oa_GetDtlsSrtpCryptoSuite lib oa =
     (if oa_state oa \<noteq> SSL_CONNECTED then ok None
      else res_bind (deref (oa_ssl oa)) (\<lambda>s. ok (sl_selected_srtp_profile lib s)))"

definition oa_ExportKeyingMaterial :: "'s ssl_lib \<Rightarrow> string \<Rightarrow> nat \<Rightarrow> 's OpenSSLStreamAdapter \<Rightarrow> bytes option res" where
  "oa_ExportKeyingMaterial lib label result_len oa =
     res_bind (deref (oa_ssl oa)) (\<lambda>s. ok (sl_export_keying_material lib label result_len s))"

definition IsTlsConnected :: "'s OpenSSLStreamAdapter \<Rightarrow> bool" where
  "IsTlsConnected oa = (oa_state oa = SSL_CONNECTED)"

definition GetPeerSSLCertChain :: "'s OpenSSLStreamAdapter \<Rightarrow> bytes list option" where
  "GetPeerSSLCertChain oa = oa_peer_cert_chain oa"

section \<open>The adapter of the DTLS connection\<close>

text \<open>
  The calls \<open>RtcDtls\<close> makes, on this adapter. \<^verbatim>\<open>setup_dtls\<close> sets the digest before the handshake, when
  there is no certificate to verify yet and the call touches neither the stream nor the engine
  (\<open>digest_before_handshake\<close>), so the stream it is given here does not matter. The slot reads into a
  buffer of 2048 bytes and looks at the result only.
\<close>

definition idle_stream :: DtlsStreamInterface where
  "idle_stream = DtlsStreamInterface_new (ip_address_of 0 0)"

definition openssl_adapter :: "'s ssl_lib \<Rightarrow> OpenSSLIdentity \<Rightarrow> 's OpenSSLStreamAdapter adapter" where
  "openssl_adapter lib identity =
     \<lparr>ad_configure = (\<lambda>oa. SetServerRole SSL_SERVER (SetMaxProtocolVersion SSL_PROTOCOL_DTLS_12
                              (SetMode SSL_MODE_DTLS (SetIdentity identity oa)))),
      ad_SetPeerCertificateDigest =
        (\<lambda>alg digest oa. case oa_SetPeerCertificateDigest lib alg digest (oa, idle_stream) of
                           Inl _ \<Rightarrow> (False, oa)
                         | Inr ((good, _), w, _) \<Rightarrow> (good, fst w)),
      ad_SetDtlsSrtpCryptoSuites = oa_SetDtlsSrtpCryptoSuites,
      ad_StartSSL = StartSSL lib,
      ad_OnReadable = OnEvent lib SE_READ 0,
      ad_Read = (\<lambda>w. res_bind (oa_Read lib 2048 w) (\<lambda>((ret, _), w', out). ok (ret, w', out))),
      ad_GetDtlsSrtpCryptoSuite = oa_GetDtlsSrtpCryptoSuite lib,
      ad_ExportKeyingMaterial = oa_ExportKeyingMaterial lib\<rparr>"

lemma digest_before_handshake:
  "oa_peer_cert_chain oa = None \<Longrightarrow>
     oa_SetPeerCertificateDigest lib alg digest (oa, ds) =
       (case oa_SetPeerCertificateDigest lib alg digest (oa, idle_stream) of
          Inl e \<Rightarrow> Inl e | Inr (r, w, out) \<Rightarrow> Inr (r, (fst w, ds), out))"
  by (simp add: oa_SetPeerCertificateDigest_def split: option.split)

section \<open>What the engine promises\<close>

text \<open>
  \<open>authed s\<close> says that the verification callback has accepted the peer's certificate on the
  connection. A new connection has the settings of its context and is not authenticated. The rest of
  the law only concerns connections that demand a certificate: the mode has both \<^verbatim>\<open>SSL_VERIFY_PEER\<close> and
  \<^verbatim>\<open>SSL_VERIFY_FAIL_IF_NO_PEER_CERT\<close>, the verification callback is installed, and the cipher list
  excludes the anonymous suites. For these OpenSSL documents that only an accepting callback
  authenticates the peer, and for good; that after a rejecting callback the call ends with an error
  that closes the connection; that a handshake succeeds only with a certificate that was accepted;
  and that a retransmission verifies nothing. Nothing is said of a connection with weaker settings,
  nor which certificates are accepted, which is for the callback to decide.
\<close>

definition demands_cert :: "'s ssl_lib \<Rightarrow> 's \<Rightarrow> bool" where
  "demands_cert lib s =
     (let c = sl_settings lib s
      in ctx_verify_callback c \<and>
         ctx_verify_mode c AND SSL_VERIFY_PEER \<noteq> 0 \<and> ctx_verify_mode c AND SSL_VERIFY_FAIL_IF_NO_PEER_CERT \<noteq> 0 \<and>
         sublist ''!aNULL'' (ctx_cipher_list c))"

definition fatal :: "int \<Rightarrow> bool" where
  "fatal err = (err \<notin> {SSL_ERROR_NONE, SSL_ERROR_WANT_READ, SSL_ERROR_WANT_WRITE})"

primrec rejected :: "'s ssl_call \<Rightarrow> bool" where
  "rejected (SslReturn code err bs s) = fatal err"
| "rejected (BioRead n k) = (\<forall>x. rejected (k x))"
| "rejected (BioWrite bs k) = (\<forall>x. rejected (k x))"
| "rejected (BioCtrl cmd k) = (\<forall>x. rejected (k x))"
| "rejected (VerifyCert cert k) = (\<forall>x. rejected (k x))"

primrec keeps_auth :: "'s ssl_call \<Rightarrow> 's ssl_lib \<Rightarrow> ('s \<Rightarrow> bool) \<Rightarrow> bool \<Rightarrow> bool \<Rightarrow> bool" where
  "keeps_auth (SslReturn code err bs s) lib authed handshake b =
     ((\<not> fatal err \<longrightarrow> authed s = b \<and> demands_cert lib s) \<and> (handshake \<and> err = SSL_ERROR_NONE \<longrightarrow> b))"
| "keeps_auth (BioRead n k) lib authed handshake b = (\<forall>x. keeps_auth (k x) lib authed handshake b)"
| "keeps_auth (BioWrite bs k) lib authed handshake b = (\<forall>x. keeps_auth (k x) lib authed handshake b)"
| "keeps_auth (BioCtrl cmd k) lib authed handshake b = (\<forall>x. keeps_auth (k x) lib authed handshake b)"
| "keeps_auth (VerifyCert cert k) lib authed handshake b = (keeps_auth (k 1) lib authed handshake True \<and> rejected (k 0))"

primrec no_verify :: "'s ssl_call \<Rightarrow> 's ssl_lib \<Rightarrow> ('s \<Rightarrow> bool) \<Rightarrow> bool \<Rightarrow> bool" where
  "no_verify (SslReturn code err bs s) lib authed b = (authed s = b \<and> demands_cert lib s)"
| "no_verify (BioRead n k) lib authed b = (\<forall>x. no_verify (k x) lib authed b)"
| "no_verify (BioWrite bs k) lib authed b = (\<forall>x. no_verify (k x) lib authed b)"
| "no_verify (BioCtrl cmd k) lib authed b = (\<forall>x. no_verify (k x) lib authed b)"
| "no_verify (VerifyCert cert k) lib authed b = False"

definition engine_law :: "'s ssl_lib \<Rightarrow> ('s \<Rightarrow> bool) \<Rightarrow> bool" where
  "engine_law lib authed =
     ((\<forall>ctx s. sl_SSL_new lib ctx = Some s \<longrightarrow> sl_settings lib s = ctx \<and> \<not> authed s) \<and>
      (\<forall>s. demands_cert lib s \<longrightarrow>
         keeps_auth (sl_connect lib s) lib authed True (authed s) \<and>
         keeps_auth (sl_accept lib s) lib authed True (authed s) \<and>
         (\<forall>n. keeps_auth (sl_read lib n s) lib authed False (authed s)) \<and>
         (\<forall>bs. keeps_auth (sl_write lib bs s) lib authed False (authed s)) \<and>
         no_verify (sl_handle_timeout lib s) lib authed (authed s)))"

section \<open>The invariant\<close>

text \<open>The certificate the peer has presented has the expected digest.\<close>

definition cert_matches :: "evp \<Rightarrow> 's OpenSSLStreamAdapter \<Rightarrow> bool" where
  "cert_matches e oa =
     (\<exists>cert rest. oa_peer_cert_chain oa = Some (cert # rest) \<and>
        cert_ComputeDigest e (oa_digest_alg oa) EVP_MAX_MD_SIZE cert = Some (oa_digest_value oa) \<and>
        HasPeerCertificateDigest oa)"

text \<open>
  There is an \<^verbatim>\<open>SSL\<close> object exactly while the handshake runs or is done, it demands a certificate, the retransmission task only
  runs during the handshake, and the certificate of an authenticated peer was compared with the digest
  unless the digest is not known yet; one that was found right is right.
\<close>

definition auth_core :: "evp \<Rightarrow> bool \<Rightarrow> 's OpenSSLStreamAdapter \<Rightarrow> bool" where
  "auth_core e b oa =
     ((oa_verified oa \<longrightarrow> cert_matches e oa) \<and>
      (b \<longrightarrow> oa_peer_cert_chain oa \<noteq> None \<and> (oa_digest_alg oa = [] \<or> oa_verified oa)))"

definition ssl_auth_ok :: "'s ssl_lib \<Rightarrow> ('s \<Rightarrow> bool) \<Rightarrow> 's OpenSSLStreamAdapter \<Rightarrow> bool" where
  "ssl_auth_ok lib authed oa =
     (\<forall>s. oa_ssl oa = Some s \<longrightarrow>
        demands_cert lib s \<and> auth_core (sl_evp lib) (authed s) oa \<and> (oa_state oa = SSL_CONNECTED \<longrightarrow> authed s))"

definition ssl_state_ok :: "'s OpenSSLStreamAdapter \<Rightarrow> bool" where
  "ssl_state_ok oa =
     ((oa_ssl oa \<noteq> None \<longleftrightarrow> oa_state oa \<in> {SSL_CONNECTING, SSL_CONNECTED}) \<and>
      (oa_ssl_ctx oa \<noteq> None \<longleftrightarrow> oa_ssl oa \<noteq> None) \<and>
      (oa_timeout oa \<noteq> None \<longrightarrow> oa_state oa = SSL_CONNECTING) \<and>
      (oa_ssl oa = None \<longrightarrow> oa_peer_cert_chain oa = None) \<and>
      (oa_state oa \<in> {SSL_NONE, SSL_WAIT} \<longrightarrow> \<not> oa_verified oa))"

definition identity_ok :: "'s OpenSSLStreamAdapter \<Rightarrow> bool" where
  "identity_ok oa = (\<forall>i. oa_identity oa = Some i \<longrightarrow> id_cert_chain i \<noteq> [])"

definition adapter_inv :: "'s ssl_lib \<Rightarrow> ('s \<Rightarrow> bool) \<Rightarrow> string \<Rightarrow> bytes \<Rightarrow> 's OpenSSLStreamAdapter \<Rightarrow> bool" where
  "adapter_inv lib authed alg val oa =
     (ssl_state_ok oa \<and> ssl_auth_ok lib authed oa \<and> identity_ok oa \<and> oa_client_auth oa \<and>
      oa_digest_alg oa = alg \<and> oa_digest_value oa = val)"

text \<open>
  Whether some call of the engine may ask the BIO for its end, which the BIO cannot answer. The only
  faults left are this null dereference and a loop of reads that never ends.
\<close>

primrec asks_no_eof :: "'s ssl_call \<Rightarrow> bool" where
  "asks_no_eof (SslReturn code err bs s) = True"
| "asks_no_eof (BioRead n k) = (\<forall>x. asks_no_eof (k x))"
| "asks_no_eof (BioWrite bs k) = (\<forall>x. asks_no_eof (k x))"
| "asks_no_eof (BioCtrl cmd k) = (cmd \<noteq> BIO_CTRL_EOF \<and> (\<forall>x. asks_no_eof (k x)))"
| "asks_no_eof (VerifyCert cert k) = (\<forall>x. asks_no_eof (k x))"

definition never_asks_eof :: "'s ssl_lib \<Rightarrow> bool" where
  "never_asks_eof lib =
     (\<forall>s. asks_no_eof (sl_connect lib s) \<and> asks_no_eof (sl_accept lib s) \<and> asks_no_eof (sl_shutdown lib s) \<and>
          asks_no_eof (sl_handle_timeout lib s) \<and> (\<forall>n. asks_no_eof (sl_read lib n s)) \<and> (\<forall>bs. asks_no_eof (sl_write lib bs s)))"

definition fault_ok :: "'s ssl_lib \<Rightarrow> fault \<Rightarrow> bool" where
  "fault_ok lib f = (f = Diverges \<or> f = NullDeref \<and> \<not> never_asks_eof lib)"

definition res_all :: "'s ssl_lib \<Rightarrow> ('b \<Rightarrow> bool) \<Rightarrow> 'b res \<Rightarrow> bool" where
  "res_all lib Q r = (case r of Inl f \<Rightarrow> fault_ok lib f | Inr v \<Rightarrow> Q v)"

text \<open>
  Every result of a reaction and every state it signals in satisfies \<open>P\<close>, provided the slot keeps \<open>P\<close>.
\<close>

primrec react_all :: "'a react \<Rightarrow> 's ssl_lib \<Rightarrow> ('a adw \<Rightarrow> bool) \<Rightarrow> bool" where
  "react_all (Done ret w) lib P = P w"
| "react_all (Crash f) lib P = fault_ok lib f"
| "react_all (Send bs addr r) lib P = react_all r lib P"
| "react_all (Signal sig err w k) lib P = (P w \<and> (\<forall>w'. P w' \<longrightarrow> react_all (k w') lib P))"

section \<open>Lemmas\<close>

lemma res_all_simps [simp]:
  "res_all lib Q (Inr v) = Q v" "res_all lib Q (Inl f) = fault_ok lib f"
  by (simp_all add: res_all_def)

lemma res_all_bind:
  assumes "res_all lib Q m" and "\<And>v. Q v \<Longrightarrow> res_all lib R (f v)"
  shows "res_all lib R (res_bind m f)"
  using assms by (cases m) auto

lemma react_all_sends [simp]: "react_all (react_sends out r) lib P = react_all r lib P"
  unfolding react_sends_def by (induction out) auto

lemma react_all_bind:
  assumes "res_all lib Q m" and "\<And>v w out. Q (v, w, out) \<Longrightarrow> react_all (f v w) lib P"
  shows "react_all (react_bind m f) lib P"
  using assms by (cases m) (auto simp: react_bind_def)

lemma SSLVerifyCallback_cases:
  assumes "SSLVerifyCallback e cert oa = (r, oa')" and "oa_verified oa \<longrightarrow> cert_matches e oa"
  shows "r = 0 \<or> r = 1 \<and> auth_core e True oa'"
proof -
  let ?oa = "oa\<lparr>oa_peer_cert_chain := Some [cert]\<rparr>"
  consider "oa_digest_alg oa = []" "r = 1" "oa' = ?oa"
    | "oa_digest_alg oa \<noteq> []" "r = 0" "oa' = ?oa"
    | "oa_digest_alg oa \<noteq> []" "r = 1" "oa' = ?oa\<lparr>oa_verified := True\<rparr>" "HasPeerCertificateDigest oa"
      "cert_ComputeDigest e (oa_digest_alg oa) EVP_MAX_MD_SIZE cert = Some (oa_digest_value oa)"
    using assms(1)
    by (auto simp: SSLVerifyCallback_def VerifyPeerCertificate_def HasPeerCertificateDigest_def Let_def
        split: if_splits option.splits)
  note cs = this
  show "r = 0 \<or> r = 1 \<and> auth_core e True oa'"
    using cs assms(2) by cases (auto simp: auth_core_def cert_matches_def HasPeerCertificateDigest_def)
qed

text \<open>A call changes nothing of the adapter but the certificate and whether it was verified.\<close>

definition only_cert :: "'s OpenSSLStreamAdapter \<Rightarrow> 's OpenSSLStreamAdapter \<Rightarrow> bool" where
  "only_cert oa oa' = (oa' = oa\<lparr>oa_peer_cert_chain := oa_peer_cert_chain oa', oa_verified := oa_verified oa'\<rparr>)"

lemma only_cert_refl [simp]: "only_cert oa oa"
  by (simp add: only_cert_def)

lemma only_cert_trans: "only_cert a b \<Longrightarrow> only_cert b c \<Longrightarrow> only_cert a c"
  by (cases a; cases b; cases c) (simp add: only_cert_def)

lemma run_call_frame:
  "run_call c e w = ok (x, w', out) \<Longrightarrow> only_cert (fst w) (fst w')"
proof (induction c arbitrary: w x w' out)
  case (VerifyCert cert k)
  obtain r oa' where r: "SSLVerifyCallback e cert (fst w) = (r, oa')" by fastforce
  have "only_cert (fst w) oa'"
    using r by (auto simp: SSLVerifyCallback_def VerifyPeerCertificate_def only_cert_def Let_def split: if_splits option.splits list.splits)
  moreover have "only_cert oa' (fst w')"
    using VerifyCert.IH [OF rangeI, of r "(oa', snd w)"] VerifyCert.prems r by simp
  ultimately show ?case by (rule only_cert_trans)
next
  case (BioRead n k)
  then show ?case by (cases "stream_read n (snd w)") (fastforce dest: BioRead.IH [OF rangeI])
qed (auto simp: res_bind_eq_ok split: prod.splits, (blast intro: rangeI)+)

lemma auth_core_mono: "auth_core e b oa \<Longrightarrow> (b' \<longrightarrow> b) \<Longrightarrow> auth_core e b' oa"
  by (auto simp: auth_core_def)

lemma run_call_rejected:
  "rejected c \<Longrightarrow> run_call c e w = ok ((code, err, bs, s), w', out) \<Longrightarrow> fatal err"
proof (induction c arbitrary: w w' out)
  case (BioRead n k)
  then show ?case by (cases "stream_read n (snd w)") (fastforce dest: BioRead.IH [OF rangeI])
next
  case (VerifyCert cert k)
  then show ?case by (cases "SSLVerifyCallback e cert (fst w)") (fastforce dest: VerifyCert.IH [OF rangeI])
qed (auto simp: res_bind_eq_ok split: prod.splits, (blast intro: rangeI)+)

lemma run_call_auth:
  assumes "keeps_auth c lib authed h b" and "run_call c e w = ok ((code, err, bs, s), w', out)"
    and "auth_core e b (fst w)" and "\<not> fatal err"
  shows "auth_core e (authed s) (fst w') \<and> demands_cert lib s \<and> (h \<and> err = SSL_ERROR_NONE \<longrightarrow> authed s) \<and> (b \<longrightarrow> authed s)"
  using assms
proof (induction c arbitrary: b w w' out)
  case (BioRead n k)
  obtain r1 r2 ds' where r: "stream_read n (snd w) = ((r1, r2), ds')" by (metis surj_pair)
  with BioRead.prems show ?case by (intro BioRead.IH [OF rangeI, of "(r1, r2)" b "(fst w, ds')"]) auto
next
  case (BioWrite bs' k)
  obtain r o1 where r: "stream_write bs' (snd w) = (r, o1)" by fastforce
  with BioWrite.prems(2) obtain o2 where "run_call (k r) e w = ok ((code, err, bs, s), w', o2)"
    by (auto simp: res_bind_eq_ok)
  with BioWrite.prems show ?case by (intro BioWrite.IH [OF rangeI, of r b w]) auto
next
  case (BioCtrl cmd k)
  from BioCtrl.prems(2) obtain r where "run_call (k r) e w = ok ((code, err, bs, s), w', out)"
    by (auto simp: res_bind_eq_ok)
  with BioCtrl.prems show ?case by (intro BioCtrl.IH [OF rangeI, of r b w]) auto
next
  case (VerifyCert cert k)
  obtain r oa' where r: "SSLVerifyCallback e cert (fst w) = (r, oa')" by fastforce
  with VerifyCert.prems(2) have run: "run_call (k r) e (oa', snd w) = ok ((code, err, bs, s), w', out)" by simp
  have "oa_verified (fst w) \<longrightarrow> cert_matches e (fst w)" using VerifyCert.prems(3) by (simp add: auth_core_def)
  from SSLVerifyCallback_cases [OF r this] show ?case
  proof
    assume "r = 0"
    with VerifyCert.prems(1,4) run show ?thesis by (auto dest: run_call_rejected)
  next
    assume "r = 1 \<and> auth_core e True oa'"
    with VerifyCert.prems run show ?thesis using VerifyCert.IH [OF rangeI, of r True "(oa', snd w)"] by (cases "authed s") auto
  qed
qed auto

lemma run_call_no_verify:
  assumes "no_verify c lib authed b" and "run_call c e w = ok ((code, err, bs, s), w', out)"
  shows "fst w' = fst w \<and> authed s = b \<and> demands_cert lib s"
  using assms
proof (induction c arbitrary: w w' out)
  case (BioRead n k)
  obtain r1 r2 ds' where r: "stream_read n (snd w) = ((r1, r2), ds')" by (metis surj_pair)
  with BioRead.prems show ?case using BioRead.IH [OF rangeI, of "(r1, r2)" "(fst w, ds')"] by simp
qed (auto simp: res_bind_eq_ok split: prod.splits, (blast intro: rangeI)+)

lemma run_call_returns: "asks_no_eof c \<Longrightarrow> is_ok (run_call c e w)"
proof (induction c arbitrary: w)
  case (BioRead n k)
  obtain r1 r2 ds' where r: "stream_read n (snd w) = ((r1, r2), ds')" by (metis surj_pair)
  with BioRead.prems show ?case using BioRead.IH [OF rangeI, of "(r1, r2)" "(fst w, ds')"] by simp
next
  case (BioWrite bs k)
  obtain r o1 where r: "stream_write bs (snd w) = (r, o1)" by fastforce
  with BioWrite.prems have "is_ok (run_call (k r) e w)" using BioWrite.IH [OF rangeI, of r w] by simp
  then obtain x where "run_call (k r) e w = ok x" by (auto simp: is_ok_iff)
  with r show ?case by (cases x) simp
next
  case (BioCtrl cmd k)
  then obtain r where "stream_ctrl cmd None = ok r" by (cases cmd) (auto simp: stream_ctrl_def)
  with BioCtrl.prems show ?case using BioCtrl.IH [OF rangeI, of r w] by simp
next
  case (VerifyCert cert k)
  obtain r oa' where r: "SSLVerifyCallback e cert (fst w) = (r, oa')" by fastforce
  with VerifyCert.prems show ?case using VerifyCert.IH [OF rangeI, of r "(oa', snd w)"] by simp
qed simp

lemma run_call_fault: "run_call c e w = crash fl \<Longrightarrow> fl = NullDeref"
proof (induction c arbitrary: w)
  case (BioRead n k)
  obtain r1 r2 ds' where r: "stream_read n (snd w) = ((r1, r2), ds')" by (metis surj_pair)
  with BioRead.prems show ?case using BioRead.IH [OF rangeI, of "(r1, r2)" "(fst w, ds')"] by simp
next
  case (BioCtrl cmd k)
  then show ?case by (cases cmd) (auto simp: stream_ctrl_def deref_def intro: BioCtrl.IH [OF rangeI])
next
  case (VerifyCert cert k)
  obtain r oa' where r: "SSLVerifyCallback e cert (fst w) = (r, oa')" by fastforce
  with VerifyCert.prems show ?case using VerifyCert.IH [OF rangeI, of r "(oa', snd w)"] by simp
next
  case (BioWrite bs k)
  obtain r o1 where r: "stream_write bs (snd w) = (r, o1)" by fastforce
  with BioWrite.prems show ?case using BioWrite.IH [OF rangeI, of r w] by (cases "run_call (k r) e w") (auto split: prod.splits)
qed simp

lemma auth_core_ssl [simp]: "auth_core e b (oa\<lparr>oa_ssl := x\<rparr>) = auth_core e b oa"
  by (simp add: auth_core_def cert_matches_def HasPeerCertificateDigest_def)

lemma auth_core_flags [simp]:
  "auth_core e b (oa\<lparr>oa_timeout := t\<rparr>) = auth_core e b oa"
  "auth_core e b (oa\<lparr>oa_state := st\<rparr>) = auth_core e b oa"
  "auth_core e b (oa\<lparr>oa_read_needs_write := r\<rparr>) = auth_core e b oa"
  "auth_core e b (oa\<lparr>oa_write_needs_read := r\<rparr>) = auth_core e b oa"
  "auth_core e b (oa\<lparr>oa_ssl_ctx := c\<rparr>) = auth_core e b oa"
  by (simp_all add: auth_core_def cert_matches_def HasPeerCertificateDigest_def)

text \<open>What a call of the engine through \<open>with_ssl\<close> leaves.\<close>

definition after_call :: "'s ssl_lib \<Rightarrow> ('s \<Rightarrow> bool) \<Rightarrow> bool \<Rightarrow> 's oaw \<Rightarrow> (int \<times> int \<times> bytes) \<times> 's oaw \<times> sends \<Rightarrow> bool" where
  "after_call lib authed h w r =
     (case r of ((code, err, bs), w', out) \<Rightarrow>
        \<exists>s' c v. fst w' = (fst w)\<lparr>oa_peer_cert_chain := c, oa_verified := v, oa_ssl := Some s'\<rparr> \<and>
          (\<not> fatal err \<longrightarrow> demands_cert lib s' \<and> auth_core (sl_evp lib) (authed s') (fst w') \<and> (h \<and> err = SSL_ERROR_NONE \<longrightarrow> authed s') \<and>
             (\<forall>s. oa_ssl (fst w) = Some s \<longrightarrow> authed s \<longrightarrow> authed s')))"

lemma with_ssl_after:
  assumes "oa_ssl (fst w) = Some s" "auth_core (sl_evp lib) (authed s) (fst w)"
    and "keeps_auth (f s) lib authed h (authed s)" "never_asks_eof lib \<Longrightarrow> asks_no_eof (f s)"
  shows "res_all lib (after_call lib authed h w) (with_ssl lib f w)"
proof (cases "run_call (f s) (sl_evp lib) w")
  case (Inl fl)
  have "fault_ok lib fl"
    using run_call_returns [of "f s" "sl_evp lib" w] assms(4) run_call_fault [OF Inl] Inl by (auto simp: fault_ok_def)
  with Inl assms(1) show ?thesis by (simp add: with_ssl_def deref_def)
next
  case (Inr x)
  obtain code err bs s' oa' ds out where x: "x = ((code, err, bs, s'), (oa', ds), out)" by (metis surj_pair)
  have run: "run_call (f s) (sl_evp lib) w = ok ((code, err, bs, s'), (oa', ds), out)" using Inr x by simp
  from run_call_frame [OF run] have "oa' = (fst w)\<lparr>oa_peer_cert_chain := oa_peer_cert_chain oa', oa_verified := oa_verified oa'\<rparr>"
    by (simp add: only_cert_def)
  then have frame: "\<exists>c v. oa'\<lparr>oa_ssl := Some s'\<rparr> = (fst w)\<lparr>oa_peer_cert_chain := c, oa_verified := v, oa_ssl := Some s'\<rparr>"
    by metis
  from run_call_auth [OF assms(3) run assms(2)] frame run assms(1) show ?thesis
    by (auto simp: with_ssl_def deref_def after_call_def)
qed

lemma with_ssl_quiet:
  assumes "oa_ssl (fst w) = Some s" "no_verify (f s) lib authed (authed s)" "never_asks_eof lib \<Longrightarrow> asks_no_eof (f s)"
  shows "res_all lib (\<lambda>(_, w', out). \<exists>s'. fst w' = (fst w)\<lparr>oa_ssl := Some s'\<rparr> \<and> authed s' = authed s \<and> demands_cert lib s') (with_ssl lib f w)"
proof (cases "run_call (f s) (sl_evp lib) w")
  case (Inl fl)
  have "fault_ok lib fl"
    using run_call_returns [of "f s" "sl_evp lib" w] assms(3) run_call_fault [OF Inl] Inl by (auto simp: fault_ok_def)
  with Inl assms(1) show ?thesis by (simp add: with_ssl_def deref_def)
next
  case (Inr x)
  obtain code err bs s' oa' ds out where x: "x = ((code, err, bs, s'), (oa', ds), out)" by (metis surj_pair)
  with Inr have "run_call (f s) (sl_evp lib) w = ok ((code, err, bs, s'), (oa', ds), out)" by simp
  from run_call_no_verify [OF assms(2) this] Inr x assms(1) show ?thesis by (auto simp: with_ssl_def deref_def)
qed

text \<open>After \<open>Cleanup\<close> and \<open>Error\<close> the adapter is closed, whatever it was before.\<close>

definition shut :: "'s OpenSSLStreamAdapter \<Rightarrow> 's OpenSSLStreamAdapter \<Rightarrow> bool" where
  "shut oa oa' =
     (oa_state oa' = (if oa_state oa = SSL_ERROR then SSL_ERROR else SSL_CLOSED) \<and> oa_ssl oa' = None \<and>
      oa_ssl_ctx oa' = None \<and> oa_identity oa' = None \<and> oa_peer_cert_chain oa' = None \<and> oa_timeout oa' = None \<and>
      oa_digest_alg oa' = oa_digest_alg oa \<and> oa_digest_value oa' = oa_digest_value oa \<and>
      oa_client_auth oa' = oa_client_auth oa)"

lemma Cleanup_shuts: "res_all lib (\<lambda>(w', out). shut (fst w) (fst w')) (Cleanup lib w)"
proof -
  let ?oa = "if oa_state (fst w) \<noteq> SSL_ERROR then (fst w)\<lparr>oa_state := SSL_CLOSED, oa_error_code := 0\<rparr> else fst w"
  show ?thesis
  proof (cases "oa_ssl (fst w)")
    case None
    then show ?thesis by (auto simp: Cleanup_def shut_def Let_def)
  next
    case (Some s)
    then have s: "oa_ssl ?oa = Some s" by simp
    show ?thesis
    proof (cases "run_call (sl_shutdown lib s) (sl_evp lib) (?oa, snd w)")
      case (Inl fl)
      have "fault_ok lib fl"
        using run_call_returns [of "sl_shutdown lib s" "sl_evp lib" "(?oa, snd w)"] run_call_fault [OF Inl] Inl by (auto simp: fault_ok_def never_asks_eof_def)
      with Inl s show ?thesis by (simp add: Cleanup_def with_ssl_def deref_def Let_def)
    next
      case (Inr x)
      obtain code err bs s' oa' ds out where x: "x = ((code, err, bs, s'), (oa', ds), out)" by (metis surj_pair)
      with Inr have run: "run_call (sl_shutdown lib s) (sl_evp lib) (?oa, snd w) = ok ((code, err, bs, s'), (oa', ds), out)" by simp
      from run_call_frame [OF this] obtain ch v where oa': "oa' = ?oa\<lparr>oa_peer_cert_chain := ch, oa_verified := v\<rparr>"
        unfolding only_cert_def by (metis fst_conv)
      show ?thesis using run s unfolding Cleanup_def with_ssl_def Let_def
        by (simp add: deref_def shut_def oa')
    qed
  qed
qed

lemmas inv_defs = adapter_inv_def ssl_state_ok_def ssl_auth_ok_def identity_ok_def

definition expects_peer :: "string \<Rightarrow> bytes \<Rightarrow> 's OpenSSLStreamAdapter \<Rightarrow> bool" where
  "expects_peer alg val oa = (oa_client_auth oa \<and> oa_digest_alg oa = alg \<and> oa_digest_value oa = val)"

lemma inv_peer: "adapter_inv lib authed alg val oa \<Longrightarrow> expects_peer alg val oa"
  by (simp add: adapter_inv_def expects_peer_def)

lemma shut_inv: "shut oa oa' \<Longrightarrow> expects_peer alg val oa \<Longrightarrow> adapter_inv lib authed alg val oa'"
  by (auto simp: shut_def expects_peer_def inv_defs)

lemma Cleanup_inv:
  "expects_peer alg val (fst w) \<Longrightarrow> res_all lib (\<lambda>(w', out). adapter_inv lib authed alg val (fst w')) (Cleanup lib w)"
  using Cleanup_shuts [of lib w] by (auto simp: res_all_def intro: shut_inv split: sum.splits)

lemma oa_Error_inv:
  "expects_peer alg val (fst w) \<Longrightarrow> res_all lib (\<lambda>(w', out). adapter_inv lib authed alg val (fst w')) (oa_Error lib err w)"
  unfolding oa_Error_def by (rule Cleanup_inv) (simp add: expects_peer_def)

lemma oa_Close_inv:
  "expects_peer alg val (fst w) \<Longrightarrow> res_all lib (\<lambda>(w', out). adapter_inv lib authed alg val (fst w')) (oa_Close lib w)"
  unfolding oa_Close_def by (rule res_all_bind [OF Cleanup_inv]) auto

lemma inv_connected:
  assumes "adapter_inv lib authed alg val oa" "oa_state oa = SSL_CONNECTED"
  shows "\<exists>s. oa_ssl oa = Some s \<and> demands_cert lib s \<and> auth_core (sl_evp lib) (authed s) oa \<and> authed s"
  using assms by (auto simp: inv_defs)

lemma engine_calls:
  assumes "engine_law lib authed" "demands_cert lib s"
  shows "keeps_auth (sl_read lib n s) lib authed False (authed s)" "keeps_auth (sl_write lib bs s) lib authed False (authed s)"
    "keeps_auth (sl_connect lib s) lib authed True (authed s)" "keeps_auth (sl_accept lib s) lib authed True (authed s)"
    "no_verify (sl_handle_timeout lib s) lib authed (authed s)"
  using assms by (simp_all add: engine_law_def)

lemma engine_new:
  "engine_law lib authed \<Longrightarrow> sl_SSL_new lib c = Some s \<Longrightarrow> sl_settings lib s = c \<and> \<not> authed s"
  by (simp add: engine_law_def)

text \<open>The context the adapter sets up when the peer has to authenticate demands a certificate.\<close>

lemma excludes_anonymous: "sublist ''!aNULL'' kCipherList"
  unfolding sublist_def kCipherList_def
  by (rule exI [of _ "''DEFAULT:!NULL:''"], rule exI [of _ "'':!SHA256:!SHA384:!aECDH:!AESGCM+AES256:!aPSK:!3DES''"]) simp

lemma SetupSSLContext_demands:
  assumes "SetupSSLContext lib oa = ok (Some c)" "oa_client_auth oa" "sl_settings lib s = c"
  shows "demands_cert lib s"
proof -
  from assms(1,2) have "ctx_verify_callback c \<and> ctx_cipher_list c = kCipherList \<and>
    ctx_verify_mode c = SSL_VERIFY_PEER OR SSL_VERIFY_FAIL_IF_NO_PEER_CERT"
    by (auto simp: SetupSSLContext_def res_bind_eq_ok split: if_splits)
  with assms(3) show ?thesis
    by (simp add: demands_cert_def excludes_anonymous SSL_VERIFY_PEER_def SSL_VERIFY_FAIL_IF_NO_PEER_CERT_def Let_def)
qed

lemma bio_calls:
  assumes "never_asks_eof lib"
  shows "asks_no_eof (sl_read lib n s)" "asks_no_eof (sl_write lib bs s)" "asks_no_eof (sl_connect lib s)"
    "asks_no_eof (sl_accept lib s)" "asks_no_eof (sl_handle_timeout lib s)"
  using assms by (simp_all add: never_asks_eof_def)

text \<open>Reading or writing on an established connection keeps it, unless the error is fatal.\<close>

definition after_data :: "'s ssl_lib \<Rightarrow> ('s \<Rightarrow> bool) \<Rightarrow> string \<Rightarrow> bytes \<Rightarrow> (int \<times> int \<times> bytes) \<times> 's oaw \<times> sends \<Rightarrow> bool" where
  "after_data lib authed alg val r =
     (case r of ((code, err, bs), w', out) \<Rightarrow>
        expects_peer alg val (fst w') \<and> oa_ssl (fst w') \<noteq> None \<and>
        (\<not> fatal err \<longrightarrow> adapter_inv lib authed alg val (fst w') \<and> oa_state (fst w') = SSL_CONNECTED))"

lemma data_call:
  assumes "engine_law lib authed" "adapter_inv lib authed alg val (fst w)" "oa_state (fst w) = SSL_CONNECTED"
    and "f = sl_read lib n \<or> f = sl_write lib bs"
  shows "res_all lib (after_data lib authed alg val) (with_ssl lib f w)"
proof -
  from inv_connected [OF assms(2,3)] obtain s where s: "oa_ssl (fst w) = Some s" "auth_core (sl_evp lib) (authed s) (fst w)" "authed s"
    and d: "demands_cert lib s" by blast
  have k: "keeps_auth (f s) lib authed False (authed s)" using assms(4) engine_calls [OF assms(1) d] by auto
  have b: "asks_no_eof (f s)" if "never_asks_eof lib" using assms(4) bio_calls [OF that] by auto
  show ?thesis
  proof (cases "with_ssl lib f w")
    case (Inl fl)
    with with_ssl_after [where authed = authed and f = f and s = s, OF s(1,2) k b] show ?thesis by simp
  next
    case (Inr x)
    obtain code err bs' w' out where x: "x = ((code, err, bs'), w', out)" by (metis surj_pair)
    with with_ssl_after [where authed = authed and f = f and s = s, OF s(1,2) k b] Inr obtain s' c v where
      w': "fst w' = (fst w)\<lparr>oa_peer_cert_chain := c, oa_verified := v, oa_ssl := Some s'\<rparr>" and
      a: "\<not> fatal err \<Longrightarrow> demands_cert lib s' \<and> auth_core (sl_evp lib) (authed s') (fst w')" and
      "\<not> fatal err \<Longrightarrow> authed s'"
      using s(1,3) by (auto simp: after_call_def)
    with Inr x w' a assms(2,3) s(1) show ?thesis
      by (auto simp: after_data_def expects_peer_def inv_defs)
  qed
qed

lemma fatal_simps [simp]:
  "\<not> fatal SSL_ERROR_NONE" "\<not> fatal SSL_ERROR_WANT_READ" "\<not> fatal SSL_ERROR_WANT_WRITE" "fatal SSL_ERROR_ZERO_RETURN"
  by (simp_all add: fatal_def ssl_errors)

lemma inv_flags [simp]:
  "adapter_inv lib authed alg val (oa\<lparr>oa_read_needs_write := b\<rparr>) = adapter_inv lib authed alg val oa"
  "adapter_inv lib authed alg val (oa\<lparr>oa_write_needs_read := b\<rparr>) = adapter_inv lib authed alg val oa"
  by (simp_all add: inv_defs)

lemma FlushInput_inv:
  assumes "FlushInput lib left w out = Some r"
  shows "engine_law lib authed \<longrightarrow> adapter_inv lib authed alg val (fst w) \<longrightarrow> oa_state (fst w) = SSL_CONNECTED \<longrightarrow>
    res_all lib (\<lambda>(w', out). adapter_inv lib authed alg val (fst w')) r"
proof (rule FlushInput.raw_induct [OF _ assms], intro impI)
  fix flush and lib :: "'a ssl_lib" and left w out r
  assume IH: "\<And>lib left w out r. flush lib left w out = Some r \<Longrightarrow>
      engine_law lib authed \<longrightarrow> adapter_inv lib authed alg val (fst w) \<longrightarrow> oa_state (fst w) = SSL_CONNECTED \<longrightarrow>
      res_all lib (\<lambda>(w', out). adapter_inv lib authed alg val (fst w')) r"
    and body: "(if left = 0 then Some (Inr (w, out))
      else
        (case with_ssl lib (sl_read lib (if 2048 < left then 2048 else left)) w of
           Inl e \<Rightarrow> Some (Inl e)
         | Inr ((code, ssl_error, _), w1, o1) \<Rightarrow>
             if ssl_error \<noteq> SSL_ERROR_NONE
             then Some (res_bind (oa_Error lib (if ssl_error \<noteq> 0 then ssl_error else -1) w1) (\<lambda>(w2, o2). ok (w2, out @ o1 @ o2)))
             else flush lib (nat ((int left - code) mod 2 ^ 32)) w1 (out @ o1))) = Some r"
    and law: "engine_law lib authed" and inv: "adapter_inv lib authed alg val (fst w)" "oa_state (fst w) = SSL_CONNECTED"
  have after: "res_all lib (after_data lib authed alg val) (with_ssl lib (sl_read lib (if 2048 < left then 2048 else left)) w)"
    by (rule data_call [OF law inv]) blast
  show "res_all lib (\<lambda>(w', out). adapter_inv lib authed alg val (fst w')) r"
  proof (cases "left = 0")
    case True
    with body inv show ?thesis by auto
  next
    case False
    show ?thesis
    proof (cases "with_ssl lib (sl_read lib (if 2048 < left then 2048 else left)) w")
      case (Inl e)
      with body False after show ?thesis by (auto split: if_splits)
    next
      case (Inr x)
      obtain code err bs w1 o1 where x: "x = ((code, err, bs), w1, o1)" by (metis surj_pair)
      with Inr after have a: "expects_peer alg val (fst w1)"
        "\<not> fatal err \<Longrightarrow> adapter_inv lib authed alg val (fst w1) \<and> oa_state (fst w1) = SSL_CONNECTED"
        by (auto simp: after_data_def)
      show ?thesis
      proof (cases "err = SSL_ERROR_NONE")
        case True
        with body False Inr x have "flush lib (nat ((int left - code) mod 2 ^ 32)) w1 (out @ o1) = Some r" by simp
        from IH [OF this] a(2) True law show ?thesis by simp
      next
        case False
        with body \<open>left \<noteq> 0\<close> Inr x
        have r: "r = res_bind (oa_Error lib (if err \<noteq> 0 then err else -1) w1) (\<lambda>(w2, o2). ok (w2, out @ o1 @ o2))" by simp
        show ?thesis unfolding r by (rule res_all_bind [OF oa_Error_inv [OF a(1)]]) auto
      qed
    qed
  qed
qed

lemma FlushInput_all:
  assumes "engine_law lib authed" "adapter_inv lib authed alg val (fst w)" "oa_state (fst w) = SSL_CONNECTED"
  shows "res_all lib (\<lambda>(w', out). adapter_inv lib authed alg val (fst w'))
    (case FlushInput lib left w out of None \<Rightarrow> crash Diverges | Some r \<Rightarrow> r)"
  using FlushInput_inv [of lib left w out _ authed alg val] assms
  by (auto simp: fault_ok_def split: option.split)

lemma oa_Error_then_inv:
  "expects_peer alg val (fst w) \<Longrightarrow>
   res_all lib (\<lambda>(_, w', out). adapter_inv lib authed alg val (fst w'))
     (res_bind (oa_Error lib err w) (\<lambda>(w2, o2). ok (g w2, w2, out @ o2)))"
  by (rule res_all_bind [OF oa_Error_inv]) auto

lemma oa_Write_inv:
  assumes "engine_law lib authed" "adapter_inv lib authed alg val (fst w)"
  shows "res_all lib (\<lambda>(_, w', out). adapter_inv lib authed alg val (fst w')) (oa_Write lib data w)"
proof (cases "oa_state (fst w) = SSL_CONNECTED \<and> \<not> WaitingToVerifyPeerCertificate (fst w) \<and> length data \<noteq> 0")
  case False
  with assms(2) show ?thesis by (cases "oa_state (fst w)") (auto simp: oa_Write_def Let_def split: prod.splits)
next
  case True
  let ?w = "((fst w)\<lparr>oa_write_needs_read := False\<rparr>, snd w)"
  have "res_all lib (after_data lib authed alg val) (with_ssl lib (sl_write lib data) ?w)"
    by (rule data_call [OF assms(1)]) (use assms(2) True in auto)
  then have "res_all lib (\<lambda>(_, w', out). adapter_inv lib authed alg val (fst w'))
    (res_bind (with_ssl lib (sl_write lib data) ?w) (\<lambda>((code, ssl_error, _), w1, out).
                 if ssl_error = SSL_ERROR_NONE then ok ((SR_SUCCESS, Some (nat code), None), w1, out)
                 else if ssl_error = SSL_ERROR_WANT_READ
                 then ok ((SR_BLOCK, None, None), ((fst w1)\<lparr>oa_write_needs_read := True\<rparr>, snd w1), out)
                 else if ssl_error = SSL_ERROR_WANT_WRITE then ok ((SR_BLOCK, None, None), w1, out)
                 else res_bind (oa_Error lib (if ssl_error \<noteq> 0 then ssl_error else -1) w1) (\<lambda>(w2, o2).
                        ok ((SR_ERROR, None, Some (oa_error_code (fst w2))), w2, out @ o2))))"
    by (rule res_all_bind) (force simp: after_data_def ssl_errors fatal_def intro: oa_Error_then_inv)
  with True show ?thesis by (simp add: oa_Write_def Let_def)
qed

lemma oa_Read_open:
  assumes "oa_state (fst w) = SSL_CONNECTED" "\<not> WaitingToVerifyPeerCertificate (fst w)" "n \<noteq> 0"
    and "with_ssl lib (sl_read lib n) ((fst w)\<lparr>oa_read_needs_write := False\<rparr>, snd w) = ok ((code, err, bs), w1, out)"
    and "oa_ssl (fst w1) = Some s"
  shows "oa_Read lib n w =
      (if err = SSL_ERROR_NONE
       then (if oa_mode (fst w1) = SSL_MODE_DTLS \<and> sl_pending lib s \<noteq> 0
             then (case FlushInput lib (sl_pending lib s) w1 out of None \<Rightarrow> crash Diverges
                   | Some r \<Rightarrow> res_bind r (\<lambda>(w2, o2). ok ((SR_ERROR, Some bs, Some SSE_MSG_TRUNC), w2, o2)))
             else ok ((SR_SUCCESS, Some bs, None), w1, out))
       else if err = SSL_ERROR_WANT_READ then ok ((SR_BLOCK, None, None), w1, out)
       else if err = SSL_ERROR_WANT_WRITE then ok ((SR_BLOCK, None, None), ((fst w1)\<lparr>oa_read_needs_write := True\<rparr>, snd w1), out)
       else if err = SSL_ERROR_ZERO_RETURN
       then res_bind (oa_Close lib w1) (\<lambda>(w2, o2). ok ((SR_EOS, None, None), w2, out @ o2))
       else res_bind (oa_Error lib (if err \<noteq> 0 then err else -1) w1) (\<lambda>(w2, o2).
              ok ((SR_ERROR, None, Some (oa_error_code (fst w2))), w2, out @ o2)))"
  using assms unfolding oa_Read_def Let_def by (simp add: deref_def)

lemma oa_Read_inv:
  assumes "engine_law lib authed" "adapter_inv lib authed alg val (fst w)"
  shows "res_all lib (\<lambda>(_, w', out). adapter_inv lib authed alg val (fst w')) (oa_Read lib n w)"
proof (cases "oa_state (fst w) = SSL_CONNECTED \<and> \<not> WaitingToVerifyPeerCertificate (fst w) \<and> n \<noteq> 0")
  case False
  with assms(2) show ?thesis by (cases "oa_state (fst w)") (auto simp: oa_Read_def Let_def split: prod.splits)
next
  case True
  let ?w = "((fst w)\<lparr>oa_read_needs_write := False\<rparr>, snd w)"
  let ?Q = "\<lambda>(_, w', out). adapter_inv lib authed alg val (fst w')"
  have call: "res_all lib (after_data lib authed alg val) (with_ssl lib (sl_read lib n) ?w)"
    by (rule data_call [OF assms(1)]) (use assms(2) True in auto)
  show ?thesis
  proof (cases "with_ssl lib (sl_read lib n) ?w")
    case (Inl f)
    with True call show ?thesis by (simp add: oa_Read_def Let_def)
  next
    case (Inr x)
    obtain code err bs w1 out where x: "x = ((code, err, bs), w1, out)" by (metis surj_pair)
    with Inr call have a: "expects_peer alg val (fst w1)" "oa_ssl (fst w1) \<noteq> None"
      "\<not> fatal err \<Longrightarrow> adapter_inv lib authed alg val (fst w1) \<and> oa_state (fst w1) = SSL_CONNECTED"
      by (auto simp: after_data_def)
    from a(2) obtain s where s: "oa_ssl (fst w1) = Some s" by blast
    have eqs: "oa_Read lib n w =
      (if err = SSL_ERROR_NONE
       then (if oa_mode (fst w1) = SSL_MODE_DTLS \<and> sl_pending lib s \<noteq> 0
             then (case FlushInput lib (sl_pending lib s) w1 out of None \<Rightarrow> crash Diverges
                   | Some r \<Rightarrow> res_bind r (\<lambda>(w2, o2). ok ((SR_ERROR, Some bs, Some SSE_MSG_TRUNC), w2, o2)))
             else ok ((SR_SUCCESS, Some bs, None), w1, out))
       else if err = SSL_ERROR_WANT_READ then ok ((SR_BLOCK, None, None), w1, out)
       else if err = SSL_ERROR_WANT_WRITE then ok ((SR_BLOCK, None, None), ((fst w1)\<lparr>oa_read_needs_write := True\<rparr>, snd w1), out)
       else if err = SSL_ERROR_ZERO_RETURN
       then res_bind (oa_Close lib w1) (\<lambda>(w2, o2). ok ((SR_EOS, None, None), w2, out @ o2))
       else res_bind (oa_Error lib (if err \<noteq> 0 then err else -1) w1) (\<lambda>(w2, o2).
              ok ((SR_ERROR, None, Some (oa_error_code (fst w2))), w2, out @ o2)))"
      using True by (intro oa_Read_open [OF _ _ _ Inr [unfolded x] s]) auto
    consider "err = SSL_ERROR_NONE" | "err = SSL_ERROR_WANT_READ" | "err = SSL_ERROR_WANT_WRITE"
      | "err = SSL_ERROR_ZERO_RETURN" | "err \<notin> {SSL_ERROR_NONE, SSL_ERROR_WANT_READ, SSL_ERROR_WANT_WRITE, SSL_ERROR_ZERO_RETURN}"
      by blast
    then show ?thesis
    proof cases
      case 1
      have "res_all lib ?Q (case FlushInput lib (sl_pending lib s) w1 out of None \<Rightarrow> crash Diverges
                   | Some r \<Rightarrow> res_bind r (\<lambda>(w2, o2). ok ((SR_ERROR, Some bs, Some SSE_MSG_TRUNC), w2, o2)))"
        using FlushInput_all [OF assms(1), of alg val w1 "sl_pending lib s" out] a(3) 1
        by (cases "FlushInput lib (sl_pending lib s) w1 out") (auto intro: res_all_bind)
      with 1 a(3) show ?thesis unfolding eqs by simp
    next
      case 4
      then show ?thesis unfolding eqs
        by (simp add: ssl_errors) (rule res_all_bind [OF oa_Close_inv [OF a(1)]], auto)
    next
      case 5
      then show ?thesis unfolding eqs
        by (auto intro: oa_Error_then_inv [OF a(1)])
    qed (use a(3) in \<open>simp_all add: eqs ssl_errors fatal_def\<close>)
  qed
qed

text \<open>The reactions keep the invariant; \<open>holds\<close> abbreviates it on an adapter with its stream.\<close>

abbreviation oaw_inv :: "'s ssl_lib \<Rightarrow> ('s \<Rightarrow> bool) \<Rightarrow> string \<Rightarrow> bytes \<Rightarrow> 's oaw \<Rightarrow> bool" where
  "oaw_inv lib authed alg val w \<equiv> adapter_inv lib authed alg val (fst w)"

lemma raise_events_all: "P w \<Longrightarrow> react_all (raise_events ev err w) lib P"
  by (simp add: raise_events_def)

lemma Error_signal_all:
  "expects_peer alg val (fst w) \<Longrightarrow> react_all (Error_signal lib err w) lib (oaw_inv lib authed alg val)"
  unfolding Error_signal_def
  by (rule react_all_bind [where Q = "\<lambda>(_, w', out). oaw_inv lib authed alg val w'"], rule res_all_bind [OF oa_Error_inv]) auto

lemma ContinueSSL_all:
  assumes law: "engine_law lib authed" and inv: "oaw_inv lib authed alg val w" and st: "oa_state (fst w) = SSL_CONNECTING"
    and k: "\<And>w'. oaw_inv lib authed alg val w' \<Longrightarrow> react_all (k 0 w') lib (oaw_inv lib authed alg val)"
      "\<And>err w'. err \<noteq> 0 \<Longrightarrow> expects_peer alg val (fst w') \<Longrightarrow> react_all (k err w') lib (oaw_inv lib authed alg val)"
  shows "react_all (ContinueSSL lib w k) lib (oaw_inv lib authed alg val)"
proof -
  let ?w = "((fst w)\<lparr>oa_timeout := None\<rparr>, snd w)"
  let ?f = "if oa_role (fst ?w) = SSL_CLIENT then sl_connect lib else sl_accept lib"
  from inv st obtain s where s: "oa_ssl (fst ?w) = Some s" "auth_core (sl_evp lib) (authed s) (fst ?w)"
    and d: "demands_cert lib s" by (auto simp: inv_defs)
  have keeps: "keeps_auth (?f s) lib authed True (authed s)" by (simp add: engine_calls [OF law d])
  have bio: "never_asks_eof lib \<Longrightarrow> asks_no_eof (?f s)" by (simp add: bio_calls)
  have call: "res_all lib (after_call lib authed True ?w) (with_ssl lib ?f ?w)"
    by (rule with_ssl_after [where f = ?f and s = s, OF s keeps bio])
  show ?thesis unfolding ContinueSSL_def Let_def
  proof (rule react_all_bind [OF call], clarify, goal_cases)
    case (1 code err bs oa1 ds1 out)
    then have "\<exists>s' c v. oa1 = (fst ?w)\<lparr>oa_peer_cert_chain := c, oa_verified := v, oa_ssl := Some s'\<rparr> \<and>
      (\<not> fatal err \<longrightarrow> demands_cert lib s' \<and> auth_core (sl_evp lib) (authed s') oa1 \<and> (err = SSL_ERROR_NONE \<longrightarrow> authed s'))"
      unfolding after_call_def by simp blast
    then obtain s' c v where oa1: "oa1 = (fst ?w)\<lparr>oa_peer_cert_chain := c, oa_verified := v, oa_ssl := Some s'\<rparr>"
      and a: "\<not> fatal err \<Longrightarrow> demands_cert lib s' \<and> auth_core (sl_evp lib) (authed s') oa1" "\<not> fatal err \<Longrightarrow> err = SSL_ERROR_NONE \<Longrightarrow> authed s'"
      by blast
    have p: "expects_peer alg val oa1" using inv by (simp add: oa1 expects_peer_def adapter_inv_def)
    have i: "adapter_inv lib authed alg val (oa1\<lparr>oa_timeout := t\<rparr>)" if "\<not> fatal err" for t
      using inv st a(1) [OF that] by (auto simp: oa1 inv_defs auth_core_def cert_matches_def HasPeerCertificateDigest_def)
    have i0: "adapter_inv lib authed alg val oa1" if "\<not> fatal err"
      using inv st a(1) [OF that] by (auto simp: oa1 inv_defs auth_core_def cert_matches_def HasPeerCertificateDigest_def)
    have c1: "adapter_inv lib authed alg val (oa1\<lparr>oa_state := SSL_CONNECTED\<rparr>)" if "err = SSL_ERROR_NONE"
      using inv st a(1) a(2) [OF _ that] that by (auto simp: oa1 inv_defs auth_core_def cert_matches_def HasPeerCertificateDigest_def)
    show ?case
      using c1 i i0 p by (auto simp: ssl_errors intro!: k split: option.split) (auto simp: fatal_def ssl_errors)
  qed
qed

lemma BeginSSL_all:
  assumes law: "engine_law lib authed" and p: "expects_peer alg val (fst w)" and st: "oa_state (fst w) = SSL_CONNECTING"
    and fresh: "oa_ssl (fst w) = None" "oa_peer_cert_chain (fst w) = None" "\<not> oa_verified (fst w)" "oa_timeout (fst w) = None"
      "identity_ok (fst w)"
    and k: "\<And>w'. oaw_inv lib authed alg val w' \<Longrightarrow> react_all (k 0 w') lib (oaw_inv lib authed alg val)"
      "\<And>err w'. err \<noteq> 0 \<Longrightarrow> expects_peer alg val (fst w') \<Longrightarrow> react_all (k err w') lib (oaw_inv lib authed alg val)"
  shows "react_all (BeginSSL lib w k) lib (oaw_inv lib authed alg val)"
proof (cases "SetupSSLContext lib (fst w)")
  case (Inl f)
  have "is_ok (SetupSSLContext lib (fst w))"
    using fresh(5) by (auto simp: SetupSSLContext_def ConfigureIdentity_def identity_ok_def nth_res_def split: option.split)
  with Inl show ?thesis by simp
next
  case (Inr ctx)
  show ?thesis
  proof (cases "\<exists>c s. ctx = Some c \<and> sl_BIO_new lib \<and> sl_SSL_new lib c = Some s")
    case False
    have "react_all (k (-1) ((fst w)\<lparr>oa_ssl_ctx := x\<rparr>, snd w)) lib (oaw_inv lib authed alg val)" for x
      by (rule k(2)) (use p in \<open>simp_all add: expects_peer_def\<close>)
    with Inr False show ?thesis by (auto simp: BeginSSL_def Let_def split: option.split)
  next
    case True
    then obtain c s where c: "ctx = Some c" "sl_BIO_new lib" "sl_SSL_new lib c = Some s" by blast
    have na: "\<not> authed s" using engine_new [OF law c(3)] by blast
    have dem: "demands_cert lib s"
      by (rule SetupSSLContext_demands [of lib "fst w" c]) (use Inr c p engine_new [OF law c(3)] in \<open>auto simp: expects_peer_def\<close>)
    have "react_all (ContinueSSL lib ((fst w)\<lparr>oa_ssl_ctx := Some c, oa_ssl := Some s\<rparr>, snd w) k) lib (oaw_inv lib authed alg val)"
      by (rule ContinueSSL_all [where k = k, OF law _ _ k])
        (use p st fresh na dem in \<open>auto simp: inv_defs expects_peer_def auth_core_def\<close>)
    with Inr c show ?thesis by (simp add: BeginSSL_def)
  qed
qed

lemma inv_idle:
  assumes "adapter_inv lib authed alg val oa" "oa_state oa = SSL_NONE \<or> oa_state oa = SSL_WAIT"
  shows "oa_ssl oa = None" "oa_peer_cert_chain oa = None" "\<not> oa_verified oa" "oa_timeout oa = None" "identity_ok oa"
  using assms by (auto simp: inv_defs)

lemma StartSSL_all:
  assumes "engine_law lib authed" "oaw_inv lib authed alg val w"
  shows "react_all (StartSSL lib w) lib (oaw_inv lib authed alg val)"
proof (cases "oa_state (fst w) = SSL_NONE \<and> ds_GetState (snd w) = SS_OPEN")
  case False
  with assms(2) show ?thesis by (auto simp: StartSSL_def inv_defs)
next
  case True
  then have "oa_state (fst w) = SSL_NONE \<or> oa_state (fst w) = SSL_WAIT" by simp
  note idle = inv_idle [OF assms(2) this]
  let ?k = "\<lambda>err w1. if err \<noteq> 0
          then react_bind (res_bind (oa_Error lib err w1) (\<lambda>(w2, out). ok ((), w2, out))) (\<lambda>_. Done err)
          else Done 0 w1"
  have "react_all (?k err w1) lib (oaw_inv lib authed alg val)" if "err \<noteq> 0" "expects_peer alg val (fst w1)" for err w1
    using that(1)
    by (simp, intro react_all_bind [where Q = "\<lambda>(_, w', out). oaw_inv lib authed alg val w'"] res_all_bind [OF oa_Error_inv [OF that(2)]]) auto
  then have "react_all (BeginSSL lib ((fst w)\<lparr>oa_state := SSL_CONNECTING\<rparr>, snd w) ?k) lib (oaw_inv lib authed alg val)"
    using assms idle True by (intro BeginSSL_all) (auto simp: expects_peer_def adapter_inv_def identity_ok_def)
  with True show ?thesis by (simp add: StartSSL_def)
qed

lemma OnEvent_close_all:
  "oaw_inv lib authed alg val w \<Longrightarrow> react_all (OnEvent_close lib events err ts w) lib (oaw_inv lib authed alg val)"
  unfolding OnEvent_close_def
  by (auto intro!: raise_events_all react_all_bind [where Q = "\<lambda>(_, w', out). oaw_inv lib authed alg val w'"]
      res_all_bind [OF Cleanup_inv [OF inv_peer]])

lemma OnEvent_data_all:
  assumes "engine_law lib authed" "oaw_inv lib authed alg val w"
  shows "react_all (OnEvent_data lib events err ts w) lib (oaw_inv lib authed alg val)"
proof -
  let ?k = "\<lambda>code w1. if code \<noteq> 0 then Error_signal lib code w1 else OnEvent_close lib events err ts w1"
  have "react_all (ContinueSSL lib w ?k) lib (oaw_inv lib authed alg val)" if "oa_state (fst w) = SSL_CONNECTING"
    by (rule ContinueSSL_all [OF assms that]) (auto intro: OnEvent_close_all Error_signal_all)
  with assms(2) show ?thesis by (auto simp: OnEvent_data_def Let_def intro: OnEvent_close_all)
qed

lemma OnEvent_all:
  assumes "engine_law lib authed" "oaw_inv lib authed alg val w"
  shows "react_all (OnEvent lib events err w) lib (oaw_inv lib authed alg val)"
proof (cases "events AND SE_OPEN \<noteq> 0 \<and> oa_state (fst w) = SSL_WAIT")
  case False
  with assms show ?thesis by (auto simp: OnEvent_def intro: OnEvent_data_all)
next
  case True
  then have "oa_state (fst w) = SSL_NONE \<or> oa_state (fst w) = SSL_WAIT" by simp
  note idle = inv_idle [OF assms(2) this]
  let ?k = "\<lambda>code w1. if code \<noteq> 0 then Error_signal lib code w1 else OnEvent_data lib events err 0 w1"
  have "react_all (BeginSSL lib ((fst w)\<lparr>oa_state := SSL_CONNECTING\<rparr>, snd w) ?k) lib (oaw_inv lib authed alg val)"
  proof (rule BeginSSL_all [OF assms(1)])
    show "expects_peer alg val (fst ((fst w)\<lparr>oa_state := SSL_CONNECTING\<rparr>, snd w))" using inv_peer [OF assms(2)] by (simp add: expects_peer_def)
    show "identity_ok (fst ((fst w)\<lparr>oa_state := SSL_CONNECTING\<rparr>, snd w))" using idle(5) by (simp add: identity_ok_def)
  qed (use idle in \<open>auto intro: OnEvent_data_all [OF assms(1)] Error_signal_all\<close>)
  with True show ?thesis by (simp add: OnEvent_def)
qed

text \<open>A reaction whose signals are answered by the slot of \<open>RtcDtls\<close>.\<close>

lemma read_loop_all:
  assumes rd: "\<And>w. P w \<Longrightarrow> res_all lib (\<lambda>(_, w', _). P w') (rd w)" and P: "P w"
  shows "res_all lib (\<lambda>(_, w', _). P w') (case read_loop rd st w out of None \<Rightarrow> crash Diverges | Some r \<Rightarrow> r)"
proof (cases "read_loop rd st w out")
  case None
  then show ?thesis by (simp add: fault_ok_def)
next
  case (Some r)
  have "P w \<longrightarrow> res_all lib (\<lambda>(_, w', _). P w') r"
  proof (rule read_loop.raw_induct [OF _ Some, where P = "\<lambda>rd' st w out r. rd' = rd \<longrightarrow> P w \<longrightarrow> res_all lib (\<lambda>(_, w', _). P w') r",
        THEN mp, OF _ refl], intro impI)
    fix loop rd' st w out r
    assume IH: "\<And>rd' st w out r. loop rd' st w out = Some r \<Longrightarrow> rd' = rd \<longrightarrow> P w \<longrightarrow> res_all lib (\<lambda>(_, w', _). P w') r"
      and body: "(case rd' w of
        Inl e \<Rightarrow> Some (Inl e)
      | Inr (ret, w', o1) \<Rightarrow>
          let st' = (if ret = SR_EOS then k_closed else if ret = SR_ERROR then k_failed else st)
          in if ret = SR_SUCCESS then loop rd' st' w' (out @ o1) else Some (Inr (st', w', out @ o1))) = Some r"
      and eq: "rd' = rd" and P: "P w"
    show "res_all lib (\<lambda>(_, w', _). P w') r"
      using body rd [OF P] IH eq by (cases "rd w") (auto simp: Let_def split: if_splits)
  qed
  with P Some show ?thesis by simp
qed

lemma slot_all:
  assumes "\<And>w. P w \<Longrightarrow> res_all lib (\<lambda>(_, w', _). P w') (ad_Read ops w)" "P w"
  shows "res_all lib (\<lambda>(_, w', _). P w') (slot_dtls_event ops sig err st w)"
  unfolding slot_dtls_event_def Let_def
  using read_loop_all [where P = P and rd = "ad_Read ops" and lib = lib, OF assms] assms(2)
  by (cases "sig AND SE_READ = 0") (simp_all only: not_True_eq_False not_False_eq_True if_True if_False simp_thms res_all_simps prod.case)

lemma run_react_all:
  assumes rd: "\<And>w. P w \<Longrightarrow> res_all lib (\<lambda>(_, w', _). P w') (ad_Read ops w)" and r: "react_all r lib P"
  shows "res_all lib (\<lambda>(_, _, w', _). P w') (run_react r ops st)"
  using r
proof (induction r arbitrary: st)
  case (Send bs addr r)
  then have "res_all lib (\<lambda>(_, _, w', _). P w') (run_react r ops st)" by simp
  then show ?case by (auto intro: res_all_bind)
next
  case (Signal sig err w k)
  have "res_all lib (\<lambda>(_, w', _). P w') (slot_dtls_event ops sig err st w)"
    by (rule slot_all [OF rd]) (use Signal.prems in auto)
  then show ?case unfolding run_react.simps
  proof (rule res_all_bind)
    fix v :: "DtlsTransportState \<times> ('a \<times> DtlsStreamInterface) \<times> sends"
    assume "case v of (_, w', _) \<Rightarrow> P w'"
    then obtain st' w' o1 where v: "v = (st', w', o1)" "P w'" by (cases v) auto
    have "res_all lib (\<lambda>(_, _, w', _). P w') (run_react (k w') ops st')"
      by (rule Signal.IH [OF rangeI]) (use Signal.prems v in \<open>cases w', auto\<close>)
    then show "res_all lib (\<lambda>(_, _, w', _). P w')
        (case v of (st', w', o1) \<Rightarrow> res_bind (run_react (k w') ops st') (\<lambda>(ret, st'', w'', o2). ok (ret, st'', w'', o1 @ o2)))"
      unfolding v prod.case by (rule res_all_bind) auto
  qed
qed auto

text \<open>The DTLS connection over this adapter.\<close>

definition dtls_inv :: "'s ssl_lib \<Rightarrow> ('s \<Rightarrow> bool) \<Rightarrow> string \<Rightarrow> bytes \<Rightarrow> 's OpenSSLStreamAdapter RtcDtls \<Rightarrow> bool" where
  "dtls_inv lib authed alg val d = (\<exists>oa. dt_adapter d = Some oa \<and> adapter_inv lib authed alg val oa)"

lemma openssl_read_all:
  assumes "engine_law lib authed" "oaw_inv lib authed alg val w"
  shows "res_all lib (\<lambda>(_, w', _). oaw_inv lib authed alg val w') (ad_Read (openssl_adapter lib identity) w)"
proof -
  have "res_all lib (\<lambda>(_, w', _). oaw_inv lib authed alg val w')
    (res_bind (oa_Read lib 2048 w) (\<lambda>((ret, _), w', out). ok (ret, w', out)))"
    by (rule res_all_bind [OF oa_Read_inv [OF assms]]) auto
  then show ?thesis by (simp add: openssl_adapter_def)
qed

lemma openssl_react_all:
  assumes "engine_law lib authed" "react_all r lib (oaw_inv lib authed alg val)"
  shows "res_all lib (\<lambda>(_, _, w', _). oaw_inv lib authed alg val w') (run_react r (openssl_adapter lib identity) st)"
  by (rule run_react_all [OF openssl_read_all [OF assms(1)] assms(2)])

lemma do_handle_all:
  assumes "engine_law lib authed" "adapter_inv lib authed alg val a" "dtls_inv lib authed alg val d"
  shows "res_all lib (\<lambda>(_, d', _). dtls_inv lib authed alg val d')
    (do_handle_dtls_packet (openssl_adapter lib identity) data a d)"
proof (cases "record_loop data \<and> \<not> ds_is_stop (dt_downward d)")
  case False
  with assms(3) show ?thesis by (auto simp: do_handle_dtls_packet_def on_packet_receive_def)
next
  case True
  obtain flag q where q: "WriteBack data (ds_que (dt_downward d)) = (flag, q)" by fastforce
  let ?ds = "(dt_downward d)\<lparr>ds_que := q\<rparr>"
  have "react_all (OnEvent lib SE_READ 0 (a, ?ds)) lib (oaw_inv lib authed alg val)"
    by (rule OnEvent_all [OF assms(1)]) (simp add: assms(2))
  then have "res_all lib (\<lambda>(_, _, w', _). oaw_inv lib authed alg val w')
      (run_react (ad_OnReadable (openssl_adapter lib identity) (a, ?ds)) (openssl_adapter lib identity) (dt_state d))"
    using openssl_react_all [OF assms(1)] by (simp add: openssl_adapter_def)
  then have "res_all lib (\<lambda>(_, d', _). dtls_inv lib authed alg val d')
     (res_bind (run_react (ad_OnReadable (openssl_adapter lib identity) (a, ?ds)) (openssl_adapter lib identity) (dt_state d))
       (\<lambda>(_, st, w, out). ok (flag, d\<lparr>dt_state := st, dt_adapter := Some (fst w), dt_downward := snd w\<rparr>, out)))"
    by (rule res_all_bind) (auto simp: dtls_inv_def)
  with True q show ?thesis by (simp add: do_handle_dtls_packet_def on_packet_receive_def Let_def)
qed

lemma start_all:
  assumes "engine_law lib authed" "dtls_inv lib authed alg val d"
  shows "res_all lib (\<lambda>(d', _). dtls_inv lib authed alg val d')
    (if dt_state d = k_new
     then res_bind (deref (dt_adapter d)) (\<lambda>a.
            res_bind (run_react (ad_StartSSL (openssl_adapter lib identity) (a, dt_downward d)) (openssl_adapter lib identity) k_new)
              (\<lambda>(ret, st, w, out). ok (d\<lparr>dt_state := (if ret = 0 then k_connecting else st),
                       dt_adapter := Some (fst w), dt_downward := snd w\<rparr>, out)))
     else ok (d, []))"
proof -
  from assms(2) obtain a where a: "dt_adapter d = Some a" "adapter_inv lib authed alg val a"
    by (auto simp: dtls_inv_def)
  have "react_all (StartSSL lib (a, dt_downward d)) lib (oaw_inv lib authed alg val)"
    by (rule StartSSL_all [OF assms(1)]) (simp add: a(2))
  then have run: "res_all lib (\<lambda>(_, _, w', _). oaw_inv lib authed alg val w')
      (run_react (ad_StartSSL (openssl_adapter lib identity) (a, dt_downward d)) (openssl_adapter lib identity) k_new)"
    using openssl_react_all [OF assms(1)] by (simp add: openssl_adapter_def)
  have "res_all lib (\<lambda>(d', _). dtls_inv lib authed alg val d')
    (res_bind (run_react (ad_StartSSL (openssl_adapter lib identity) (a, dt_downward d)) (openssl_adapter lib identity) k_new)
              (\<lambda>(ret, st, w, out). ok (d\<lparr>dt_state := (if ret = 0 then k_connecting else st),
                       dt_adapter := Some (fst w), dt_downward := snd w\<rparr>, out)))"
    by (rule res_all_bind [OF run]) (auto simp: dtls_inv_def)
  with a(1) assms(2) show ?thesis by (simp add: deref_def)
qed

lemma handle_dtls_all:
  assumes "engine_law lib authed" "dtls_inv lib authed alg val d"
  shows "res_all lib (\<lambda>(d', _). dtls_inv lib authed alg val d') (handle_dtls (openssl_adapter lib identity) data d)"
  unfolding handle_dtls_def
proof (rule res_all_bind [OF start_all [OF assms]], clarify)
  fix d1 out1 assume d1: "dtls_inv lib authed alg val d1"
  then obtain a where a: "dt_adapter d1 = Some a" "adapter_inv lib authed alg val a" by (auto simp: dtls_inv_def)
  note pkt = do_handle_all [OF assms(1) a(2) d1]
  have "res_all lib (\<lambda>(d', _). dtls_inv lib authed alg val d')
     (res_bind (do_handle_dtls_packet (openssl_adapter lib identity) data a d1) (\<lambda>(flag, d2, out2).
        ok (if flag then d2\<lparr>dt_state := k_connected\<rparr> else d2, out1 @ out2)))"
    by (rule res_all_bind [OF pkt]) (auto simp: dtls_inv_def)
  moreover have "res_all lib (\<lambda>(d', _). dtls_inv lib authed alg val d')
     (res_bind (do_handle_dtls_packet (openssl_adapter lib identity) data a d1) (\<lambda>(flag, d2, out2). ok (d2, out1 @ out2)))"
    by (rule res_all_bind [OF pkt]) auto
  ultimately show "res_all lib (\<lambda>(d', _). dtls_inv lib authed alg val d')
     (if dt_state d1 = k_connecting then
            (if is_dtls_client_hello_packet data
             then res_bind (deref (dt_adapter d1)) (\<lambda>a.
                  res_bind (do_handle_dtls_packet (openssl_adapter lib identity) data a d1) (\<lambda>(flag, d2, out2).
                    ok (if flag then d2\<lparr>dt_state := k_connected\<rparr> else d2, out1 @ out2)))
             else ok (d1, out1))
          else if dt_state d1 = k_connected then
            res_bind (deref (dt_adapter d1)) (\<lambda>a.
            res_bind (do_handle_dtls_packet (openssl_adapter lib identity) data a d1) (\<lambda>(flag, d2, out2). ok (d2, out1 @ out2)))
          else ok (d1, out1))"
    using a(1) d1 by (simp add: deref_def)
qed

inductive dtls_step ::
  "'s ssl_lib \<Rightarrow> OpenSSLIdentity \<Rightarrow> 's OpenSSLStreamAdapter RtcDtls \<Rightarrow> 's OpenSSLStreamAdapter RtcDtls \<Rightarrow> bool"
  for lib identity where
  datagram: "handle_dtls (openssl_adapter lib identity) data d = ok (d', out) \<Longrightarrow> dtls_step lib identity d d'"
| destroy: "dtls_step lib identity d (dt_destory d)"

definition dtls_start :: "'s ssl_lib \<Rightarrow> OpenSSLIdentity \<Rightarrow> bool \<Rightarrow> IpAddress \<Rightarrow> string \<Rightarrow> bytes \<Rightarrow> 's OpenSSLStreamAdapter RtcDtls option" where
  "dtls_start lib identity legacy addr alg digest =
     (case RtcDtls_new (OpenSSLStreamAdapter_new legacy) addr of
        Inl _ \<Rightarrow> None
      | Inr d \<Rightarrow>
          (case setup_dtls (openssl_adapter lib identity) (set_remote_dtls alg digest d) of
             (flag, d') \<Rightarrow> if flag then Some d' else None))"

lemma GetDigestEVP_nonempty: "GetDigestEVP alg = Some md \<Longrightarrow> alg \<noteq> []"
  by (auto simp: GetDigestEVP_def digest_names split: if_splits)

lemma dtls_start_inv:
  assumes "dtls_start lib identity legacy addr alg digest = Some d" "id_cert_chain identity \<noteq> []"
  shows "dtls_inv lib authed alg digest d \<and> alg \<noteq> []"
proof -
  let ?ops = "openssl_adapter lib identity"
  let ?oa = "OpenSSLStreamAdapter_new legacy :: 's OpenSSLStreamAdapter"
  from assms(1) obtain d0 where d0: "RtcDtls_new ?oa addr = ok d0"
    "setup_dtls ?ops (set_remote_dtls alg digest d0) = (True, d)"
    by (auto simp: dtls_start_def split: sum.splits prod.splits if_splits)
  let ?d = "set_remote_dtls alg digest d0"
  from d0(1) have new: "dt_adapter d0 = Some ?oa" "dt_remote_fingerprint_value d0 = []"
    by (auto simp: RtcDtls_new_def res_bind_eq_ok)
  then have ad: "dt_adapter ?d = Some ?oa" by (simp add: set_remote_dtls_def)
  have fpr: "dt_remote_fingerprint_value ?d \<noteq> []" using d0(2) ad by (auto simp: setup_dtls_def Let_def)
  then have remote: "dt_remote_fingerprint_value ?d = digest" "dt_remote_alg ?d = alg"
    using new(2) by (auto simp: set_remote_dtls_def split: if_splits)
  let ?c = "ad_configure ?ops ?oa"
  have chain: "oa_peer_cert_chain ?c = None"
    by (simp add: openssl_adapter_def SetServerRole_def SetMaxProtocolVersion_def SetMode_def SetIdentity_def OpenSSLStreamAdapter_new_def)
  obtain good a2 where a2: "ad_SetPeerCertificateDigest ?ops alg digest ?c = (good, a2)" by fastforce
  have g: "good" using d0(2) ad fpr remote a2 by (auto simp: setup_dtls_def Let_def split: bool.splits)
  from a2 g chain obtain md where md: "GetDigestEVP alg = Some md"
    and a2': "a2 = ?c\<lparr>oa_digest_value := digest, oa_digest_alg := alg\<rparr>"
    unfolding openssl_adapter_def
    by (auto simp: oa_SetPeerCertificateDigest_def GetDigestSize_def Let_def split: option.splits if_splits)
  obtain good3 a3 where a3: "oa_SetDtlsSrtpCryptoSuites (dt_srtp_ciphers ?d) a2 = (good3, a3)" by fastforce
  then have a3': "\<exists>x. a3 = a2\<lparr>oa_srtp_ciphers := x\<rparr>"
    by (auto simp: oa_SetDtlsSrtpCryptoSuites_def split: if_splits option.splits intro: exI [of _ "oa_srtp_ciphers a2"])
  have "dt_adapter d = Some a3"
    using d0(2) ad fpr remote a2 g a3 by (auto simp: setup_dtls_def Let_def openssl_adapter_def split: if_splits)
  moreover have "adapter_inv lib authed alg digest a3"
    using a3' assms(2)
    by (auto simp: a2' inv_defs openssl_adapter_def SetServerRole_def SetMaxProtocolVersion_def SetMode_def SetIdentity_def OpenSSLStreamAdapter_new_def)
  ultimately show ?thesis using GetDigestEVP_nonempty [OF md] by (simp add: dtls_inv_def)
qed

lemma dtls_steps_inv:
  assumes "(dtls_step lib identity)\<^sup>*\<^sup>* d d'" "engine_law lib authed" "dtls_inv lib authed alg val d"
  shows "dtls_inv lib authed alg val d'"
  using assms(1,3)
proof (induction rule: rtranclp_induct)
  case (step d1 d2)
  from step.hyps(2) show ?case
  proof cases
    case (datagram data out)
    with handle_dtls_all [OF assms(2) step.IH [OF step.prems], of identity data] show ?thesis by simp
  next
    case destroy
    with step.IH [OF step.prems] show ?thesis by (simp add: dtls_inv_def dt_destory_def)
  qed
qed

lemma exported_keys_verified:
  assumes "dtls_inv lib authed alg val d" "alg \<noteq> []"
    and "extract_srtp_keys (openssl_adapter lib identity) d = ok (Some keys)"
  shows "\<exists>oa. dt_adapter d = Some oa \<and> cert_matches (sl_evp lib) oa \<and> oa_digest_alg oa = alg \<and> oa_digest_value oa = val"
proof -
  from assms(1) obtain oa where oa: "dt_adapter d = Some oa" "adapter_inv lib authed alg val oa"
    by (auto simp: dtls_inv_def)
  have "oa_state oa = SSL_CONNECTED"
  proof (rule ccontr)
    assume "oa_state oa \<noteq> SSL_CONNECTED"
    then have "ad_GetDtlsSrtpCryptoSuite (openssl_adapter lib identity) oa = ok None"
      by (simp add: openssl_adapter_def oa_GetDtlsSrtpCryptoSuite_def)
    from extract_srtp_keys_uninitialised [OF oa(1) this] assms(3) show False by simp
  qed
  from inv_connected [OF oa(2) this] obtain s where "auth_core (sl_evp lib) (authed s) oa" "authed s" by blast
  with oa assms(2) show ?thesis by (auto simp: auth_core_def adapter_inv_def)
qed

section \<open>The slot over this adapter\<close>

text \<open>
  A step of the read loop that goes on: the connection is open, the engine reads without an error and
  keeps nothing back.
\<close>

definition delivers :: "'s ssl_lib \<Rightarrow> 's oaw \<Rightarrow> 's oaw \<Rightarrow> bool" where
  "delivers lib w w' =
     (oa_GetState (fst w) = SS_OPEN \<and>
      (\<exists>code bs out s. with_ssl lib (sl_read lib 2048) ((fst w)\<lparr>oa_read_needs_write := False\<rparr>, snd w)
           = ok ((code, SSL_ERROR_NONE, bs), w', out) \<and>
         oa_ssl (fst w') = Some s \<and> (oa_mode (fst w') = SSL_MODE_DTLS \<longrightarrow> sl_pending lib s = 0)))"

lemma open_iff: "oa_GetState oa = SS_OPEN \<longleftrightarrow> oa_state oa = SSL_CONNECTED \<and> \<not> WaitingToVerifyPeerCertificate oa"
  by (auto simp: oa_GetState_def split: SSLState.splits)

lemma with_ssl_some: "with_ssl lib f w = ok (r, w', out) \<Longrightarrow> \<exists>s. oa_ssl (fst w') = Some s"
  by (auto simp: with_ssl_def res_bind_eq_ok)

lemma oa_Read_success:
  assumes "oa_Read lib n w = ok ((SR_SUCCESS, x), w', out)" "oa_state (fst w) \<noteq> SSL_NONE" "n \<noteq> 0"
  shows "oa_GetState (fst w) = SS_OPEN \<and>
    (\<exists>code bs s. with_ssl lib (sl_read lib n) ((fst w)\<lparr>oa_read_needs_write := False\<rparr>, snd w)
         = ok ((code, SSL_ERROR_NONE, bs), w', out) \<and>
       oa_ssl (fst w') = Some s \<and> (oa_mode (fst w') = SSL_MODE_DTLS \<longrightarrow> sl_pending lib s = 0))"
proof (cases "oa_state (fst w) = SSL_CONNECTED \<and> \<not> WaitingToVerifyPeerCertificate (fst w)")
  case False
  with assms show ?thesis by (cases "oa_state (fst w)") (auto simp: oa_Read_def Let_def)
next
  case True
  let ?w = "((fst w)\<lparr>oa_read_needs_write := False\<rparr>, snd w)"
  show ?thesis
  proof (cases "with_ssl lib (sl_read lib n) ?w")
    case (Inl e)
    with assms True show ?thesis by (simp add: oa_Read_def Let_def)
  next
    case (Inr r)
    obtain code err bs w1 o1 where "r = ((code, err, bs), w1, o1)" by (metis surj_pair)
    with Inr have call: "with_ssl lib (sl_read lib n) ?w = ok ((code, err, bs), w1, o1)" by simp
    from with_ssl_some [OF call] obtain s where s: "oa_ssl (fst w1) = Some s" by blast
    from assms(1) oa_Read_open [OF _ _ assms(3) call s] True
    have "err = SSL_ERROR_NONE \<and> \<not> (oa_mode (fst w1) = SSL_MODE_DTLS \<and> sl_pending lib s \<noteq> 0) \<and> w' = w1 \<and> out = o1"
      by (auto simp: res_bind_eq_ok split: if_splits option.splits)
    with True call s show ?thesis unfolding open_iff by simp
  qed
qed

lemma oa_Read_delivers:
  assumes "oa_state (fst w) \<noteq> SSL_NONE"
  shows "(\<exists>out. ad_Read (openssl_adapter lib identity) w = ok (SR_SUCCESS, w', out)) \<longleftrightarrow> delivers lib w w'"
proof
  assume "\<exists>out. ad_Read (openssl_adapter lib identity) w = ok (SR_SUCCESS, w', out)"
  then obtain x out where "oa_Read lib 2048 w = ok ((SR_SUCCESS, x), w', out)"
    by (auto simp: openssl_adapter_def res_bind_eq_ok)
  from oa_Read_success [OF this assms] show "delivers lib w w'" unfolding delivers_def by simp blast
next
  assume "delivers lib w w'"
  then show "\<exists>out. ad_Read (openssl_adapter lib identity) w = ok (SR_SUCCESS, w', out)"
    by (auto simp: delivers_def open_iff openssl_adapter_def oa_Read_def Let_def)
qed

lemma ReadFront_shrinks: "ReadFront n q = (Some bs, q') \<Longrightarrow> length (bq_queue q') < length (bq_queue q)"
  by (auto simp: ReadFront_def split: list.splits)

lemma pass_through_returns:
  "oa_state (fst w) = SSL_NONE \<Longrightarrow> \<exists>x. read_loop (ad_Read (openssl_adapter lib identity)) st w out = Some (ok x)"
proof (induction "length (bq_queue (ds_que (snd w)))" arbitrary: st w out rule: less_induct)
  case less
  obtain r bs ds' where r: "ds_Read 2048 (snd w) = (r, bs, ds')" by (metis surj_pair)
  with less.prems have rd: "ad_Read (openssl_adapter lib identity) w = ok (r, (fst w, ds'), [])"
    by (simp add: openssl_adapter_def oa_Read_def Let_def)
  show ?case
  proof (cases "r = SR_SUCCESS")
    case True
    with r have "length (bq_queue (ds_que ds')) < length (bq_queue (ds_que (snd w)))"
      by (auto simp: ds_Read_def split: if_splits prod.splits option.splits dest: ReadFront_shrinks)
    with less.hyps [of "(fst w, ds')"] less.prems True rd show ?thesis by (simp add: read_loop_step)
  next
    case False
    with rd show ?thesis by (subst read_loop.simps) (simp add: Let_def)
  qed
qed

lemma not_open_returns:
  assumes "oa_GetState (fst w) \<noteq> SS_OPEN"
  shows "\<exists>x. read_loop (ad_Read (openssl_adapter lib identity)) st w out = Some (ok x)"
proof (cases "oa_state (fst w) = SSL_NONE")
  case True
  then show ?thesis by (rule pass_through_returns)
next
  case False
  with assms obtain ret w' o1 where "ad_Read (openssl_adapter lib identity) w = ok (ret, w', o1)" "ret \<noteq> SR_SUCCESS"
    unfolding open_iff by (cases "oa_state (fst w)") (auto simp: openssl_adapter_def oa_Read_def Let_def)
  then show ?thesis by (subst read_loop.simps) (simp add: Let_def)
qed

lemma slot_not_open:
  "oa_GetState (fst w) \<noteq> SS_OPEN \<Longrightarrow> is_ok (slot_dtls_event (openssl_adapter lib identity) sig error st w)"
  by (rule slot_returns, rule not_open_returns)

lemma read_loop_forever_iff:
  "read_loop (ad_Read (openssl_adapter lib identity)) st w out = None \<longleftrightarrow>
     (\<exists>f. f 0 = w \<and> (\<forall>n. delivers lib (f n) (f (Suc n))))"
proof -
  let ?rd = "ad_Read (openssl_adapter lib identity)"
  have "reads_forever ?rd f \<longleftrightarrow> (\<forall>n. delivers lib (f n) (f (Suc n)))" for f
  proof
    assume f: "reads_forever ?rd f"
    show "\<forall>n. delivers lib (f n) (f (Suc n))"
    proof
      fix n
      have "read_loop ?rd st (f n) [] = None" by (rule read_loop_forever [OF f])
      with pass_through_returns [of "f n" lib identity st "[]"] have "oa_state (fst (f n)) \<noteq> SSL_NONE" by auto
      from oa_Read_delivers [OF this, of lib identity "f (Suc n)"] f show "delivers lib (f n) (f (Suc n))"
        unfolding reads_forever_def by blast
    qed
  next
    assume f: "\<forall>n. delivers lib (f n) (f (Suc n))"
    then have "oa_state (fst (f n)) \<noteq> SSL_NONE" for n by (metis delivers_def open_iff SSLState.distinct(5))
    with f oa_Read_delivers show "reads_forever ?rd f" by (metis reads_forever_def)
  qed
  then show ?thesis by (simp add: read_loop_None_iff)
qed

section \<open>Questions and failures\<close>

lemma questions_answered:
  assumes "ssl_state_ok oa"
  shows "is_ok (GetSslVersion lib oa)" "is_ok (GetSslVersionBytes lib oa)" "is_ok (GetSslCipherSuite lib oa)"
    "is_ok (oa_GetDtlsSrtpCryptoSuite lib oa)"
  using assms
  by (auto simp: ssl_state_ok_def GetSslVersion_def GetSslVersionBytes_def GetSslCipherSuite_def
      oa_GetDtlsSrtpCryptoSuite_def deref_def Let_def split: option.split)

lemma res_bind_eq_crash: "res_bind m f = crash fl \<longleftrightarrow> m = crash fl \<or> (\<exists>x. m = ok x \<and> f x = crash fl)"
  by (cases m) auto

lemma keys_no_null:
  assumes "dt_adapter d = Some oa" "ssl_state_ok oa"
  shows "extract_srtp_keys (openssl_adapter lib identity) d \<noteq> crash NullDeref"
proof (cases "oa_state oa = SSL_CONNECTED")
  case False
  with assms(1) show ?thesis by (simp add: extract_srtp_keys_def openssl_adapter_def oa_GetDtlsSrtpCryptoSuite_def)
next
  case True
  with assms obtain s where s: "oa_ssl oa = Some s" by (auto simp: ssl_state_ok_def)
  have sub: "substr xs i n \<noteq> crash NullDeref" "substr_from xs i \<noteq> crash NullDeref" for xs :: bytes and i n
    by (simp_all add: substr_def substr_from_def)
  show ?thesis using True s assms(1)
    by (auto simp: extract_srtp_keys_def openssl_adapter_def oa_GetDtlsSrtpCryptoSuite_def oa_ExportKeyingMaterial_def
        deref_def res_bind_eq_crash sub split: option.splits)
qed

lemma run_react_sends:
  "run_react (react_sends out r) ops st = res_bind (run_react r ops st) (\<lambda>(ret, st', w, o1). ok (ret, st', w, out @ o1))"
  unfolding react_sends_def
proof (induction out)
  case Nil
  then show ?case by (cases "run_react r ops st") auto
next
  case (Cons x out)
  then show ?case by (cases "run_react r ops st") (auto split: prod.splits)
qed

lemma oa_Error_dead:
  assumes "oa_Error lib err w = ok (w', out)"
  shows "oa_state (fst w') = SSL_ERROR" "oa_ssl (fst w') = None"
  using assms Cleanup_shuts [of lib "((fst w)\<lparr>oa_state := SSL_ERROR, oa_error_code := err\<rparr>, snd w)"]
  by (simp_all add: oa_Error_def shut_def)

lemma event_bits: "SE_READ AND SE_OPEN = 0" "(SE_READ AND (SE_READ OR SE_WRITE) = 0) = False" "SE_READ AND SE_CLOSE = 0"
  unfolding stream_events by simp_all

lemma OnEvent_fails:
  assumes "oa_state oa = SSL_CONNECTING" "oa_role oa = SSL_SERVER"
    and "with_ssl lib (sl_accept lib) (oa\<lparr>oa_timeout := None\<rparr>, ds) = ok ((code, err, bs), w1, out1)"
    and "fatal err" "oa_Error lib err w1 = ok (w2, out2)"
  shows "run_react (OnEvent lib SE_READ 0 (oa, ds)) ops st = ok (0, k_failed, w2, out1 @ out2)"
proof -
  have e: "err \<noteq> 0" using assms(4) by (auto simp: fatal_def ssl_errors)
  have "OnEvent lib SE_READ 0 (oa, ds) = react_sends out1 (Error_signal lib err w1)"
    using assms(1-4) e unfolding OnEvent_def OnEvent_data_def Let_def
    by (simp add: event_bits ContinueSSL_def react_bind_def fatal_def Let_def)
  also have "Error_signal lib err w1 = react_sends out2 (Signal SE_CLOSE err w2 (Done 0))"
    using assms(5) by (simp add: Error_signal_def react_bind_def)
  finally show ?thesis by (simp add: run_react_sends slot_close_error [OF e])
qed

section \<open>A run\<close>

text \<open>
  An engine that reads the hello, has one certificate verified and answers; a connection over it that
  expects this certificate, and what the first datagram makes of it.
\<close>

definition sample_hello :: bytes where
  "sample_hello = [22, 254, 253, 0, 0, 0, 0, 0, 0, 0, 0, 0, 5, 1, 0, 0, 0, 0]"

definition sample_cert :: bytes where "sample_cert = [3, 1, 4]"

definition sample_handshake :: "ssl_ctx \<times> nat \<Rightarrow> (ssl_ctx \<times> nat) ssl_call" where
  "sample_handshake s =
     (if snd s = 0
      then BioRead 2048 (\<lambda>r. if 0 < fst r
             then VerifyCert sample_cert (\<lambda>good. if good = 1
                    then BioWrite [22] (\<lambda>_. SslReturn 1 0 [] (fst s, 1)) else SslReturn (-1) 1 [] s)
             else SslReturn (-1) 2 [] s)
      else SslReturn 1 0 [] s)"

definition sample_engine :: "(ssl_ctx \<times> nat) ssl_lib" where
  "sample_engine =
     \<lparr>sl_evp = sample_evp, sl_CTX_new = (\<lambda>_. True), sl_use_certificate = (\<lambda>_. 1), sl_use_PrivateKey = (\<lambda>_. 1),
      sl_add1_chain_cert = (\<lambda>_. 1), sl_set_tlsext_use_srtp = (\<lambda>_. 0), sl_BIO_new = True,
      sl_SSL_new = (\<lambda>ctx. Some (ctx, 0)), sl_settings = fst,
      sl_connect = sample_handshake, sl_accept = sample_handshake, sl_read = (\<lambda>n s. SslReturn (-1) 2 [] s),
      sl_write = (\<lambda>bs s. SslReturn (int (length bs)) 0 [] s), sl_shutdown = SslReturn 1 0 [],
      sl_handle_timeout = SslReturn 0 0 [], sl_get_timeout = (\<lambda>_. Some (1, 0)), sl_pending = (\<lambda>_. 0),
      sl_version = (\<lambda>_. DTLS1_2_VERSION), sl_cipher_id = (\<lambda>_. None), sl_selected_srtp_profile = (\<lambda>_. Some 1),
      sl_export_keying_material = (\<lambda>_ n _. Some (replicate n 7))\<rparr>"

lemma sample_engine_law: "engine_law sample_engine (\<lambda>s. snd s \<noteq> 0)" "never_asks_eof sample_engine"
  by (auto simp: engine_law_def demands_cert_def never_asks_eof_def sample_engine_def sample_handshake_def fatal_def ssl_errors)

definition sample_identity :: OpenSSLIdentity where
  "sample_identity = \<lparr>id_cert_chain = [[2, 7]], id_key_pair = [1]\<rparr>"

definition sample_connection :: "(ssl_ctx \<times> nat) OpenSSLStreamAdapter RtcDtls option" where
  "sample_connection =
     dtls_start sample_engine sample_identity False (ip_address_of 5000 7) DIGEST_SHA_256 (evp_hash sample_evp EVP_sha256 sample_cert)"

lemma sample_suites: "GetSupportedDtlsSrtpCryptoSuites CryptoOptions_default = ok [1]" by code_simp

definition sample_oa :: "(ssl_ctx \<times> nat) OpenSSLStreamAdapter" where
  "sample_oa = (OpenSSLStreamAdapter_new False)
     \<lparr>oa_role := SSL_SERVER, oa_identity := Some sample_identity, oa_digest_value := replicate 32 6,
      oa_digest_alg := ''sha-256'', oa_srtp_ciphers := ''SRTP_AES128_CM_SHA1_80'', oa_mode := SSL_MODE_DTLS\<rparr>"

definition sample_ds :: DtlsStreamInterface where "sample_ds = DtlsStreamInterface_new (ip_address_of 5000 7)"

definition sample_d0 :: "(ssl_ctx \<times> nat) OpenSSLStreamAdapter RtcDtls" where
  "sample_d0 =
     \<lparr>dt_remote_alg = ''sha-256'', dt_state = k_new, dt_adapter = Some sample_oa, dt_downward = sample_ds,
      dt_srtp_ciphers = [1], dt_remote_fingerprint_value = replicate 32 6\<rparr>"

lemma sample_started: "sample_connection = Some sample_d0"
  by (simp add: sample_connection_def dtls_start_def RtcDtls_new_def sample_suites set_remote_dtls_def setup_dtls_def Let_def openssl_adapter_def
   SetServerRole_def SetMaxProtocolVersion_def SetMode_def SetIdentity_def OpenSSLStreamAdapter_new_def
   oa_SetPeerCertificateDigest_def sample_engine_def GetDigestSize_def GetDigestEVP_def digest_names
   oa_SetDtlsSrtpCryptoSuites_def kSrtpCipherMap_def suite_ids sample_evp_def sample_d0_def sample_oa_def sample_ds_def sample_cert_def)

definition sample_ctx :: ssl_ctx where
  "sample_ctx =
     \<lparr>ctx_mode = SSL_MODE_DTLS, ctx_min_version = DTLS1_2_VERSION, ctx_max_version = DTLS1_2_VERSION,
      ctx_identity = Some sample_identity, ctx_verify_mode = SSL_VERIFY_PEER OR SSL_VERIFY_FAIL_IF_NO_PEER_CERT,
      ctx_verify_callback = True, ctx_cipher_list = kCipherList, ctx_srtp = ''SRTP_AES128_CM_SHA1_80''\<rparr>"

definition sample_oa1 :: "(ssl_ctx \<times> nat) OpenSSLStreamAdapter" where
  "sample_oa1 = sample_oa\<lparr>oa_state := SSL_CONNECTING, oa_ssl := Some (sample_ctx, 0), oa_ssl_ctx := Some sample_ctx, oa_timeout := Some 1000\<rparr>"

lemma sample_read_empty: "ds_Read 2048 sample_ds = (SR_BLOCK, [], sample_ds)" by code_simp

lemma sample_open: "ds_GetState sample_ds = SS_OPEN" by code_simp

lemma sample_start_ssl: "StartSSL sample_engine (sample_oa, sample_ds) = Done 0 (sample_oa1, sample_ds)" 
  by (simp add: sample_ctx_def protocol_range_def StartSSL_def sample_open BeginSSL_def SetupSSLContext_def ConfigureIdentity_def sample_engine_def sample_oa_def OpenSSLStreamAdapter_new_def
  sample_oa1_def ContinueSSL_def sample_identity_def with_ssl_def deref_def sample_handshake_def stream_read_def sample_read_empty react_bind_def react_sends_def ssl_errors nth_res_def) 

definition sample_oa2 :: "(ssl_ctx \<times> nat) OpenSSLStreamAdapter" where
  "sample_oa2 = sample_oa1\<lparr>oa_state := SSL_CONNECTED, oa_ssl := Some (sample_ctx, 1), oa_timeout := None,
     oa_peer_cert_chain := Some [sample_cert], oa_verified := True\<rparr>"

definition sample_ds1 :: DtlsStreamInterface where
  "sample_ds1 = sample_ds\<lparr>ds_que := snd (WriteBack sample_hello (ds_que sample_ds))\<rparr>"

definition sample_ds2 :: DtlsStreamInterface where
  "sample_ds2 = snd (snd (ds_Read 2048 sample_ds1))"

lemma sample_queued: "WriteBack sample_hello (ds_que sample_ds) = (True, ds_que sample_ds1)"
proof -
  have "fst (WriteBack sample_hello (ds_que sample_ds))" by code_simp
  then show ?thesis by (cases "WriteBack sample_hello (ds_que sample_ds)") (simp add: sample_ds1_def)
qed

lemma sample_read_hello: "ds_Read 2048 sample_ds1 = (SR_SUCCESS, sample_hello, sample_ds2)"
proof -
  have "fst (ds_Read 2048 sample_ds1) = SR_SUCCESS" by code_simp
  moreover have "fst (snd (ds_Read 2048 sample_ds1)) = sample_hello" by code_simp
  ultimately show ?thesis by (cases "ds_Read 2048 sample_ds1") (simp add: sample_ds2_def)
qed

lemma sample_write: "ds_Write [22] sample_ds2 = (SR_SUCCESS, 1, [([22], ip_address_of 5000 7)])"
  by code_simp

lemma sample_verified: "SSLVerifyCallback sample_evp sample_cert (sample_oa1\<lparr>oa_timeout := None\<rparr>) =
  (1, sample_oa1\<lparr>oa_timeout := None, oa_peer_cert_chain := Some [sample_cert], oa_verified := True\<rparr>)"
  by (simp add: SSLVerifyCallback_def VerifyPeerCertificate_def Let_def sample_oa1_def sample_oa_def OpenSSLStreamAdapter_new_def
   HasPeerCertificateDigest_def cert_ComputeDigest_def GetDigestEVP_def digest_names sample_evp_def EVP_MAX_MD_SIZE_def sample_cert_def)

lemma sample_blocked: "ad_Read (openssl_adapter sample_engine sample_identity) (sample_oa2, sample_ds2) = ok (SR_BLOCK, (sample_oa2, sample_ds2), [])"
  by (simp add: openssl_adapter_def oa_Read_def sample_oa2_def sample_oa1_def sample_oa_def OpenSSLStreamAdapter_new_def WaitingToVerifyPeerCertificate_def
    with_ssl_def deref_def sample_engine_def ssl_errors)

lemma sample_slot: "slot_dtls_event (openssl_adapter sample_engine sample_identity) (SE_OPEN OR SE_READ OR SE_WRITE) 0 k_connecting (sample_oa2, sample_ds2) =
   ok (k_connected, (sample_oa2, sample_ds2), [])"
  unfolding slot_dtls_event_def Let_def stream_events by (subst read_loop.simps) (simp add: sample_blocked)

lemma sample_oa1_fields: "oa_state sample_oa1 = SSL_CONNECTING" "oa_role sample_oa1 = SSL_SERVER" "oa_ssl sample_oa1 = Some (sample_ctx, 0)"
  by (simp_all add: sample_oa1_def sample_oa_def OpenSSLStreamAdapter_new_def)

lemma sample_engine_fields: "sl_accept sample_engine = sample_handshake" "sl_evp sample_engine = sample_evp"
  by (simp_all add: sample_engine_def)

lemma sample_stream_read: "stream_read 2048 sample_ds1 = ((18, sample_hello), sample_ds2)"
  unfolding stream_read_def sample_read_hello by (simp add: sample_hello_def)

lemma sample_call: "with_ssl sample_engine sample_handshake (sample_oa1\<lparr>oa_timeout := None\<rparr>, sample_ds1) =
  ok ((1, 0, []), (sample_oa1\<lparr>oa_timeout := None, oa_peer_cert_chain := Some [sample_cert], oa_verified := True, oa_ssl := Some (sample_ctx, 1)\<rparr>, sample_ds2), [([22], ip_address_of 5000 7)])"
  by (simp add: with_ssl_def deref_def sample_oa1_fields sample_handshake_def sample_stream_read sample_verified sample_engine_fields stream_write_def sample_write)

lemma sample_event: "OnEvent sample_engine SE_READ 0 (sample_oa1, sample_ds1) =
   Send [22] (ip_address_of 5000 7) (Signal (SE_OPEN OR SE_READ OR SE_WRITE) 0 (sample_oa2, sample_ds2)
      (\<lambda>w. OnEvent_close sample_engine SE_READ 0 0 w))"
  unfolding OnEvent_def OnEvent_data_def Let_def
  by (simp add: event_bits sample_oa1_fields ContinueSSL_def sample_engine_fields sample_call react_bind_def react_sends_def SSL_ERROR_NONE_def WaitingToVerifyPeerCertificate_def sample_oa2_def)

lemma OnEvent_close_read: "OnEvent_close lib SE_READ 0 0 w = Done 0 w" by (simp add: OnEvent_close_def event_bits raise_events_def)

lemma sample_hello_ok: "record_loop sample_hello" "is_dtls_client_hello_packet sample_hello"
  using record_loop_concat [of "[sample_hello]"] by (simp_all add: dtls_record_def sample_hello_def is_dtls_client_hello_packet_def is_dtls_def)

abbreviation sample_ops :: "(ssl_ctx \<times> nat) OpenSSLStreamAdapter adapter" where
  "sample_ops \<equiv> openssl_adapter sample_engine sample_identity"

definition sample_d1 :: "(ssl_ctx \<times> nat) OpenSSLStreamAdapter RtcDtls" where
  "sample_d1 = sample_d0\<lparr>dt_state := k_connected, dt_adapter := Some sample_oa2, dt_downward := sample_ds2\<rparr>"

lemma sample_ops_fields: "ad_StartSSL sample_ops = StartSSL sample_engine" "ad_OnReadable sample_ops = OnEvent sample_engine SE_READ 0"
  by (simp_all add: openssl_adapter_def)

lemma sample_d0_fields: "dt_state sample_d0 = k_new" "dt_adapter sample_d0 = Some sample_oa" "dt_downward sample_d0 = sample_ds"
  by (simp_all add: sample_d0_def)

lemma sample_ds_fields: "ds_is_stop sample_ds = False" "sample_ds\<lparr>ds_que := ds_que sample_ds1\<rparr> = sample_ds1"
  by (simp_all add: sample_ds_def DtlsStreamInterface_new_def sample_ds1_def)

lemma sample_reaction: "run_react (OnEvent sample_engine SE_READ 0 (sample_oa1, sample_ds1)) sample_ops k_connecting =
   ok (0, k_connected, (sample_oa2, sample_ds2), [([22], ip_address_of 5000 7)])"
  by (simp add: sample_event sample_slot OnEvent_close_read)

lemma sample_handled: "handle_dtls sample_ops sample_hello sample_d0 = ok (sample_d1, [([22], ip_address_of 5000 7)])"
proof -
  let ?d = "sample_d0\<lparr>dt_state := k_connecting, dt_adapter := Some sample_oa1, dt_downward := sample_ds\<rparr>"
  have "do_handle_dtls_packet sample_ops sample_hello sample_oa1 ?d = ok (True, ?d\<lparr>dt_state := k_connected, dt_adapter := Some sample_oa2, dt_downward := sample_ds2\<rparr>,
    [([22], ip_address_of 5000 7)])"
    by (simp add: do_handle_dtls_packet_def on_packet_receive_def sample_hello_ok sample_ds_fields sample_queued sample_ops_fields sample_reaction)
  then show ?thesis unfolding handle_dtls_def
    by (simp add: sample_d0_fields sample_ops_fields sample_start_ssl sample_hello_ok deref_def sample_d1_def)
qed

lemma sample_keys: "extract_srtp_keys sample_ops sample_d1 = ok (Some (1, replicate 30 7, replicate 30 7))"
  by (simp add: extract_srtp_keys_def sample_d1_def openssl_adapter_def oa_GetDtlsSrtpCryptoSuite_def oa_ExportKeyingMaterial_def
    sample_oa2_def sample_oa1_def deref_def sample_engine_def GetSrtpKeyAndSaltLengths_def suite_ids substr_def substr_from_def replicate_add [symmetric])

text \<open>The same connection, expecting another certificate.\<close>

definition sample_impostor :: "(ssl_ctx \<times> nat) OpenSSLStreamAdapter RtcDtls" where
  "sample_impostor =
     sample_d0\<lparr>dt_state := k_connecting, dt_adapter := Some (sample_oa1\<lparr>oa_digest_value := replicate 32 5\<rparr>)\<rparr>"

lemma sample_mismatch: "SSLVerifyCallback sample_evp sample_cert (sample_oa1\<lparr>oa_digest_value := replicate 32 5, oa_timeout := None\<rparr>) =
  (0, sample_oa1\<lparr>oa_digest_value := replicate 32 5, oa_timeout := None, oa_peer_cert_chain := Some [sample_cert]\<rparr>)"
  by (simp add: SSLVerifyCallback_def VerifyPeerCertificate_def Let_def sample_oa1_def sample_oa_def OpenSSLStreamAdapter_new_def
   HasPeerCertificateDigest_def cert_ComputeDigest_def GetDigestEVP_def digest_names sample_evp_def EVP_MAX_MD_SIZE_def sample_cert_def)

definition sample_refused_oa :: "(ssl_ctx \<times> nat) OpenSSLStreamAdapter" where
  "sample_refused_oa = sample_oa1\<lparr>oa_digest_value := replicate 32 5, oa_timeout := None,
     oa_peer_cert_chain := Some [sample_cert], oa_ssl := Some (sample_ctx, 0)\<rparr>"

lemma sample_refused: "with_ssl sample_engine (sl_accept sample_engine)
    (sample_oa1\<lparr>oa_digest_value := replicate 32 5, oa_timeout := None\<rparr>, sample_ds1) =
  ok ((-1, 1, []), (sample_refused_oa, sample_ds2), [])"
  by (simp add: with_ssl_def deref_def sample_oa1_fields sample_handshake_def sample_stream_read sample_mismatch sample_engine_fields
    sample_refused_oa_def)

lemma sample_refused_closes: "\<exists>w2. oa_Error sample_engine 1 (sample_refused_oa, sample_ds2) = ok (w2, [])"
  by (simp add: oa_Error_def Cleanup_def Let_def with_ssl_def deref_def sample_refused_oa_def sample_engine_def)

section \<open>Properties\<close>

text \<open>
  C2: SRTP keys are only handed out for the peer of the signaled description: after a set-up with the
  fingerprint of the offer and any sequence of datagrams, if \<^verbatim>\<open>extract_srtp_keys\<close> returns keys, then the
  certificate the peer has presented in the handshake has exactly that digest. The premise on OpenSSL
  is \<open>engine_law\<close>, which only speaks of connections that demand a certificate; that the settings of
  \<^verbatim>\<open>SetupSSLContext\<close> make every connection of the adapter one of these is part of the proof.
\<close>
theorem keys_only_for_expected_peer:
  assumes "engine_law lib authed" "id_cert_chain identity \<noteq> []"
    and "dtls_start lib identity legacy addr alg fingerprint = Some d0" "(dtls_step lib identity)\<^sup>*\<^sup>* d0 d"
    and "extract_srtp_keys (openssl_adapter lib identity) d = ok (Some keys)"
  shows "\<exists>oa cert rest. dt_adapter d = Some oa \<and> GetPeerSSLCertChain oa = Some (cert # rest) \<and>
    cert_ComputeDigest (sl_evp lib) alg EVP_MAX_MD_SIZE cert = Some fingerprint"
  using exported_keys_verified [OF dtls_steps_inv [OF assms(4,1)] _ assms(5)] dtls_start_inv [OF assms(3,2)]
  by (fastforce simp: cert_matches_def GetPeerSSLCertChain_def)

lemma keys_only_for_expected_peer_witness:
  "\<exists>oa cert rest. dt_adapter sample_d1 = Some oa \<and> GetPeerSSLCertChain oa = Some (cert # rest) \<and>
    cert_ComputeDigest (sl_evp sample_engine) DIGEST_SHA_256 EVP_MAX_MD_SIZE cert = Some (evp_hash sample_evp EVP_sha256 sample_cert)"
  by (rule keys_only_for_expected_peer [OF sample_engine_law(1) _ sample_started [unfolded sample_connection_def]
        r_into_rtranclp [of "dtls_step sample_engine sample_identity", OF dtls_step.datagram [OF sample_handled]] sample_keys])
    (simp add: sample_identity_def)

text \<open>
  C12: The adapter itself dereferences no null pointer. After any sequence of datagrams the \<^verbatim>\<open>SSL\<close>
  object exists exactly while the handshake runs or is done, so the questions of the connection and
  the extraction of its keys find it; and when the next datagram crashes the server, that is an endless
  read or the answer to an engine that asks the BIO for its end, the null dereference of
  \<open>bio_eof_dereferences_null\<close>. No index, string operation or stale pointer fails for any engine.
\<close>
theorem dtls_connection_faults_by_engine_only:
  assumes "engine_law lib authed" "id_cert_chain identity \<noteq> []"
    and "dtls_start lib identity legacy addr alg fingerprint = Some d0" "(dtls_step lib identity)\<^sup>*\<^sup>* d0 d"
  shows "(\<forall>fl. handle_dtls (openssl_adapter lib identity) data d = crash fl \<longrightarrow>
            fl = Diverges \<or> fl = NullDeref \<and> \<not> never_asks_eof lib) \<and>
    extract_srtp_keys (openssl_adapter lib identity) d \<noteq> crash NullDeref \<and>
    (\<exists>oa. dt_adapter d = Some oa \<and> ssl_state_ok oa \<and> is_ok (GetSslVersion lib oa) \<and>
       is_ok (GetSslVersionBytes lib oa) \<and> is_ok (GetSslCipherSuite lib oa) \<and> is_ok (oa_GetDtlsSrtpCryptoSuite lib oa))"
proof -
  have inv: "dtls_inv lib authed alg fingerprint d"
    using dtls_steps_inv [OF assms(4,1)] dtls_start_inv [OF assms(3,2)] by blast
  then obtain oa where oa: "dt_adapter d = Some oa" "ssl_state_ok oa" by (auto simp: dtls_inv_def adapter_inv_def)
  with handle_dtls_all [OF assms(1) inv, of identity data] questions_answered [OF oa(2)] keys_no_null [OF oa]
  show ?thesis by (auto simp: res_all_def fault_ok_def)
qed

lemma dtls_connection_faults_by_engine_only_witness:
  "handle_dtls sample_ops [22] sample_d1 \<noteq> crash NullDeref \<and> handle_dtls sample_ops [22] sample_d1 \<noteq> crash OutOfBounds \<and>
    (\<exists>oa. dt_adapter sample_d1 = Some oa \<and> ssl_state_ok oa \<and> is_ok (GetSslVersion sample_engine oa))"
proof -
  note run = dtls_connection_faults_by_engine_only [OF sample_engine_law(1) _ sample_started [unfolded sample_connection_def]
        r_into_rtranclp [of "dtls_step sample_engine sample_identity", OF dtls_step.datagram [OF sample_handled]], of "[22]"]
  from run sample_engine_law(2) show ?thesis by (auto simp: sample_identity_def)
qed


text \<open>
  C38: A failed handshake is reported as established. When the engine rejects the handshake of a
  connecting server while it handles the ClientHello, the adapter closes itself with that error and
  the slot sets the state to failed, but \<^verbatim>\<open>handle_dtls\<close> overwrites it with connected. The \<^verbatim>\<open>SSL\<close> object is
  gone, and extracting the keys next, as \<^verbatim>\<open>RoomMember\<close> does for a connected endpoint, uses an
  uninitialised suite.
\<close>
theorem client_hello_masks_failure:
  assumes "dt_adapter d = Some oa" "dt_state d = k_connecting" "\<not> ds_is_stop (dt_downward d)"
    and "oa_state oa = SSL_CONNECTING" "oa_role oa = SSL_SERVER"
    and "is_dtls_client_hello_packet data" "record_loop data"
    and "WriteBack data (ds_que (dt_downward d)) = (True, q)"
    and "with_ssl lib (sl_accept lib) (oa\<lparr>oa_timeout := None\<rparr>, (dt_downward d)\<lparr>ds_que := q\<rparr>) = ok ((code, err, bs), w1, out1)"
    and "fatal err" "oa_Error lib err w1 = ok (w2, out2)"
  shows "\<exists>d' oa'. handle_dtls (openssl_adapter lib identity) data d = ok (d', out1 @ out2) \<and>
    dt_state d' = k_connected \<and> dt_adapter d' = Some oa' \<and> oa_state oa' = SSL_ERROR \<and> oa_ssl oa' = None \<and>
    extract_srtp_keys (openssl_adapter lib identity) d' = crash Uninitialised"
proof -
  let ?d = "d\<lparr>dt_state := k_failed, dt_adapter := Some (fst w2), dt_downward := snd w2\<rparr>"
  have dead: "oa_state (fst w2) = SSL_ERROR" "oa_ssl (fst w2) = None" by (rule oa_Error_dead [OF assms(11)])+
  have "run_react (OnEvent lib SE_READ 0 (oa, (dt_downward d)\<lparr>ds_que := q\<rparr>)) (openssl_adapter lib identity) k_connecting =
      ok (0, k_failed, w2, out1 @ out2)"
    by (rule OnEvent_fails [OF assms(4,5,9,10,11)])
  then have "on_packet_receive (openssl_adapter lib identity) data oa d = ok (True, ?d, out1 @ out2)"
    by (simp add: on_packet_receive_def openssl_adapter_def assms)
  from handle_hello [OF assms(1,2,6,7) this] dead show ?thesis
    by (simp add: extract_srtp_keys_def openssl_adapter_def oa_GetDtlsSrtpCryptoSuite_def)
qed

lemma client_hello_masks_failure_witness:
  "\<exists>d' oa'. handle_dtls sample_ops sample_hello sample_impostor = ok (d', []) \<and> dt_state d' = k_connected \<and>
     dt_adapter d' = Some oa' \<and> oa_state oa' = SSL_ERROR"
proof -
  obtain w2 where w2: "oa_Error sample_engine 1 (sample_refused_oa, sample_ds2) = ok (w2, [])" using sample_refused_closes ..
  have d: "dt_adapter sample_impostor = Some (sample_oa1\<lparr>oa_digest_value := replicate 32 5\<rparr>)"
    "dt_state sample_impostor = k_connecting" "dt_downward sample_impostor = sample_ds"
    by (simp_all add: sample_impostor_def sample_d0_fields)
  have "\<exists>d' oa'. handle_dtls sample_ops sample_hello sample_impostor = ok (d', [] @ []) \<and> dt_state d' = k_connected \<and>
      dt_adapter d' = Some oa' \<and> oa_state oa' = SSL_ERROR \<and> oa_ssl oa' = None \<and>
      extract_srtp_keys sample_ops d' = crash Uninitialised"
    by (rule client_hello_masks_failure [OF d(1,2), where q = "ds_que sample_ds1" and code = "-1" and err = 1 and bs = "[]" and
          ?w1.0 = "(sample_refused_oa, sample_ds2)" and ?w2.0 = w2])
      (simp_all add: d sample_ds_fields sample_oa1_fields sample_hello_ok sample_queued sample_refused w2 fatal_def ssl_errors)
  then show ?thesis by auto
qed

text \<open>
  An engine that asks the BIO whether it is at its end crashes the process: the control function
  takes the stream from its argument, which is null for that question.
\<close>
theorem bio_eof_dereferences_null:
  assumes "oa_ssl oa = Some s" "oa_state oa = SSL_CONNECTED" "\<not> WaitingToVerifyPeerCertificate oa" "0 < n"
    and "sl_read lib n s = BioCtrl BIO_CTRL_EOF k"
  shows "oa_Read lib n (oa, ds) = crash NullDeref"
  using assms by (simp add: oa_Read_def with_ssl_def deref_def stream_ctrl_def)

lemma bio_eof_dereferences_null_witness:
  "oa_Read (sample_engine\<lparr>sl_read := \<lambda>n s. BioCtrl BIO_CTRL_EOF (\<lambda>_. SslReturn (-1) 2 [] s)\<rparr>) 2048 (sample_oa2, sample_ds2)
     = crash NullDeref"
  by (rule bio_eof_dereferences_null)
    (simp_all add: sample_oa2_def sample_oa1_def sample_oa_def OpenSSLStreamAdapter_new_def WaitingToVerifyPeerCertificate_def)

end
