(* ===== verification/Members.thy ===== *)
theory Members
  imports Srtp RtpRtcp PortMgr Sdp SslStream
begin

text \<open>
  \<^verbatim>\<open>udp/ice_connection.{h,cpp}\<close>, \<^verbatim>\<open>udp/udp_receiver.{h,cpp}\<close> and \<^verbatim>\<open>signaling/room_member.{h,cpp}\<close>: one member
  of a room, its socket and, for each remote address that sends to it, the ICE connection, the DTLS
  connection and the SRTP transport. \<open>on_udp_receive\<close> takes each datagram to the right one of them.

  What is not under \<^verbatim>\<open>src\<close> is the parameter \<open>env\<close>: OpenSSL's digests, the DTLS adapter, libsrtp, the
  order of an \<^verbatim>\<open>unordered_map\<close>, \<^verbatim>\<open>uvcore::IpAddress\<close>, binding a socket and allocating a transport. The
  inner buffer of a socket is the datagram received last; \<open>en_after_reset\<close> is what can be read at its read
  pointer after \<^verbatim>\<open>reset()\<close>. An operation on a datagram returns whether the buffer has been reset.
\<close>

record ('a, 'c) env =
  en_evp :: evp
  en_ops :: "'a adapter"
  en_adapter :: 'a
  en_lib :: "'c srtp_lib"
  en_iter :: "(string \<times> nat) list \<Rightarrow> (string \<times> nat) list"
  en_after_reset :: "bytes \<Rightarrow> bytes"
  en_alloc :: "'c srtp_world \<Rightarrow> nat"
  en_bind :: "IpAddress \<Rightarrow> 'c srtp_world \<Rightarrow> nat option"
  en_default_addr :: IpAddress
  en_parse_addr :: "IpAddress \<Rightarrow> IpAddress"
  en_getPort :: "IpAddress \<Rightarrow> int"

section \<open>IceConnection\<close>

record IceConnection =
  ic_remote_addr :: IpAddress
  ic_local_addr :: IpAddress
  ic_id :: string
  ic_ice_pwd :: string

definition IceConnection_new :: "IpAddress \<Rightarrow> IpAddress \<Rightarrow> IceConnection" where
  "IceConnection_new remote local =
     \<lparr>ic_remote_addr = remote, ic_local_addr = local, ic_id = ip_text remote, ic_ice_pwd = []\<rparr>"

definition set_ice_pwd :: "string \<Rightarrow> IceConnection \<Rightarrow> IceConnection" where
  "set_ice_pwd pwd ic = ic\<lparr>ic_ice_pwd := pwd\<rparr>"

definition get_ic_id :: "IceConnection \<Rightarrow> string" where
  "get_ic_id ic = ic_id ic"

text \<open>The class and method of the new packet are never read.\<close>

definition send_binding_response :: "evp \<Rightarrow> StunPacket option \<Rightarrow> IceConnection \<Rightarrow> sends res" where
  "send_binding_response e sp ic =
     res_bind (deref sp) (\<lambda>p.
       let retsp = \<lparr>hdr = \<lparr>msg_type = STUN_BINDING_RESPONSE, hdr_prefix = 0, msg_len = 0,
                           msg_cookie = k_stun_magic_cookie, trans_id = trans_id (hdr p)\<rparr>,
                    cls = 0, stun_method = 0, attris = []\<rparr>;
           attr = StunAttributeXorAddress STUN_XOR_MAPPED_ADDRESS 8 (ic_remote_addr ic) 0x01
       in res_bind (serialize_bind_response e (add_attribute attr retsp) (ic_ice_pwd ic) ByteBufferWriter) (\<lambda>writer.
          res_bind (wr_read (buf_size writer) writer) (\<lambda>bs. ok [(bs, ic_remote_addr ic)])))"

definition on_udp_data :: "evp \<Rightarrow> bytes \<Rightarrow> IceConnection \<Rightarrow> (sends \<times> bool) res" where
  "on_udp_data e data ic =
     (if \<not> is_stun data then ok ([], False)
      else
        res_bind (parse data) (\<lambda>sp.
        res_bind (send_binding_response e sp ic) (\<lambda>out. ok (out, True))))"

section \<open>UdpReceiver\<close>

text \<open>
  \<open>ur_data_cb\<close> tells whether a callback is set, \<open>ur_has_server\<close> whether the server pointer is set,
  \<open>ur_udp\<close> is the socket. Closing one closes it for every transport that still points at it: the
  callback deletes it.
\<close>

record UdpReceiver =
  ur_addr :: IpAddress
  ur_data_cb :: bool
  ur_has_server :: bool
  ur_udp :: "nat option"

definition UdpReceiver_new :: "IpAddress \<Rightarrow> bool \<Rightarrow> UdpReceiver" where
  "UdpReceiver_new addr server = \<lparr>ur_addr = addr, ur_data_cb = False, ur_has_server = server, ur_udp = None\<rparr>"

definition set_data_cb :: "UdpReceiver \<Rightarrow> UdpReceiver" where
  "set_data_cb ur = ur\<lparr>ur_data_cb := True\<rparr>"

definition ur_start :: "('a, 'c) env \<Rightarrow> UdpReceiver \<Rightarrow> 'c srtp_world \<Rightarrow> UdpReceiver \<times> 'c srtp_world" where
  "ur_start env ur w =
     (if \<not> ur_has_server ur then (ur, w)
      else
        (case en_bind env (ur_addr ur) w of
           None \<Rightarrow> (ur\<lparr>ur_udp := None\<rparr>, w)
         | Some u \<Rightarrow> (ur\<lparr>ur_udp := Some u\<rparr>, w\<lparr>udp_open := (udp_open w)(u := True)\<rparr>)))"

definition ur_stop :: "UdpReceiver \<Rightarrow> 'c srtp_world \<Rightarrow> 'c srtp_world res" where
  "ur_stop ur w = res_bind (deref (ur_udp ur)) (\<lambda>u. ok (w\<lparr>udp_open := (udp_open w)(u := False)\<rparr>))"

text \<open>The receiver's own callback: the datagram is handed on with its source address, if there is one.\<close>

definition ur_on_udp_receive ::
  "(nat \<Rightarrow> IpAddress \<Rightarrow> 's \<Rightarrow> 's res) \<Rightarrow> ('addr \<Rightarrow> IpAddress) \<Rightarrow> nat option \<Rightarrow> 'addr option \<Rightarrow> UdpReceiver \<Rightarrow> 's \<Rightarrow> 's res" where
  "ur_on_udp_receive cb fromRawSocketAddress udp addr ur s =
     (case (udp, addr) of
        (Some u, Some a) \<Rightarrow> if ur_data_cb ur then cb u (fromRawSocketAddress a) s else ok s
      | _ \<Rightarrow> ok s)"

section \<open>RoomMember\<close>

record 'a MemberUdpPorts =
  up_ice_connection :: "IceConnection option"
  up_dtls_connection :: "'a RtcDtls option"
  up_srtp :: "nat option"

definition MemberUdpPorts_new :: "'a MemberUdpPorts" where
  "MemberUdpPorts_new = \<lparr>up_ice_connection = None, up_dtls_connection = None, up_srtp = None\<rparr>"

record 'a RoomMember =
  rm_uid :: string
  rm_offer_sdp :: "SessionDescription option"
  rm_answer_sdp :: "SessionDescription option"
  rm_udp_receiver :: "UdpReceiver option"
  rm_udp_handles :: "(string \<times> 'a MemberUdpPorts) list"
  rm_addr :: IpAddress

definition start_recv ::
  "('a, 'c) env \<Rightarrow> bool \<Rightarrow> IpAddress \<Rightarrow> 'a RoomMember \<Rightarrow> 'c srtp_world \<Rightarrow> 'a RoomMember \<times> 'c srtp_world" where
  "start_recv env server addr rm w =
     (case ur_start env (set_data_cb (UdpReceiver_new addr server)) w of
        (ur, w') \<Rightarrow> (rm\<lparr>rm_addr := en_parse_addr env addr, rm_udp_receiver := Some ur\<rparr>, w'))"

definition RoomMember_new :: "('a, 'c) env \<Rightarrow> string \<Rightarrow> 'a RoomMember" where
  "RoomMember_new env uid =
     \<lparr>rm_uid = uid, rm_offer_sdp = Some SessionDescription_new, rm_answer_sdp = None, rm_udp_receiver = None,
      rm_udp_handles = [], rm_addr = en_default_addr env\<rparr>"

definition stop_recv ::
  "('a, 'c) env \<Rightarrow> 'a RoomMember \<Rightarrow> UdpPortManager \<Rightarrow> 'c srtp_world \<Rightarrow> ('a RoomMember \<times> UdpPortManager \<times> 'c srtp_world) res" where
  "stop_recv env rm pm w =
     (case rm_udp_receiver rm of
        None \<Rightarrow> ok (rm, pm, w)
      | Some ur \<Rightarrow>
          res_bind (ur_stop ur w) (\<lambda>w'.
          res_bind (recycle_port (word_of_int (en_getPort env (rm_addr rm))) pm) (\<lambda>pm'.
            ok (rm\<lparr>rm_udp_receiver := None\<rparr>, pm', w'))))"

definition destory :: "'a RoomMember \<Rightarrow> RtcStreamMgr \<Rightarrow> 'c srtp_world \<Rightarrow> ('a RoomMember \<times> RtcStreamMgr \<times> 'c srtp_world) res" where
  "destory rm m w =
     res_bind (sm_remove_subscriber (rm_uid rm) m w) (\<lambda>(m', w').
       ok (rm\<lparr>rm_udp_handles :=
                map (\<lambda>(k, up). (k, up\<lparr>up_dtls_connection := map_option dt_destory (up_dtls_connection up)\<rparr>)) (rm_udp_handles rm)\<rparr>,
           m', w'))"
text \<open>
  The three branches of \<^verbatim>\<open>on_udp_receive\<close> on the state of one remote address, \<open>up\<close>. The result of the
  first is the new state, what is sent, and whether the buffer was reset.
\<close>

definition receive_stun ::
  "('a, 'c) env \<Rightarrow> IpAddress \<Rightarrow> bytes \<Rightarrow> 'a RoomMember \<Rightarrow> 'a MemberUdpPorts \<Rightarrow> ('a MemberUdpPorts \<times> sends \<times> bool) res" where
  "receive_stun env addr data rm up =
     (case up_ice_connection up of
        Some ic \<Rightarrow> res_bind (on_udp_data (en_evp env) data ic) (\<lambda>(out, consumed). ok (up, out, consumed))
      | None \<Rightarrow>
          res_bind (parse data) (\<lambda>sp.
          res_bind (deref (rm_answer_sdp rm)) (\<lambda>answer.
          res_bind
            (case sd_media_contents answer of
               [] \<Rightarrow> ok True
             | c # _ \<Rightarrow>
                 res_bind (deref sp) (\<lambda>p.
                 res_bind (validate (en_evp env) (mc_ice c) p (en_after_reset env data)) (\<lambda>(flag, _). ok flag)))
            (\<lambda>flag.
               if flag then
                 res_bind (nth_res (sd_media_contents answer) 0) (\<lambda>c.
                   let ic = set_ice_pwd (passwd (mc_ice c)) (IceConnection_new addr (rm_addr rm))
                   in res_bind (send_binding_response (en_evp env) sp ic) (\<lambda>out.
                        ok (up\<lparr>up_ice_connection := Some ic\<rparr>, out, True)))
               else ok (up, [], True)))))"

text \<open>The transport of an address, made when its first media packet arrives; \<open>None\<close> without keys.\<close>

definition media_transport ::
  "('a, 'c) env \<Rightarrow> nat \<Rightarrow> IpAddress \<Rightarrow> 'a RtcDtls \<Rightarrow> 'a MemberUdpPorts \<Rightarrow> 'c srtp_world \<Rightarrow> (nat option \<times> 'a MemberUdpPorts \<times> 'c srtp_world) res" where
  "media_transport env udp addr d up w =
     (case up_srtp up of
        Some t \<Rightarrow> ok (Some t, up, w)
      | None \<Rightarrow>
          let t = en_alloc env w; w1 = put_tr t (SrtpTransport_new udp addr) w; up1 = up\<lparr>up_srtp := Some t\<rparr>
          in res_bind (extract_srtp_keys (en_ops env) d) (\<lambda>keys.
               case keys of
                 None \<Rightarrow> ok (None, up1, w1)
               | Some (cs, send_key, recv_key) \<Rightarrow>
                   res_bind (set_srtp_param (en_lib env) t cs send_key cs recv_key w1) (\<lambda>(_, w2). ok (Some t, up1, w2))))"

definition receive_media ::
  "('a, 'c) env \<Rightarrow> nat \<Rightarrow> IpAddress \<Rightarrow> bytes \<Rightarrow> string \<Rightarrow> 'a MemberUdpPorts \<Rightarrow> RtcStreamMgr \<Rightarrow> 'c srtp_world \<Rightarrow>
   ('a MemberUdpPorts \<times> RtcStreamMgr \<times> 'c srtp_world \<times> sends) res" where
  "receive_media env udp addr data uid up m w =
     (case up_dtls_connection up of
        None \<Rightarrow> ok (up, m, w, [])
      | Some d \<Rightarrow>
          res_bind (media_transport env udp addr d up w) (\<lambda>(srtp, up1, w1).
            case srtp of
              None \<Rightarrow> ok (up1, m, w1, [])
            | Some t \<Rightarrow>
                res_bind (add_stream uid t m w1) (\<lambda>(m', w2).
                res_bind (if is_rtcp data then handle_rtcp_data (en_lib env) (en_iter env) data t w2
                          else handle_rtp_data (en_lib env) (en_iter env) data t w2) (\<lambda>(w3, out).
                  ok (up1, m', w3, out)))))"

definition new_dtls ::
  "('a, 'c) env \<Rightarrow> IpAddress \<Rightarrow> 'a RoomMember \<Rightarrow> 'a MemberUdpPorts \<Rightarrow> 'a MemberUdpPorts res" where
  "new_dtls env addr rm up =
     res_bind (deref (rm_offer_sdp rm)) (\<lambda>offer.
     res_bind (nth_res (sd_media_contents offer) 0) (\<lambda>c.
     res_bind (deref (mc_dtls c)) (\<lambda>dp.
       case dp_identity_fp dp of
         None \<Rightarrow> ok up
       | Some fpr \<Rightarrow>
           res_bind (RtcDtls_new (en_adapter env) addr) (\<lambda>d.
             case setup_dtls (en_ops env) (set_remote_dtls (fp_algorithm fpr) (fp_digest fpr) d) of
               (flag, d') \<Rightarrow> ok (if flag then up\<lparr>up_dtls_connection := Some d'\<rparr> else up)))))"

definition receive_dtls ::
  "('a, 'c) env \<Rightarrow> IpAddress \<Rightarrow> bytes \<Rightarrow> 'a RoomMember \<Rightarrow> 'a MemberUdpPorts \<Rightarrow> ('a MemberUdpPorts \<times> sends) res" where
  "receive_dtls env addr data rm up =
     res_bind (if up_dtls_connection up = None then new_dtls env addr rm up else ok up) (\<lambda>up1.
       case up_dtls_connection up1 of
         None \<Rightarrow> ok (up1, [])
       | Some d \<Rightarrow> res_bind (handle_dtls (en_ops env) data d) (\<lambda>(d', out). ok (up1\<lparr>up_dtls_connection := Some d'\<rparr>, out)))"

definition on_udp_receive ::
  "('a, 'c) env \<Rightarrow> nat \<Rightarrow> bytes \<Rightarrow> IpAddress \<Rightarrow> 'a RoomMember \<times> RtcStreamMgr \<times> 'c srtp_world \<Rightarrow>
   (('a RoomMember \<times> RtcStreamMgr \<times> 'c srtp_world) \<times> sends \<times> bool) res" where
  "on_udp_receive env udp data addr st =
     (case st of (rm, m, w) \<Rightarrow>
        let up = (case map_of (rm_udp_handles rm) (ip_text addr) of None \<Rightarrow> MemberUdpPorts_new | Some up \<Rightarrow> up);
            put = (\<lambda>up. rm\<lparr>rm_udp_handles := AList.update (ip_text addr) up (rm_udp_handles rm)\<rparr>)
        in if is_stun data then
             res_bind (receive_stun env addr data rm up) (\<lambda>(up', out, consumed). ok ((put up', m, w), out, consumed))
           else if is_rtcp data \<or> is_rtp data then
             res_bind (receive_media env udp addr data (rm_uid rm) up m w) (\<lambda>(up', m', w', out). ok ((put up', m', w'), out, True))
           else if is_dtls data then
             res_bind (receive_dtls env addr data rm up) (\<lambda>(up', out). ok ((put up', m, w), out, True))
           else ok ((put up, m, w), [], True))"

section \<open>Lemmas\<close>

lemma protocols_exclusive:
  "is_stun data \<Longrightarrow> \<not> is_rtcp data \<and> \<not> is_rtp data \<and> \<not> is_dtls data"
  "is_rtcp data \<or> is_rtp data \<Longrightarrow> \<not> is_dtls data"
  by (auto simp: is_stun_def is_rtcp_def is_rtp_def is_dtls_def word_less_nat_alt split: if_splits)

lemma binding_response_sent:
  assumes "evp_documented e" "length (trans_id (hdr p)) = 12"
  shows "send_binding_response e (Some p) ic =
    ok [(bind_response e (trans_id (hdr p)) (ic_remote_addr ic) 1 (ic_ice_pwd ic), ic_remote_addr ic)]"
proof -
  let ?sp = "add_attribute (StunAttributeXorAddress STUN_XOR_MAPPED_ADDRESS 8 (ic_remote_addr ic) 1)
    \<lparr>hdr = \<lparr>msg_type = STUN_BINDING_RESPONSE, hdr_prefix = 0, msg_len = 0, msg_cookie = k_stun_magic_cookie,
            trans_id = trans_id (hdr p)\<rparr>, cls = 0, stun_method = 0, attris = []\<rparr>"
  have "get_attribute STUN_XOR_MAPPED_ADDRESS ?sp = Some (StunAttributeXorAddress STUN_XOR_MAPPED_ADDRESS 8 (ic_remote_addr ic) 1)"
    by (simp add: get_attribute_def add_attribute_def)
  moreover have "trans_id (hdr ?sp) = trans_id (hdr p)" "msg_cookie (hdr ?sp) = k_stun_magic_cookie"
    by (simp_all add: add_attribute_def)
  ultimately obtain wr where wr: "serialize_bind_response e ?sp (ic_ice_pwd ic) ByteBufferWriter = ok wr"
    "fits (buf_block ByteBufferWriter) wr (bind_response e (trans_id (hdr p)) (ic_remote_addr ic) 1 (ic_ice_pwd ic))"
    using serialize_bind_response_fits [OF assms(1), of ?sp "ic_remote_addr ic" 1 "ic_ice_pwd ic"] assms(2) by auto
  from wr fits_read [OF wr(2), of "buf_size wr"] fits_size [OF wr(2)] show ?thesis
    by (simp add: send_binding_response_def deref_def)
qed

lemma send_binding_response_null [simp]: "send_binding_response e None ic = crash NullDeref"
  by (simp add: send_binding_response_def deref_def)

lemma parsed_trans_id: "parse data = ok (Some p) \<Longrightarrow> length (trans_id (hdr p)) = 12"
  using parse_SomeD(2,5) [of data p] by simp

text \<open>The state of one address agrees with its key and the transports.\<close>

definition ports_ok :: "'c srtp_world \<Rightarrow> string \<Rightarrow> 'a MemberUdpPorts \<Rightarrow> bool" where
  "ports_ok w k up =
     ((\<forall>ic. up_ice_connection up = Some ic \<longrightarrow> ic_id ic = k \<and> ip_text (ic_remote_addr ic) = k) \<and>
      (\<forall>t. up_srtp up = Some t \<longrightarrow> t \<in> dom (heap w) \<and> up_dtls_connection up \<noteq> None))"

definition member_ok :: "'c srtp_world \<Rightarrow> 'a RoomMember \<Rightarrow> bool" where
  "member_ok w rm =
     (distinct (map fst (rm_udp_handles rm)) \<and> (\<forall>(k, up) \<in> set (rm_udp_handles rm). ports_ok w k up))"

lemma ports_ok_new [simp]: "ports_ok w k MemberUdpPorts_new"
  by (simp add: ports_ok_def MemberUdpPorts_new_def)

lemma ports_ok_mono: "ports_ok w k up \<Longrightarrow> dom (heap w) \<subseteq> dom (heap w') \<Longrightarrow> ports_ok w' k up"
  unfolding ports_ok_def by (meson subsetD)

lemma member_ok_mono: "member_ok w rm \<Longrightarrow> grows w w' \<Longrightarrow> member_ok w' rm"
  unfolding member_ok_def grows_def by (fastforce intro: ports_ok_mono)

lemma member_ok_put:
  assumes "member_ok w rm" "dom (heap w) \<subseteq> dom (heap w')" "ports_ok w' k up"
  shows "member_ok w' (rm\<lparr>rm_udp_handles := AList.update k up (rm_udp_handles rm)\<rparr>)"
  using assms
  by (fastforce simp: member_ok_def distinct_update intro: ports_ok_mono dest: alist_update_in)

lemma member_ok_get: "member_ok w rm \<Longrightarrow> map_of (rm_udp_handles rm) k = Some up \<Longrightarrow> ports_ok w k up"
  by (auto simp: member_ok_def dest!: map_of_SomeD)

lemma receive_stun_ok:
  assumes "receive_stun env addr data rm up = ok (up', out, consumed)" "is_stun data" "ports_ok w (ip_text addr) up"
  shows "ports_ok w (ip_text addr) up' \<and> consumed"
proof (cases "up_ice_connection up")
  case None
  with assms show ?thesis
    by (auto simp: receive_stun_def res_bind_eq_ok ports_ok_def IceConnection_new_def set_ice_pwd_def Let_def split: if_splits)
next
  case (Some ic)
  with assms show ?thesis by (auto simp: receive_stun_def on_udp_data_def res_bind_eq_ok)
qed

lemma new_dtls_result:
  "new_dtls env addr rm up = ok up' \<Longrightarrow> up' = up \<or> (\<exists>d. up' = up\<lparr>up_dtls_connection := Some d\<rparr>)"
  by (auto simp: new_dtls_def res_bind_eq_ok prod.case_eq_if split: option.splits if_splits)

lemma new_dtls_ok: "new_dtls env addr rm up = ok up' \<Longrightarrow> ports_ok w k up \<Longrightarrow> ports_ok w k up'"
  by (drule new_dtls_result) (auto simp: ports_ok_def)

lemma receive_dtls_ok:
  assumes "receive_dtls env addr data rm up = ok (up', out)" "ports_ok w k up"
  shows "ports_ok w k up'"
proof -
  from assms(1) obtain up1 where up1: "(if up_dtls_connection up = None then new_dtls env addr rm up else ok up) = ok up1"
    and up': "up' = up1 \<or> (\<exists>d. up' = up1\<lparr>up_dtls_connection := Some d\<rparr>)"
    by (auto simp: receive_dtls_def res_bind_eq_ok split: option.splits)
  have "ports_ok w k up1" using up1 assms(2) new_dtls_ok by (auto split: if_splits)
  with up' show ?thesis by (auto simp: ports_ok_def)
qed

lemma put_tr_dom: "dom (heap w) \<subseteq> dom (heap (put_tr t tr w))"
  by auto

lemma media_transport_steps:
  assumes "media_transport env udp addr d up w = ok (srtp, up', w')"
    and "heap w (en_alloc env w) = None" "ports_ok w k up" "up_dtls_connection up = Some d"
  shows "(media_step (en_lib env) iter)\<^sup>*\<^sup>* (m, w) (m, w') \<and> dom (heap w) \<subseteq> dom (heap w') \<and> ports_ok w' k up' \<and>
    (\<forall>t. srtp = Some t \<longrightarrow> t \<in> dom (heap w'))"
proof (cases "up_srtp up")
  case (Some t)
  with assms show ?thesis by (auto simp: media_transport_def ports_ok_def)
next
  case None
  let ?t = "en_alloc env w" let ?w1 = "put_tr ?t (SrtpTransport_new udp addr) w" let ?up = "up\<lparr>up_srtp := Some ?t\<rparr>"
  have new: "media_step (en_lib env) iter (m, w) (m, ?w1)" by (rule media_step.create) (rule assms(2))
  have up: "ports_ok w'' k ?up" if "dom (heap ?w1) \<subseteq> dom (heap w'')" for w'' :: "'b srtp_world"
    using assms(3,4) that by (auto simp: ports_ok_def)
  from None assms(1) obtain keys where keys: "extract_srtp_keys (en_ops env) d = ok keys"
    by (auto simp: media_transport_def Let_def res_bind_eq_ok)
  show ?thesis
  proof (cases keys)
    case None
    with \<open>up_srtp up = None\<close> keys assms(1) have "w' = ?w1" "up' = ?up" "srtp = None"
      by (auto simp: media_transport_def Let_def)
    moreover have "dom (heap w) \<subseteq> dom (heap ?w1)" by (rule put_tr_dom)
    moreover have "(media_step (en_lib env) iter)\<^sup>*\<^sup>* (m, w) (m, ?w1)" using new by (rule r_into_rtranclp)
    ultimately show ?thesis using up [of ?w1] by simp
  next
    case (Some k3)
    then obtain cs sk rk where k3: "keys = Some (cs, sk, rk)" by (cases k3) auto
    have "res_bind (set_srtp_param (en_lib env) ?t cs sk cs rk ?w1) (\<lambda>(_, w2). ok (Some ?t, ?up, w2)) = ok (srtp, up', w')"
      using assms(1) keys unfolding media_transport_def \<open>up_srtp up = None\<close> k3 by (simp add: Let_def)
    then obtain b where b: "set_srtp_param (en_lib env) ?t cs sk cs rk ?w1 = ok (b, w')" "up' = ?up" "srtp = Some ?t"
      by (cases "set_srtp_param (en_lib env) ?t cs sk cs rk ?w1") auto
    have d: "dom (heap ?w1) \<subseteq> dom (heap w')" using set_srtp_param_grows [OF b(1)] unfolding grows_def by (rule conjunct1)
    have "media_step (en_lib env) iter (m, ?w1) (m, w')" by (rule media_step.keys) (rule b(1))
    with new have "(media_step (en_lib env) iter)\<^sup>*\<^sup>* (m, w) (m, w')"
      by (rule r_into_rtranclp [THEN rtranclp.rtrancl_into_rtrancl])
    moreover have "dom (heap w) \<subseteq> dom (heap w')" "?t \<in> dom (heap w')" using d by auto
    ultimately show ?thesis using up [OF d] b(2,3) by simp
  qed
qed

lemma receive_media_steps:
  assumes "receive_media env udp addr data uid up m w = ok (up', m', w', out)"
    and "heap w (en_alloc env w) = None" "ports_ok w k up"
  shows "(media_step (en_lib env) (en_iter env))\<^sup>*\<^sup>* (m, w) (m', w') \<and> ports_ok w' k up'"
proof (cases "up_dtls_connection up")
  case None
  with assms show ?thesis by (simp add: receive_media_def)
next
  case (Some d)
  let ?step = "media_step (en_lib env) (en_iter env)"
  from assms(1) Some obtain srtp up1 w1 where t1: "media_transport env udp addr d up w = ok (srtp, up1, w1)"
    by (auto simp: receive_media_def res_bind_eq_ok)
  have m1: "?step\<^sup>*\<^sup>* (m, w) (m, w1)" "ports_ok w1 k up1" "\<And>t. srtp = Some t \<Longrightarrow> t \<in> dom (heap w1)"
    using media_transport_steps [OF t1 assms(2,3) Some, of "en_iter env" m] by auto
  show ?thesis
  proof (cases srtp)
    case None
    with assms(1) Some t1 m1 show ?thesis by (simp add: receive_media_def)
  next
    case (Some t)
    with assms(1) \<open>up_dtls_connection up = _\<close> t1 obtain w2 where
      s: "add_stream uid t m w1 = ok (m', w2)" "up' = up1" and
      h: "handle_rtcp_data (en_lib env) (en_iter env) data t w2 = ok (w', out) \<or>
          handle_rtp_data (en_lib env) (en_iter env) data t w2 = ok (w', out)"
      by (auto simp: receive_media_def res_bind_eq_ok split: if_splits)
    have "?step (m, w1) (m', w2)" by (rule media_step.stream [OF m1(3) [OF Some] s(1)])
    moreover have "?step (m', w2) (m', w')" using h by (auto intro: media_step.rtp media_step.rtcp)
    ultimately have steps: "?step\<^sup>*\<^sup>* (m, w) (m', w')"
      using m1(1) by (meson rtranclp.rtrancl_into_rtrancl)
    have "?step\<^sup>*\<^sup>* (m, w1) (m', w')"
      using \<open>?step (m, w1) (m', w2)\<close> \<open>?step (m', w2) (m', w')\<close> by (meson rtranclp.rtrancl_into_rtrancl r_into_rtranclp)
    from media_steps_grow [OF this] have "dom (heap w1) \<subseteq> dom (heap w')" by (simp add: grows_def)
    with m1(2) s(2) steps show ?thesis by (auto intro: ports_ok_mono)
  qed
qed

lemma on_udp_receive_steps:
  assumes "on_udp_receive env udp data addr (rm, m, w) = ok ((rm', m', w'), out, consumed)"
    and "member_ok w rm" "heap w (en_alloc env w) = None"
  shows "(media_step (en_lib env) (en_iter env))\<^sup>*\<^sup>* (m, w) (m', w') \<and> member_ok w' rm' \<and> consumed"
proof -
  define up where "up = (case map_of (rm_udp_handles rm) (ip_text addr) of None \<Rightarrow> MemberUdpPorts_new | Some up \<Rightarrow> up)"
  let ?put = "\<lambda>up. rm\<lparr>rm_udp_handles := AList.update (ip_text addr) up (rm_udp_handles rm)\<rparr>"
  have up: "ports_ok w (ip_text addr) up"
    using member_ok_get [OF assms(2)] by (cases "map_of (rm_udp_handles rm) (ip_text addr)") (auto simp: up_def)
  note put = member_ok_put [OF assms(2) order_refl]
  consider (stun) "is_stun data" | (media) "\<not> is_stun data" "is_rtcp data \<or> is_rtp data"
    | (dtls) "\<not> is_stun data" "\<not> (is_rtcp data \<or> is_rtp data)" "is_dtls data"
    | (none) "\<not> is_stun data" "\<not> (is_rtcp data \<or> is_rtp data)" "\<not> is_dtls data" by blast
  then show ?thesis
  proof cases
    case stun
    with assms(1) obtain up' where r: "receive_stun env addr data rm up = ok (up', out, consumed)"
      "rm' = ?put up'" "m' = m" "w' = w"
      by (auto simp: on_udp_receive_def Let_def res_bind_eq_ok simp flip: up_def)
    from receive_stun_ok [OF r(1) stun up] put r(2-4) show ?thesis by simp
  next
    case media
    with assms(1) obtain up' where r: "receive_media env udp addr data (rm_uid rm) up m w = ok (up', m', w', out)"
      "rm' = ?put up'" consumed
      unfolding on_udp_receive_def by (simp add: Let_def res_bind_eq_ok split_paired_Ex flip: up_def) blast
    from receive_media_steps [OF r(1) assms(3) up] have s: "(media_step (en_lib env) (en_iter env))\<^sup>*\<^sup>* (m, w) (m', w')"
      "ports_ok w' (ip_text addr) up'" by auto
    from media_steps_grow [OF s(1)] have "dom (heap w) \<subseteq> dom (heap w')" by (simp add: grows_def)
    from member_ok_put [OF assms(2) this s(2)] s(1) r(2,3) show ?thesis by simp
  next
    case dtls
    with assms(1) obtain up' where r: "receive_dtls env addr data rm up = ok (up', out)"
      "rm' = ?put up'" "m' = m" "w' = w" consumed
      by (auto simp: on_udp_receive_def Let_def res_bind_eq_ok simp flip: up_def)
    from receive_dtls_ok [OF r(1) up] put r(2-5) show ?thesis by simp
  next
    case none
    with assms(1) up put show ?thesis by (auto simp: on_udp_receive_def Let_def simp flip: up_def)
  qed
qed

section \<open>A concrete member\<close>

definition sample_env :: "(nat, bytes) env" where
  "sample_env =
     \<lparr>en_evp = sample_evp, en_ops = sample_adapter, en_adapter = 3, en_lib = sample_lib, en_iter = id,
      en_after_reset = id, en_alloc = (\<lambda>_. 7), en_bind = (\<lambda>_ _. Some 4), en_default_addr = ip_address_of 0 0,
      en_parse_addr = id, en_getPort = (\<lambda>a. uint (ip_port a))\<rparr>"

definition sample_peer :: IpAddress where
  "sample_peer = \<lparr>ip_port = 5000, ip_s_addr = 7, ip_text = ''7.0.0.0:5000''\<rparr>"

definition sample_answer :: SessionDescription where
  "sample_answer =
     SessionDescription_new
       \<lparr>sd_media_contents := [(MediaContent_new MEDIA_TYPE_AUDIO)\<lparr>mc_ice := \<lparr>ice_mode = [], ufrag = ''f'', passwd = ''pw''\<rparr>\<rparr>]\<rparr>"

definition sample_member :: "nat RoomMember" where
  "sample_member = (RoomMember_new sample_env ''amy'')\<lparr>rm_answer_sdp := Some sample_answer\<rparr>"

definition short_stun :: bytes where
  "short_stun = [0, 1, 0, 4, 0x21, 0x12, 0xA4, 0x42, 1, 2, 3, 4, 5, 6, 7, 8, 9, 10, 11, 12]"

lemma short_stun_null: "is_stun short_stun" "parse short_stun = ok None"
  by (code_simp, code_simp)

lemma map_of_update_same: "map_of (AList.update k v al) k = Some v"
  by (simp add: update_Some_unfold)

lemma member_handles: "rm_udp_handles (rm\<lparr>rm_udp_handles := hs\<rparr>) = hs"
  by simp

text \<open>The first packet of an address, in terms of the verdict on its credentials.\<close>

lemma receive_stun_new:
  assumes "evp_documented (en_evp env)" "parse data = ok (Some p)"
    and "rm_answer_sdp rm = Some answer" "sd_media_contents answer = c # cs" "up_ice_connection up = None"
  shows "receive_stun env addr data rm up =
    res_bind (validate (en_evp env) (mc_ice c) p (en_after_reset env data)) (\<lambda>(good, _).
      ok (if good
          then (up\<lparr>up_ice_connection := Some \<lparr>ic_remote_addr = addr, ic_local_addr = rm_addr rm, ic_id = ip_text addr,
                                             ic_ice_pwd = passwd (mc_ice c)\<rparr>\<rparr>,
                [(bind_response (en_evp env) (trans_id (hdr p)) addr 1 (passwd (mc_ice c)), addr)], True)
          else (up, [], True)))"
  using assms(2-5) binding_response_sent [OF assms(1) parsed_trans_id [OF assms(2)]]
  by (cases "validate (en_evp env) (mc_ice c) p (en_after_reset env data)")
    (auto simp: receive_stun_def nth_res_def IceConnection_new_def set_ice_pwd_def deref_def)

section \<open>Properties\<close>

text \<open>
  C7: What the first STUN packet of an address leads to. The credentials are compared with the bytes that
  stand at the read pointer after \<^verbatim>\<open>reset\<close>, whatever these are (\<open>buf\<close>): when \<^verbatim>\<open>validate\<close> crashes on them, so
  does the server; when it accepts, the sender gets exactly one datagram, the binding response for its
  transaction under the password of the answer, and an ICE connection; when it rejects, nothing is sent
  and there is no ICE connection. Over a buffer no shorter than the datagram, it accepts exactly when
  every USERNAME names the answer's fragment and every full MESSAGE-INTEGRITY is the HMAC of the bytes
  in front of it under the answer's password. A packet that carries neither is always accepted.
\<close>
theorem first_stun_is_authenticated:
  assumes "evp_documented (en_evp env)" "parse data = ok (Some p)"
    and "rm_answer_sdp rm = Some answer" "sd_media_contents answer = c # cs"
    and "\<And>up. map_of (rm_udp_handles rm) (ip_text addr) = Some up \<Longrightarrow> up_ice_connection up = None"
    and "buf = en_after_reset env data" "verdict = validate (en_evp env) (mc_ice c) p buf"
  shows "(case verdict of
      Inl fault \<Rightarrow> on_udp_receive env udp data addr (rm, m, w) = crash fault
    | Inr (good, _) \<Rightarrow>
        (\<exists>rm' up. map_of (rm_udp_handles rm') (ip_text addr) = Some up \<and>
           (if good
            then on_udp_receive env udp data addr (rm, m, w) =
                   ok ((rm', m, w), [(bind_response (en_evp env) (trans_id (hdr p)) addr 1 (passwd (mc_ice c)), addr)], True) \<and>
                 up_ice_connection up =
                   Some \<lparr>ic_remote_addr = addr, ic_local_addr = rm_addr rm, ic_id = ip_text addr, ic_ice_pwd = passwd (mc_ice c)\<rparr>
            else on_udp_receive env udp data addr (rm, m, w) = ok ((rm', m, w), [], True) \<and> up_ice_connection up = None))) \<and>
    (length data \<le> length buf \<and> list_all mac_readable (attris p) \<longrightarrow>
       (\<exists>d. verdict = ok (list_all (authentic (en_evp env) (mc_ice c) buf) (attris p), d))) \<and>
    ((\<forall>a \<in> set (attris p). at_type a \<noteq> STUN_USERNAME \<and> at_type a \<noteq> STUN_MESSAGE_INTEGRITY) \<longrightarrow> verdict = ok (True, buf))"
proof -
  define up where "up = (case map_of (rm_udp_handles rm) (ip_text addr) of None \<Rightarrow> MemberUdpPorts_new | Some up \<Rightarrow> up)"
  have up: "up_ice_connection up = None"
    using assms(5) by (cases "map_of (rm_udp_handles rm) (ip_text addr)") (auto simp: up_def MemberUdpPorts_new_def)
  have step: "on_udp_receive env udp data addr (rm, m, w) =
      res_bind (receive_stun env addr data rm up) (\<lambda>(up', out, consumed).
        ok ((rm\<lparr>rm_udp_handles := AList.update (ip_text addr) up' (rm_udp_handles rm)\<rparr>, m, w), out, consumed))"
    using parse_SomeD(1) [OF assms(2)] by (simp add: on_udp_receive_def Let_def flip: up_def)
  note stun = receive_stun_new [OF assms(1-4) up, of addr, folded assms(6), folded assms(7)]
  have "case verdict of
      Inl fault \<Rightarrow> on_udp_receive env udp data addr (rm, m, w) = crash fault
    | Inr (good, _) \<Rightarrow>
        (\<exists>rm' up. map_of (rm_udp_handles rm') (ip_text addr) = Some up \<and>
           (if good
            then on_udp_receive env udp data addr (rm, m, w) =
                   ok ((rm', m, w), [(bind_response (en_evp env) (trans_id (hdr p)) addr 1 (passwd (mc_ice c)), addr)], True) \<and>
                 up_ice_connection up =
                   Some \<lparr>ic_remote_addr = addr, ic_local_addr = rm_addr rm, ic_id = ip_text addr, ic_ice_pwd = passwd (mc_ice c)\<rparr>
            else on_udp_receive env udp data addr (rm, m, w) = ok ((rm', m, w), [], True) \<and> up_ice_connection up = None))"
  proof (cases verdict)
    case (Inl f)
    then show ?thesis by (simp add: step stun)
  next
    case (Inr v)
    obtain good d where v: "v = (good, d)" by (cases v)
    show ?thesis
      by (cases good)
        (use up Inr v in \<open>auto simp: step stun map_of_update_same intro!: exI [where x = "rm\<lparr>rm_udp_handles := _\<rparr>"]\<close>)
  qed
  moreover have "\<exists>d. verdict = ok (list_all (authentic (en_evp env) (mc_ice c) buf) (attris p), d)"
    if "length data \<le> length buf" "list_all mac_readable (attris p)"
    using validate_parsed_buffer [OF assms(1,2) that(2,1)] assms(7) by simp
  moreover have "verdict = ok (True, buf)"
    if "\<forall>a \<in> set (attris p). at_type a \<noteq> STUN_USERNAME \<and> at_type a \<noteq> STUN_MESSAGE_INTEGRITY"
    using validate_loop_skips [OF that] assms(7) by (simp add: validate_def)
  ultimately show ?thesis by blast
qed

lemma first_stun_is_authenticated_witness:
  "\<exists>st'. on_udp_receive sample_env 1
      (bind_response sample_evp (replicate 12 9) (ip_address_of 5000 7) 1 ''pw'') sample_peer (sample_member, RtcStreamMgr_new, sample_world) =
    ok (st', [(bind_response sample_evp (replicate 12 9) sample_peer 1 ''pw'', sample_peer)], True)"
proof -
  let ?d = "bind_response sample_evp (replicate 12 9) (ip_address_of 5000 7) 1 ''pw''"
  let ?p = "response_packet sample_evp (replicate 12 9) (ip_address_of 5000 7) 1 ''pw''"
  let ?c = "(MediaContent_new MEDIA_TYPE_AUDIO)\<lparr>mc_ice := \<lparr>ice_mode = [], ufrag = ''f'', passwd = ''pw''\<rparr>\<rparr>"
  have e: "evp_documented (en_evp sample_env)" by (simp add: sample_env_def sample_evp_documented)
  have p: "parse ?d = ok (Some ?p)" by (rule parse_response) (simp_all add: sample_evp_documented)
  have t: "trans_id (hdr ?p) = replicate 12 9"
    using load_header_response(1) [of "replicate 12 9"] by (simp add: response_packet_def bind_response_message)
  have v: "validate (en_evp sample_env) (mc_ice ?c) ?p (en_after_reset sample_env ?d) = ok (True, ?d)"
    by (simp add: sample_env_def, rule validate_response) (simp_all add: sample_evp_documented)
  have f: "rm_answer_sdp sample_member = Some sample_answer"
    "sd_media_contents sample_answer = ?c # []" "rm_udp_handles sample_member = []" "en_evp sample_env = sample_evp"
    by (simp_all add: sample_env_def sample_member_def sample_answer_def RoomMember_new_def)
  show ?thesis
    using first_stun_is_authenticated [OF e p f(1,2) _ refl v [symmetric], of sample_peer 1 RtcStreamMgr_new sample_world] t f(3,4)
    by auto
qed

text \<open>
  C16: A datagram that looks like STUN and does not parse crashes the server: the parser returns a null
  pointer that is followed without a test, whether the address has an ICE connection already or is new
  to a member that has been given an answer.
\<close>
theorem malformed_stun_crashes:
  assumes "is_stun data" "parse data = ok None" "rm_answer_sdp rm = Some answer" "sd_media_contents answer \<noteq> []"
  shows "on_udp_receive env udp data addr (rm, m, w) = crash NullDeref"
proof -
  have "receive_stun env addr data rm up = crash NullDeref" for up
    using assms by (cases "up_ice_connection up"; cases "sd_media_contents answer")
      (simp_all add: receive_stun_def on_udp_data_def deref_def)
  with assms(1) show ?thesis by (simp add: on_udp_receive_def Let_def)
qed

lemma malformed_stun_crashes_witness:
  "on_udp_receive sample_env 1 short_stun sample_peer (sample_member, RtcStreamMgr_new, sample_world) = crash NullDeref"
  by (rule malformed_stun_crashes [OF short_stun_null, of _ sample_answer])
    (simp_all add: sample_member_def sample_answer_def)

text \<open>
  C6: Receiving datagrams refines the media plane: whatever arrives, the transports and subscriptions change by
  steps of the media plane only, the member's state stays well formed (one state per address, an ICE
  connection under its own address, a transport only behind a DTLS connection and allocated), and the
  buffer of the socket has been reset, so that the next datagram starts afresh.
\<close>
theorem receiving_refines_media_plane:
  assumes "on_udp_receive env udp data addr (rm, m, w) = ok ((rm', m', w'), out, consumed)"
    and "member_ok w rm" "heap w (en_alloc env w) = None"
  shows "(media_step (en_lib env) (en_iter env))\<^sup>*\<^sup>* (m, w) (m', w') \<and> member_ok w' rm' \<and> consumed"
  using assms by (rule on_udp_receive_steps)

lemma receiving_refines_media_plane_witness:
  "member_ok sample_world
     (sample_member\<lparr>rm_udp_handles := AList.update (ip_text sample_peer) MemberUdpPorts_new (rm_udp_handles sample_member)\<rparr>)"
proof -
  have "\<not> is_stun [1, 2]" "\<not> is_rtcp [1, 2]" "\<not> is_rtp [1, 2]" "\<not> is_dtls [1, 2]" by code_simp+
  then have "on_udp_receive sample_env 1 [1, 2] sample_peer (sample_member, RtcStreamMgr_new, sample_world) =
    ok ((sample_member\<lparr>rm_udp_handles := AList.update (ip_text sample_peer) MemberUdpPorts_new (rm_udp_handles sample_member)\<rparr>,
         RtcStreamMgr_new, sample_world), [], True)"
    by (simp add: on_udp_receive_def Let_def sample_member_def RoomMember_new_def)
  moreover have "member_ok sample_world sample_member" by (simp add: member_ok_def sample_member_def RoomMember_new_def)
  moreover have "heap sample_world (en_alloc sample_env sample_world) = None"
    by (simp add: sample_world_def sample_env_def)
  ultimately show ?thesis using receiving_refines_media_plane by blast
qed

text \<open>
  C17: A publisher that leaves does not unlink its transport from its subscribers: its socket is closed, and
  the next RTCP packet of a subscriber that decrypts is sent through the deleted socket.
\<close>
theorem leaving_publisher_dangles:
  assumes "rm_udp_receiver rm = Some ur" "ur_udp ur = Some u" "map_of (sm_subs_map m) (rm_uid rm) = None"
    and "stop_recv env rm pm w = ok (rm1, pm1, w1)" "destory rm1 m w1 = ok (rm2, m2, w2)"
    and "srtp_inited w" "heap w t = Some tr" "tr_recv_session tr = Some rs"
    and "unprotect_rtcp lib data rs = (True, out, rs')" "out \<noteq> []" "iter (tr_subs_map tr) = (rm_uid rm, tp) # subs"
    and "tp \<noteq> t" "heap w tp = Some ptr" "tr_udp ptr = u" "send_ctx w tp = Some c" "lib_protect_rtcp lib out c = (0, enc, c')"
  shows "m2 = m \<and> heap w2 = heap w \<and> handle_rtcp_data lib iter data t w2 = crash StalePointer"
proof -
  have w1: "w1 = w\<lparr>udp_open := (udp_open w)(u := False)\<rparr>" "rm_uid rm1 = rm_uid rm"
    using assms(1,2,4) by (auto simp: stop_recv_def ur_stop_def res_bind_eq_ok deref_def)
  have w2: "w2 = w1" "m2 = m"
    using assms(3,5) w1(2) by (auto simp: destory_def sm_remove_subscriber_def)
  obtain s where s: "tr_send_session ptr = Some s" "ss_srtp_session s = Some c"
    using assms(13,15) by (auto simp: send_ctx_def bind_eq_Some_conv)
  have "protect_rtcp lib out (length out + snd (get_send_auth_tag_len ptr) + 4) s = (True, enc, s\<lparr>ss_srtp_session := Some c'\<rparr>)"
    using s assms(16) by (simp add: protect_rtcp_def get_send_auth_tag_len_def ss_get_auth_tag_len_def)
  then have "on_rtcp_packet lib out tp (put_tr t (tr\<lparr>tr_recv_session := Some rs'\<rparr>) w2) = crash StalePointer"
    using assms(6,12-14) s(1) by (simp add: on_rtcp_packet_def tr_send_def w2 w1 deref_def)
  then have "handle_rtcp_data lib iter data t w2 = crash StalePointer"
    using assms(6-11) by (simp add: handle_rtcp_data_forwards w2 w1)
  then show ?thesis using w1 w2 by simp
qed

lemma leaving_publisher_dangles_witness:
  "\<exists>rm2 pm1 w2. stop_recv sample_env
      (sample_member\<lparr>rm_udp_receiver := Some \<lparr>ur_addr = sample_peer, ur_data_cb = True, ur_has_server = True, ur_udp = Some 0\<rparr>\<rparr>)
      UdpPortManager_new sample_world = ok (rm2, pm1, w2) \<and>
    handle_rtcp_data sample_lib id (replicate 20 129) 1 w2 = crash StalePointer"
proof -
  let ?rm = "sample_member\<lparr>rm_udp_receiver := Some \<lparr>ur_addr = sample_peer, ur_data_cb = True, ur_has_server = True, ur_udp = Some 0\<rparr>\<rparr>"
  let ?rm1 = "?rm\<lparr>rm_udp_receiver := None\<rparr>" let ?w1 = "sample_world\<lparr>udp_open := (udp_open sample_world)(0 := False)\<rparr>"
  have r: "recycle_port p UdpPortManager_new = ok UdpPortManager_new" for p
    by (simp add: recycle_port_def UdpPortManager_new_def)
  have s: "stop_recv sample_env ?rm UdpPortManager_new sample_world = ok (?rm1, UdpPortManager_new, ?w1)"
    by (simp add: stop_recv_def ur_stop_def deref_def r)
  moreover have d: "destory ?rm1 RtcStreamMgr_new ?w1 = ok (?rm1, RtcStreamMgr_new, ?w1)"
    by (simp add: destory_def sm_remove_subscriber_def RtcStreamMgr_new_def sample_member_def RoomMember_new_def)
  moreover have "handle_rtcp_data sample_lib id (replicate 20 129) 1 ?w1 = crash StalePointer"
    using leaving_publisher_dangles [OF _ _ _ s d, of _ 0 1 "sample_transport 2 1 [(''amy'', 0)]"
        "\<lparr>ss_srtp_session = Some (replicate 30 2), ss_rtp_auth_tag_len = 10, ss_rtcp_auth_tag_len = 10\<rparr>" sample_lib
        "replicate 20 129" "replicate 6 129" _ id 0 "[]" "sample_transport 1 0 [(''bob'', 1), (''eve'', 2)]" "replicate 30 1"]
    by (simp add: RtcStreamMgr_new_def sample_defs sample_member_def RoomMember_new_def unprotect_rtcp_def send_ctx_def)
  ultimately show ?thesis by blast
qed

end
