(* ===== verification/Signaling.thy ===== *)
theory Signaling
  imports Members
begin

text \<open>
  \<^verbatim>\<open>signaling/signaling_handle.{h,cpp}\<close>, \<^verbatim>\<open>signaling/wss_server.cpp\<close>, \<^verbatim>\<open>juan_sfu.cpp\<close>: the rooms, their members and
  the messages that join them, publish and pull.

  The state of the server is one record: the maps of \<^verbatim>\<open>SignalingHandle\<close>, the port manager, the stream
  manager and the media plane, and the random generator. A member is reached through its room; nobody
  else holds a pointer to one, apart from the callback of its socket. jsoncpp is a parameter: a value is
  what the code asks of one, and a reply is the record of its fields. An iteration over an
  \<^verbatim>\<open>unordered_map\<close> goes through a parameter that may permute the entries.
\<close>

section \<open>JSON\<close>

datatype json = JNull | JString string | JInt int | JObject "(string \<times> json) list" | JOther

text \<open>\<^verbatim>\<open>json[item]\<close> throws on a value that is neither null nor an object.\<close>

definition json_member :: "json \<Rightarrow> string \<Rightarrow> json res" where
  "json_member j item =
     (case j of
        JNull \<Rightarrow> ok JNull
      | JObject kvs \<Rightarrow> ok (case map_of kvs item of None \<Rightarrow> JNull | Some v \<Rightarrow> v)
      | _ \<Rightarrow> crash UncaughtException)"

definition GET_JSON_STRING :: "json \<Rightarrow> string \<Rightarrow> string \<Rightarrow> string res" where
  "GET_JSON_STRING j item dflt =
     (if j = JNull then ok dflt
      else res_bind (json_member j item) (\<lambda>v. ok (case v of JString s \<Rightarrow> s | _ \<Rightarrow> dflt)))"

text \<open>The default of the macro for integers is not used.\<close>

definition GET_JSON_INT :: "json \<Rightarrow> string \<Rightarrow> int \<Rightarrow> int res" where
  "GET_JSON_INT j item dflt =
     (if j = JNull then ok 0
      else res_bind (json_member j item) (\<lambda>v.
        ok (case v of JInt i \<Rightarrow> if - (2 ^ 31) \<le> i \<and> i < 2 ^ 31 then i else 0 | _ \<Rightarrow> 0)))"

definition parseJson :: "(string \<Rightarrow> json option) \<Rightarrow> string \<Rightarrow> json option" where
  "parseJson reader text =
     (let cs = c_str text;
          temp = (if take 3 cs = [CHR 0xEF, CHR 0xBB, CHR 0xBF] then drop 3 cs else cs)
      in if length temp \<le> 0 then None else reader temp)"

definition stoll :: "string \<Rightarrow> int res" where
  "stoll s =
     (case int_text (c_str s) of
        None \<Rightarrow> crash UncaughtException
      | Some i \<Rightarrow> if - (2 ^ 63) \<le> i \<and> i < 2 ^ 63 then ok i else crash UncaughtException)"

section \<open>The server\<close>

text \<open>A connection: its id and whether the cast to \<^verbatim>\<open>WsConnection\<close> succeeds.\<close>

record conn =
  cn_id :: int
  cn_ws :: bool

record 'a Room =
  ro_roomid :: int
  ro_members :: "(string \<times> 'a RoomMember) list"
  ro_connections :: "(string \<times> conn) list"

record ('a, 'c, 'o) server =
  sv_all_rooms :: "(int \<times> 'a Room) list"
  sv_connections :: "(int \<times> int) list"
  sv_pm :: UdpPortManager
  sv_ipstr :: string
  sv_sm :: RtcStreamMgr
  sv_world :: "'c srtp_world"
  sv_rng :: "'o rng"

record ('a, 'c, 'o) senv =
  se_env :: "('a, 'c) env"
  se_rand_bytes :: "'o rand_bytes"
  se_pton6 :: "string \<Rightarrow> in6_addr option"
  se_ntop6 :: "in6_addr \<Rightarrow> string option"
  se_cert_fp :: "SSLFingerprint option"
  se_params_iter :: "(string \<times> string) list \<Rightarrow> (string \<times> string) list"
  se_members_iter :: "(string \<times> 'a RoomMember) list \<Rightarrow> (string \<times> 'a RoomMember) list"
  se_conns_iter :: "(string \<times> conn) list \<Rightarrow> (string \<times> conn) list"
  se_IpAddress :: "int \<Rightarrow> IpAddress"
  se_setIp :: "string \<Rightarrow> IpAddress \<Rightarrow> IpAddress"
  se_getIp :: "IpAddress \<Rightarrow> string"
  se_udp_server :: bool

record reply =
  rp_cmd :: string
  rp_roomId :: string
  rp_uid :: string
  rp_members :: "string list"
  rp_sdp :: "(string \<times> string) option"

type_synonym replies = "(int \<times> reply) list"

definition find_room :: "int \<Rightarrow> ('a, 'c, 'o) server \<Rightarrow> 'a Room option" where
  "find_room roomid sv = map_of (sv_all_rooms sv) roomid"

definition put_room :: "int \<Rightarrow> 'a Room \<Rightarrow> ('a, 'c, 'o) server \<Rightarrow> ('a, 'c, 'o) server" where
  "put_room roomid room sv = sv\<lparr>sv_all_rooms := AList.update roomid room (sv_all_rooms sv)\<rparr>"

definition create_room :: "int \<Rightarrow> ('a, 'c, 'o) server \<Rightarrow> 'a Room \<times> ('a, 'c, 'o) server" where
  "create_room roomid sv =
     (let room = \<lparr>ro_roomid = roomid, ro_members = [], ro_connections = []\<rparr> in (room, put_room roomid room sv))"

text \<open>\<^verbatim>\<open>pptr->write\<close>, when the cast succeeded.\<close>

definition ws_write :: "conn \<Rightarrow> reply \<Rightarrow> replies" where
  "ws_write ptr r = (if cn_ws ptr then [(cn_id ptr, r)] else [])"

definition handle_join ::
  "('a, 'c, 'o) senv \<Rightarrow> json \<Rightarrow> conn \<Rightarrow> ('a, 'c, 'o) server \<Rightarrow> (('a, 'c, 'o) server \<times> replies) res" where
  "handle_join se msg ptr sv =
     res_bind (GET_JSON_STRING msg ''roomId'' []) (\<lambda>sroomid.
     res_bind (GET_JSON_STRING msg ''uid'' []) (\<lambda>uid.
       if length sroomid < 1 \<or> length uid < 1 then ok (sv, [])
       else
         res_bind (stoll sroomid) (\<lambda>roomid.
           let (room, sv1) = (case find_room roomid sv of None \<Rightarrow> create_room roomid sv | Some room \<Rightarrow> (room, sv))
           in if map_of (ro_members room) uid \<noteq> None then ok (sv1, [])
              else
                let ret = \<lparr>rp_cmd = ''resp-join'', rp_roomId = sroomid, rp_uid = uid,
                           rp_members = map (\<lambda>(_, m). rm_uid m) (se_members_iter se (ro_members room)), rp_sdp = None\<rparr>;
                    room' = room\<lparr>ro_connections := AList.update uid ptr (ro_connections room),
                                 ro_members := AList.update uid (RoomMember_new (se_env se) uid) (ro_members room)\<rparr>
                in ok ((put_room roomid room' sv1)
                         \<lparr>sv_connections := AList.update (cn_id ptr) roomid (sv_connections sv1)\<rparr>,
                       ws_write ptr ret))))"

text \<open>
  The lines of the SDP of a message: what stands between the first \<^verbatim>\<open>sdp":"\<close> and the last six characters,
  split at the four characters of an escaped line end. A length below zero wraps and takes the rest.
\<close>

definition sdp_start :: string where
  "sdp_start = ''sdp'' @ [CHR 0x22, CHR '':'', CHR 0x22]"

definition escaped_crlf :: string where
  "escaped_crlf = [CHR 0x5C, CHR ''r'', CHR 0x5C, CHR ''n'']"

definition offer_lines :: "string \<Rightarrow> string list option res" where
  "offer_lines sdp =
     (case str_find sdp sdp_start 0 of
        None \<Rightarrow> ok None
      | Some pos \<Rightarrow>
          res_bind
            (if pos + 2 + length sdp_start + 4 \<le> length sdp
             then substr sdp (pos + length sdp_start) (length sdp - pos - 2 - length sdp_start - 4)
             else substr_from sdp (pos + length sdp_start))
            (\<lambda>sdpstr.
          res_bind (split_r sdpstr escaped_crlf) (\<lambda>vecs. ok (if length vecs < 6 then None else Some vecs))))"

text \<open>
  The common part of publish and pull: a port, the answer, and receiving at the port. \<open>peer\<close> is the
  publisher's offer for a pull.
\<close>

definition answer_offer ::
  "('a, 'c, 'o) senv \<Rightarrow> RTCOfferAnswerOptions \<Rightarrow> SessionDescription option \<Rightarrow> 'a RoomMember \<Rightarrow> ('a, 'c, 'o) server \<Rightarrow>
   (('a RoomMember \<times> string) \<times> ('a, 'c, 'o) server) res" where
  "answer_offer se options peer rm sv =
     res_bind (allocate_port (sv_pm sv)) (\<lambda>(p, pm).
       let port = sint p; addr = se_setIp se (sv_ipstr sv) (se_IpAddress se port);
           answer0 = (case peer of None \<Rightarrow> SessionDescription_new | Some o1 \<Rightarrow> set_peer_sdp o1 SessionDescription_new)
       in res_bind (create_answer (se_rand_bytes se) (se_pton6 se) (se_ntop6 se) (se_cert_fp se) options
                      (se_getIp se addr, en_getPort (se_env se) addr) (sv_rng sv) answer0) (\<lambda>(answer1, g).
          res_bind (deref (rm_offer_sdp rm)) (\<lambda>offer.
            let answer = sdp_build offer answer1;
                text = sdp_to_string (se_params_iter se) (se_ntop6 se) answer;
                (rm', w) = start_recv (se_env se) (se_udp_server se) (se_setIp se ''0.0.0.0'' addr)
                             (rm\<lparr>rm_answer_sdp := Some answer\<rparr>) (sv_world sv)
            in ok ((rm', text), sv\<lparr>sv_pm := pm, sv_rng := g, sv_world := w\<rparr>))))"

definition publish_options :: RTCOfferAnswerOptions where
  "publish_options =
     \<lparr>send_audio = False, send_video = False, recv_audio = True, recv_video = True, use_rtcp_mux = True\<rparr>"

definition pull_options :: RTCOfferAnswerOptions where
  "pull_options =
     \<lparr>send_audio = True, send_video = True, recv_audio = False, recv_video = False, use_rtcp_mux = True\<rparr>"

definition put_member :: "int \<Rightarrow> string \<Rightarrow> 'a RoomMember \<Rightarrow> ('a, 'c, 'o) server \<Rightarrow> ('a, 'c, 'o) server" where
  "put_member roomid uid rm sv =
     (case find_room roomid sv of
        None \<Rightarrow> sv
      | Some room \<Rightarrow> put_room roomid (room\<lparr>ro_members := AList.update uid rm (ro_members room)\<rparr>) sv)"

definition handle_publish ::
  "('a, 'c, 'o) senv \<Rightarrow> json \<Rightarrow> conn \<Rightarrow> ('a, 'c, 'o) server \<Rightarrow> (('a, 'c, 'o) server \<times> replies) res" where
  "handle_publish se msg ptr sv =
     res_bind (GET_JSON_STRING msg ''roomId'' []) (\<lambda>sroomid.
     res_bind (GET_JSON_STRING msg ''uid'' []) (\<lambda>uid.
       if length sroomid < 1 \<or> length uid < 1 then ok (sv, [])
       else
         res_bind (stoll sroomid) (\<lambda>roomid.
           case find_room roomid sv of
             None \<Rightarrow> ok (sv, [])
           | Some room \<Rightarrow>
               (case map_of (ro_members room) uid of
                  None \<Rightarrow> ok (sv, [])
                | Some rm \<Rightarrow>
                    res_bind (GET_JSON_STRING msg ''sdp'' []) (\<lambda>sdp.
                    res_bind (offer_lines sdp) (\<lambda>lines.
                      case lines of
                        None \<Rightarrow> ok (sv, [])
                      | Some vecs \<Rightarrow>
                          res_bind (deref (rm_offer_sdp rm)) (\<lambda>offer.
                          res_bind (parse_sdp vecs offer) (\<lambda>(flag, offer').
                            let rm1 = rm\<lparr>rm_offer_sdp := Some offer'\<rparr>
                            in if \<not> flag then ok (put_member roomid uid rm1 sv, [])
                               else
                                 res_bind (answer_offer se publish_options None rm1 sv) (\<lambda>((rm2, text), sv1).
                                   ok (put_member roomid uid rm2 sv1,
                                       ws_write ptr \<lparr>rp_cmd = ''resp-publish'', rp_roomId = sroomid, rp_uid = uid, rp_members = [],
                                                     rp_sdp = Some (''answer'', text)\<rparr>))))))))))"

text \<open>
  A pull differs from a publish: the user subscribes before the offer is parsed, an offer that does not
  parse is answered all the same, and the publisher's offer is read after the puller's has been parsed,
  which matters when they are the same user.
\<close>

definition handle_pull ::
  "('a, 'c, 'o) senv \<Rightarrow> json \<Rightarrow> conn \<Rightarrow> ('a, 'c, 'o) server \<Rightarrow> (('a, 'c, 'o) server \<times> replies) res" where
  "handle_pull se msg ptr sv =
     res_bind (GET_JSON_STRING msg ''roomId'' []) (\<lambda>sroomid.
     res_bind (GET_JSON_STRING msg ''uid'' []) (\<lambda>uid.
     res_bind (GET_JSON_STRING msg ''remote_uid'' []) (\<lambda>remote_uid.
       if length sroomid < 1 \<or> length uid < 1 \<or> length remote_uid < 1 then ok (sv, [])
       else
         res_bind (stoll sroomid) (\<lambda>roomid.
           case find_room roomid sv of
             None \<Rightarrow> ok (sv, [])
           | Some room \<Rightarrow>
               (case (map_of (ro_members room) uid, map_of (ro_members room) remote_uid) of
                  (Some rm, Some _) \<Rightarrow>
                    res_bind (GET_JSON_STRING msg ''sdp'' []) (\<lambda>sdp.
                    res_bind (offer_lines sdp) (\<lambda>lines.
                      case lines of
                        None \<Rightarrow> ok (sv, [])
                      | Some vecs \<Rightarrow>
                          let sv0 = sv\<lparr>sv_sm := sm_add_subscriber uid remote_uid (sv_sm sv)\<rparr>
                          in res_bind (deref (rm_offer_sdp rm)) (\<lambda>offer.
                             res_bind (parse_sdp vecs offer) (\<lambda>(flag, offer').
                               let rm1 = rm\<lparr>rm_offer_sdp := Some offer'\<rparr>
                               in res_bind (deref (map_of (AList.update uid rm1 (ro_members room)) remote_uid)) (\<lambda>peer.
                                  res_bind (answer_offer se pull_options (rm_offer_sdp peer) rm1 sv0) (\<lambda>((rm2, text), sv1).
                                    ok (put_member roomid uid rm2 sv1,
                                        ws_write ptr \<lparr>rp_cmd = ''resp-pullstream'', rp_roomId = sroomid, rp_uid = uid,
                                                      rp_members = [], rp_sdp = Some (''answer'', text)\<rparr>)))))))
                | _ \<Rightarrow> ok (sv, []))))))"

definition sh_handle ::
  "('a, 'c, 'o) senv \<Rightarrow> json \<Rightarrow> conn \<Rightarrow> ('a, 'c, 'o) server \<Rightarrow> (('a, 'c, 'o) server \<times> replies) res" where
  "sh_handle se msg ptr sv =
     res_bind (GET_JSON_STRING msg ''cmd'' []) (\<lambda>cmd.
       if cmd = ''join'' then handle_join se msg ptr sv
       else if cmd = ''publish'' then handle_publish se msg ptr sv
       else if cmd = ''pullstream'' then handle_pull se msg ptr sv
       else ok (sv, []))"

text \<open>
  The member of the first entry for the connection stops receiving, is unsubscribed and erased with the
  entry; a connection that has joined nothing is ignored.
\<close>

definition leave_member ::
  "('a, 'c, 'o) senv \<Rightarrow> 'a RoomMember \<Rightarrow> ('a, 'c, 'o) server \<Rightarrow> ('a, 'c, 'o) server res" where
  "leave_member se rm sv =
     res_bind (stop_recv (se_env se) rm (sv_pm sv) (sv_world sv)) (\<lambda>(rm1, pm, w).
     res_bind (destory rm1 (sv_sm sv) w) (\<lambda>(_, m, w').
       ok (sv\<lparr>sv_pm := pm, sv_sm := m, sv_world := w'\<rparr>)))"

definition sh_remove :: "('a, 'c, 'o) senv \<Rightarrow> conn \<Rightarrow> ('a, 'c, 'o) server \<Rightarrow> ('a, 'c, 'o) server res" where
  "sh_remove se ptr sv =
     (case map_of (sv_connections sv) (cn_id ptr) of
        None \<Rightarrow> ok sv
      | Some roomid \<Rightarrow>
          res_bind
            (case find_room roomid sv of
               None \<Rightarrow> ok sv
             | Some room \<Rightarrow>
                 (case List.find (\<lambda>(_, c). cn_id c = cn_id ptr) (se_conns_iter se (ro_connections room)) of
                    None \<Rightarrow> ok sv
                  | Some (uid, _) \<Rightarrow>
                      let room' = room\<lparr>ro_connections := AList.delete uid (ro_connections room)\<rparr>
                      in (case map_of (ro_members room) uid of
                            None \<Rightarrow> ok (put_room roomid room' sv)
                          | Some rm \<Rightarrow>
                              res_bind (leave_member se rm sv) (\<lambda>sv1.
                                ok (put_room roomid (room'\<lparr>ro_members := AList.delete uid (ro_members room)\<rparr>) sv1)))))
            (\<lambda>sv1. ok (sv1\<lparr>sv_connections := AList.delete (cn_id ptr) (sv_connections sv1)\<rparr>)))"

section \<open>Datagrams\<close>

text \<open>
  The callback \<^verbatim>\<open>start_recv\<close> binds: \<^verbatim>\<open>RoomMember::on_udp_receive\<close> on the member of the socket, called by the
  receiver that opened it. A member that has left is gone; so is the receiver of an earlier publish or
  pull, which \<^verbatim>\<open>start_recv\<close> has replaced and freed while its socket stays bound.
\<close>

definition server_receive ::
  "('a, 'c, 'o) senv \<Rightarrow> int \<Rightarrow> string \<Rightarrow> nat \<Rightarrow> bytes \<Rightarrow> IpAddress \<Rightarrow> ('a, 'c, 'o) server \<Rightarrow> (('a, 'c, 'o) server \<times> sends) res" where
  "server_receive se roomid uid udp data addr sv =
     (case Option.bind (find_room roomid sv) (\<lambda>room. map_of (ro_members room) uid) of
        None \<Rightarrow> crash StalePointer
      | Some rm \<Rightarrow>
          if Option.bind (rm_udp_receiver rm) ur_udp \<noteq> Some udp then crash StalePointer
          else
            res_bind (on_udp_receive (se_env se) udp data addr (rm, sv_sm sv, sv_world sv)) (\<lambda>((rm', m, w), out, _).
              ok ((put_member roomid uid rm' sv)\<lparr>sv_sm := m, sv_world := w\<rparr>, out)))"

section \<open>WssServer\<close>

record ('a, 'c, 'o) wss =
  ws_conn_map :: "(int \<times> conn) list"
  ws_handle :: "('a, 'c, 'o) server"

definition on_newconnection :: "conn \<Rightarrow> ('a, 'c, 'o) wss \<Rightarrow> ('a, 'c, 'o) wss" where
  "on_newconnection conn ws = ws\<lparr>ws_conn_map := AList.update (cn_id conn) conn (ws_conn_map ws)\<rparr>"

text \<open>The flag of the result tells that the connection was closed for its error.\<close>

definition on_message ::
  "('a, 'c, 'o) senv \<Rightarrow> (string \<Rightarrow> json option) \<Rightarrow> int \<Rightarrow> string \<Rightarrow> conn \<Rightarrow> ('a, 'c, 'o) wss \<Rightarrow> (('a, 'c, 'o) wss \<times> replies \<times> bool) res" where
  "on_message se reader error recv_msg ptr ws =
     (if error \<noteq> 0 then ok (ws, [], True)
      else
        (case parseJson reader recv_msg of
           None \<Rightarrow> ok (ws, [], False)
         | Some j \<Rightarrow>
             res_bind (sh_handle se j ptr (ws_handle ws)) (\<lambda>(sv, out). ok (ws\<lparr>ws_handle := sv\<rparr>, out, False))))"

definition on_connection_close :: "('a, 'c, 'o) senv \<Rightarrow> conn \<Rightarrow> ('a, 'c, 'o) wss \<Rightarrow> ('a, 'c, 'o) wss res" where
  "on_connection_close se ptr ws =
     res_bind (sh_remove se ptr (ws_handle ws)) (\<lambda>sv.
       ok (ws\<lparr>ws_handle := sv, ws_conn_map := AList.delete (cn_id ptr) (ws_conn_map ws)\<rparr>))"

section \<open>JuanSfu\<close>

text \<open>\<open>config\<close> is the result of \<^verbatim>\<open>SUtil::readJson\<close>; the second component of the result is the port of the server.\<close>

definition JuanSfu_init :: "json option \<Rightarrow> ('a, 'c, 'o) server \<Rightarrow> (('a, 'c, 'o) server \<times> int) res" where
  "JuanSfu_init config sv =
     (case config of
        None \<Rightarrow> crash AssertFailed
      | Some j \<Rightarrow>
          res_bind (GET_JSON_INT j ''udp_port_start'' 0) (\<lambda>port_start.
          res_bind (GET_JSON_INT j ''udp_port_end'' 0) (\<lambda>port_end.
          res_bind (GET_JSON_INT j ''udp_port_step'' 0) (\<lambda>step.
          res_bind (GET_JSON_INT j ''server_port'' 0) (\<lambda>port.
          res_bind (GET_JSON_STRING j ''server_ip'' []) (\<lambda>ipstr.
            if \<not> (port_end > port_start \<and> step > 0 \<and> port > 0 \<and> length ipstr > 5) then crash AssertFailed
            else
              res_bind (pm_init port_start port_end step (sv_pm sv)) (\<lambda>pm.
                ok (sv\<lparr>sv_pm := pm, sv_ipstr := ipstr\<rparr>, port))))))))"

definition server_new :: "'o rng \<Rightarrow> ('a, 'c, 'o) server" where
  "server_new g =
     \<lparr>sv_all_rooms = [], sv_connections = [], sv_pm = UdpPortManager_new, sv_ipstr = [], sv_sm = RtcStreamMgr_new,
      sv_world = snd media_start, sv_rng = g\<rparr>"

section \<open>Reading a run of a handler\<close>

lemma option_case_ok:
  "(case x of None \<Rightarrow> m | Some y \<Rightarrow> f y) = ok z \<longleftrightarrow> x = None \<and> m = ok z \<or> (\<exists>y. x = Some y \<and> f y = ok z)"
  by (cases x) auto

lemma if_eq_ok: "(if b then m else n) = ok z \<longleftrightarrow> b \<and> m = ok z \<or> \<not> b \<and> n = ok z"
  by simp

lemma prod_case_ok: "(case x of (a, b) \<Rightarrow> f a b) = ok z \<longleftrightarrow> (\<exists>a b. x = (a, b) \<and> f a b = ok z)"
  by (cases x) auto

lemma prod_case_ok2: "(case x of (a, b) \<Rightarrow> f a b) y = ok z \<longleftrightarrow> (\<exists>a b. x = (a, b) \<and> f a b y = ok z)"
  by (cases x) auto

lemmas handler_simps = res_bind_eq_ok option_case_ok if_eq_ok prod_case_ok prod_case_ok2 Let_def prod.inject sum.inject

section \<open>Invariant\<close>

text \<open>
  A member is stored under its uid and has an offer; a room has one connection for each member; every
  connection that has joined names a room; the media plane is well formed.
\<close>

definition member_typed :: "'c srtp_world \<Rightarrow> string \<Rightarrow> 'a RoomMember \<Rightarrow> bool" where
  "member_typed w uid rm = (rm_uid rm = uid \<and> rm_offer_sdp rm \<noteq> None \<and> member_ok w rm)"

definition room_ok :: "'c srtp_world \<Rightarrow> int \<Rightarrow> 'a Room \<Rightarrow> bool" where
  "room_ok w r room =
     (ro_roomid room = r \<and> distinct (map fst (ro_members room)) \<and> distinct (map fst (ro_connections room)) \<and>
      fst ` set (ro_members room) = fst ` set (ro_connections room) \<and>
      (\<forall>(uid, rm) \<in> set (ro_members room). member_typed w uid rm))"

definition server_ok :: "('a, 'c, 'o) server \<Rightarrow> bool" where
  "server_ok sv =
     (distinct (map fst (sv_all_rooms sv)) \<and> distinct (map fst (sv_connections sv)) \<and>
      snd ` set (sv_connections sv) \<subseteq> fst ` set (sv_all_rooms sv) \<and>
      (\<forall>(r, room) \<in> set (sv_all_rooms sv). room_ok (sv_world sv) r room) \<and> media_ok (sv_sm sv) (sv_world sv) \<and>
      finite (dom (heap (sv_world sv))))"

lemma room_ok_mono: "room_ok w r room \<Longrightarrow> grows w w' \<Longrightarrow> room_ok w' r room"
  unfolding room_ok_def member_typed_def by (fastforce intro: member_ok_mono)

lemma server_ok_world:
  assumes "server_ok sv" "grows (sv_world sv) w" "media_ok m w"
    and "sv_all_rooms sv' = sv_all_rooms sv" "sv_connections sv' = sv_connections sv" "sv_world sv' = w" "sv_sm sv' = m"
  shows "server_ok sv'"
  using assms unfolding server_ok_def by (auto simp: grows_def intro: room_ok_mono)

lemma server_ok_room: "server_ok sv \<Longrightarrow> find_room r sv = Some room \<Longrightarrow> room_ok (sv_world sv) r room"
  by (auto simp: server_ok_def find_room_def dest!: map_of_SomeD)

lemma server_ok_member:
  "server_ok sv \<Longrightarrow> find_room r sv = Some room \<Longrightarrow> map_of (ro_members room) uid = Some rm \<Longrightarrow> member_typed (sv_world sv) uid rm"
  using server_ok_room by (fastforce simp: room_ok_def dest!: map_of_SomeD)

lemma put_room_simps [simp]:
  "sv_world (put_room r room sv) = sv_world sv" "sv_sm (put_room r room sv) = sv_sm sv" "sv_pm (put_room r room sv) = sv_pm sv"
  "sv_connections (put_room r room sv) = sv_connections sv" "sv_rng (put_room r room sv) = sv_rng sv"
  "sv_ipstr (put_room r room sv) = sv_ipstr sv"
  by (simp_all add: put_room_def)

lemma update_keys: "fst ` set (AList.update k v al) = insert k (fst ` set al)"
  by (induction al) auto

lemma delete_keys: "fst ` set (AList.delete k al) = fst ` set al - {k}"
  by (auto simp: AList.delete_eq)

lemma put_room_ok: "server_ok sv \<Longrightarrow> room_ok (sv_world sv) r room \<Longrightarrow> server_ok (put_room r room sv)"
  unfolding server_ok_def put_room_def by (auto simp: distinct_update update_keys dest!: alist_update_in)

lemma put_member_ok:
  assumes "server_ok sv" "find_room r sv = Some room" "map_of (ro_members room) uid \<noteq> None" "member_typed (sv_world sv) uid rm"
  shows "server_ok (put_member r uid rm sv)"
proof -
  have "uid \<in> fst ` set (ro_members room)" using assms(3) by (simp add: map_of_eq_None_iff)
  then have "room_ok (sv_world sv) r (room\<lparr>ro_members := AList.update uid rm (ro_members room)\<rparr>)"
    using server_ok_room [OF assms(1,2)] assms(4)
    by (auto simp: room_ok_def distinct_update update_keys dest!: alist_update_in)
  with assms(1,2) show ?thesis by (simp add: put_member_def put_room_ok)
qed

lemma start_recv_same:
  assumes "start_recv env server addr rm w = (rm', w')"
  shows "rm_uid rm' = rm_uid rm \<and> rm_offer_sdp rm' = rm_offer_sdp rm \<and> rm_answer_sdp rm' = rm_answer_sdp rm \<and>
    rm_udp_handles rm' = rm_udp_handles rm \<and> rm_addr rm' = en_parse_addr env addr \<and> rm_udp_receiver rm' \<noteq> None \<and>
    heap w' = heap w \<and> srtp_inited w' = srtp_inited w"
  using assms by (auto simp: start_recv_def ur_start_def split: if_splits option.splits)

lemma media_ok_heap: "heap w' = heap w \<Longrightarrow> media_ok m w' = media_ok m w"
  by (simp add: media_ok_def transport_ok_def)

lemma answer_offerE:
  assumes "answer_offer se options peer rm sv = ok ((rm', text), sv')"
  obtains p pm answer g w where "allocate_port (sv_pm sv) = ok (p, pm)"
    "start_recv (se_env se) (se_udp_server se) (se_setIp se ''0.0.0.0'' (se_setIp se (sv_ipstr sv) (se_IpAddress se (sint p))))
       (rm\<lparr>rm_answer_sdp := Some answer\<rparr>) (sv_world sv) = (rm', w)"
    "sv' = sv\<lparr>sv_pm := pm, sv_rng := g, sv_world := w\<rparr>"
  using assms by (auto simp: answer_offer_def res_bind_eq_ok Let_def prod.case_eq_if) (metis prod.collapse)

lemma answer_offer_same:
  assumes "answer_offer se options peer rm sv = ok ((rm', text), sv')"
  shows "rm_uid rm' = rm_uid rm \<and> rm_offer_sdp rm' = rm_offer_sdp rm \<and> rm_udp_handles rm' = rm_udp_handles rm \<and>
    heap (sv_world sv') = heap (sv_world sv) \<and> sv_sm sv' = sv_sm sv \<and>
    sv_all_rooms sv' = sv_all_rooms sv \<and> sv_connections sv' = sv_connections sv"
  using assms by (elim answer_offerE) (auto dest!: start_recv_same)

lemma answer_offer_ok:
  assumes "answer_offer se options peer rm sv = ok ((rm', text), sv')" "server_ok sv" "member_typed (sv_world sv) uid rm"
  shows "server_ok sv' \<and> member_typed (sv_world sv') uid rm' \<and> sv_all_rooms sv' = sv_all_rooms sv"
proof -
  have s: "rm_uid rm' = rm_uid rm" "rm_offer_sdp rm' = rm_offer_sdp rm" "rm_udp_handles rm' = rm_udp_handles rm"
    "heap (sv_world sv') = heap (sv_world sv)" "sv_sm sv' = sv_sm sv"
    "sv_all_rooms sv' = sv_all_rooms sv" "sv_connections sv' = sv_connections sv"
    using answer_offer_same [OF assms(1)] by simp_all
  then have g: "grows (sv_world sv) (sv_world sv')" by (simp add: grows_def)
  moreover have "media_ok (sv_sm sv) (sv_world sv')" using assms(2) media_ok_heap [OF s(4)] s(5) by (simp add: server_ok_def)
  ultimately have "server_ok sv'" using s by (intro server_ok_world [OF assms(2)]) auto
  moreover have "member_ok (sv_world sv') rm'"
    using member_ok_mono [OF _ g, of rm] assms(3) s by (simp add: member_typed_def member_ok_def)
  ultimately show ?thesis using s assms(3) by (simp add: member_typed_def)
qed

lemma create_room_ok:
  assumes "server_ok sv" "create_room r sv = (room, sv')"
  shows "room = \<lparr>ro_roomid = r, ro_members = [], ro_connections = []\<rparr> \<and> sv' = put_room r room sv \<and> room_ok (sv_world sv) r room"
  using assms by (auto simp: create_room_def room_ok_def Let_def)

lemma joined_room_ok:
  assumes "room_ok w r room"
  shows "room_ok w r (room\<lparr>ro_connections := AList.update uid ptr (ro_connections room),
    ro_members := AList.update uid (RoomMember_new env uid) (ro_members room)\<rparr>)"
  using assms
  by (auto simp: room_ok_def distinct_update update_keys member_typed_def RoomMember_new_def member_ok_def dest!: alist_update_in)

definition joined_room :: "('a, 'c) env \<Rightarrow> string \<Rightarrow> conn \<Rightarrow> 'a Room \<Rightarrow> 'a Room" where
  "joined_room env uid ptr room =
     room\<lparr>ro_connections := AList.update uid ptr (ro_connections room),
          ro_members := AList.update uid (RoomMember_new env uid) (ro_members room)\<rparr>"

lemma handle_joinE:
  assumes "handle_join se msg ptr sv = ok (sv', out)"
  obtains (ignored) "sv' = sv"
  | (repeated) r room where "(case find_room r sv of None \<Rightarrow> create_room r sv | Some room \<Rightarrow> (room, sv)) = (room, sv')"
  | (joined) r uid room sv1 where "(case find_room r sv of None \<Rightarrow> create_room r sv | Some room \<Rightarrow> (room, sv)) = (room, sv1)"
      "map_of (ro_members room) uid = None"
      "sv' = (put_room r (joined_room (se_env se) uid ptr room) sv1)
         \<lparr>sv_connections := AList.update (cn_id ptr) r (sv_connections sv1)\<rparr>"
proof -
  from assms obtain sroomid uid where a: "GET_JSON_STRING msg ''roomId'' [] = ok sroomid" "GET_JSON_STRING msg ''uid'' [] = ok uid"
    by (auto simp: handle_join_def res_bind_eq_ok)
  show thesis
  proof (cases "length sroomid < 1 \<or> length uid < 1")
    case True
    with assms a show thesis by (intro ignored) (auto simp: handle_join_def)
  next
    case False
    with assms a obtain r where r: "stoll sroomid = ok r" by (auto simp: handle_join_def res_bind_eq_ok)
    obtain room sv1 where rs: "(case find_room r sv of None \<Rightarrow> create_room r sv | Some room \<Rightarrow> (room, sv)) = (room, sv1)"
      by (metis surj_pair)
    show thesis
    proof (cases "map_of (ro_members room) uid")
      case (Some rm)
      with assms a False r rs show thesis by (intro repeated) (auto simp: handle_join_def Let_def)
    next
      case None
      with assms a False r rs show thesis by (intro joined) (auto simp: handle_join_def joined_room_def Let_def)
    qed
  qed
qed

lemma found_room_ok:
  assumes "server_ok sv" "(case find_room r sv of None \<Rightarrow> create_room r sv | Some room \<Rightarrow> (room, sv)) = (room, sv1)"
  shows "server_ok sv1 \<and> room_ok (sv_world sv1) r room"
proof (cases "find_room r sv")
  case None
  with assms create_room_ok [OF assms(1), of r room sv1] show ?thesis by (auto intro: put_room_ok)
next
  case (Some room0)
  with assms server_ok_room [OF assms(1) Some] show ?thesis by auto
qed

lemma handle_join_ok:
  assumes "handle_join se msg ptr sv = ok (sv', out)" "server_ok sv"
  shows "server_ok sv'"
  using assms(1)
proof (cases rule: handle_joinE)
  case (joined r uid room sv1)
  note ok1 = found_room_ok [OF assms(2) joined(1)]
  let ?room = "joined_room (se_env se) uid ptr room"
  have put: "server_ok (put_room r ?room sv1)" using ok1 unfolding joined_room_def by (intro put_room_ok joined_room_ok) auto
  have keys: "fst ` set (sv_all_rooms (put_room r ?room sv1)) = insert r (fst ` set (sv_all_rooms sv1))"
    by (simp add: put_room_def update_keys)
  have "snd ` set (sv_connections sv1) \<subseteq> fst ` set (sv_all_rooms sv1)" using ok1 by (simp add: server_ok_def)
  with alist_update_snd [of "cn_id ptr" r "sv_connections sv1"]
  have "snd ` set (AList.update (cn_id ptr) r (sv_connections sv1)) \<subseteq> fst ` set (sv_all_rooms (put_room r ?room sv1))"
    unfolding keys by blast
  with put show ?thesis unfolding joined(3) by (simp add: server_ok_def distinct_update)
qed (use assms(2) found_room_ok in auto)

lemma parsed_member_typed:
  "member_typed w uid rm \<Longrightarrow> member_typed w uid (rm\<lparr>rm_offer_sdp := Some off\<rparr>)"
  by (simp add: member_typed_def member_ok_def)

lemma answered_ok:
  assumes "answer_offer se options peer rm1 sv = ok ((rm2, text), sv1)" "server_ok sv"
    and "find_room r sv = Some room" "map_of (ro_members room) uid = Some rm" "member_typed (sv_world sv) uid rm1"
  shows "server_ok (put_member r uid rm2 sv1)"
proof -
  note a = answer_offer_ok [OF assms(1,2,5)]
  then have "find_room r sv1 = Some room" using assms(3) by (simp add: find_room_def)
  with a assms(4) show ?thesis by (intro put_member_ok) auto
qed

lemma handle_publishE:
  assumes "handle_publish se msg ptr sv = ok (sv', out)"
  obtains (ignored) "sv' = sv"
  | (unparsed) r uid room rm offer' where "find_room r sv = Some room" "map_of (ro_members room) uid = Some rm"
      "sv' = put_member r uid (rm\<lparr>rm_offer_sdp := Some offer'\<rparr>) sv"
  | (answered) r uid room rm offer' rm2 answer_text sv1 where "find_room r sv = Some room" "map_of (ro_members room) uid = Some rm"
      "answer_offer se publish_options None (rm\<lparr>rm_offer_sdp := Some offer'\<rparr>) sv = ok ((rm2, answer_text), sv1)"
      "sv' = put_member r uid rm2 sv1"
  using assms that unfolding handle_publish_def handler_simps
  by (elim exE conjE disjE) blast+

lemma handle_publish_ok:
  assumes "handle_publish se msg ptr sv = ok (sv', out)" "server_ok sv"
  shows "server_ok sv'"
  using assms(1)
proof (cases rule: handle_publishE)
  case (unparsed r uid room rm offer')
  with put_member_ok [OF assms(2) unparsed(1)] parsed_member_typed [OF server_ok_member [OF assms(2) unparsed(1,2)]]
  show ?thesis by auto
next
  case (answered r uid room rm offer' rm2 answer_text sv1)
  from answered_ok [OF answered(3) assms(2) answered(1,2) parsed_member_typed [OF server_ok_member [OF assms(2) answered(1,2)]]]
  show ?thesis unfolding answered(4) .
qed (use assms in simp)

lemma handle_pullE:
  assumes "handle_pull se msg ptr sv = ok (sv', out)"
  obtains (ignored) "sv' = sv"
  | (answered) r uid remote room rm offer' peer_offer rm2 answer_text sv1 where
      "find_room r sv = Some room" "map_of (ro_members room) uid = Some rm"
      "answer_offer se pull_options peer_offer (rm\<lparr>rm_offer_sdp := Some offer'\<rparr>)
         (sv\<lparr>sv_sm := sm_add_subscriber uid remote (sv_sm sv)\<rparr>) = ok ((rm2, answer_text), sv1)"
      "sv' = put_member r uid rm2 sv1"
  using assms that unfolding handle_pull_def handler_simps
  by (elim exE conjE disjE) blast+

lemma subscribe_ok: "server_ok sv \<Longrightarrow> server_ok (sv\<lparr>sv_sm := sm_add_subscriber uid remote (sv_sm sv)\<rparr>)"
  using media_step_ok [OF media_step.subscribe, of "sv_sm sv" "sv_world sv" uid remote] by (simp add: server_ok_def)

lemma handle_pull_ok:
  assumes "handle_pull se msg ptr sv = ok (sv', out)" "server_ok sv"
  shows "server_ok sv'"
  using assms(1)
proof (cases rule: handle_pullE)
  case (answered r uid remote room rm offer' peer_offer rm2 answer_text sv1)
  let ?sv0 = "sv\<lparr>sv_sm := sm_add_subscriber uid remote (sv_sm sv)\<rparr>"
  have f: "find_room r ?sv0 = Some room" using answered(1) by (simp add: find_room_def)
  have "member_typed (sv_world ?sv0) uid (rm\<lparr>rm_offer_sdp := Some offer'\<rparr>)"
    using parsed_member_typed [OF server_ok_member [OF assms(2) answered(1,2)]] by simp
  from answered_ok [OF answered(3) subscribe_ok [OF assms(2)] f answered(2) this]
  show ?thesis unfolding answered(4) .
qed (use assms in simp)

lemma sh_handle_ok: "sh_handle se msg ptr sv = ok (sv', out) \<Longrightarrow> server_ok sv \<Longrightarrow> server_ok sv'"
  unfolding sh_handle_def handler_simps using handle_join_ok handle_publish_ok handle_pull_ok by blast

lemma stop_recv_world:
  assumes "stop_recv env rm pm w = ok (rm', pm', w')"
  shows "heap w' = heap w \<and> rm_uid rm' = rm_uid rm \<and> rm_addr rm' = rm_addr rm \<and>
    (case rm_udp_receiver rm of None \<Rightarrow> pm' = pm | Some _ \<Rightarrow> recycle_port (word_of_int (en_getPort env (rm_addr rm))) pm = ok pm')"
  using assms unfolding stop_recv_def ur_stop_def handler_simps by (elim exE conjE disjE) auto

lemma leave_member_rooms:
  "leave_member se rm sv = ok sv' \<Longrightarrow> sv_all_rooms sv' = sv_all_rooms sv \<and> sv_connections sv' = sv_connections sv"
  unfolding leave_member_def handler_simps by auto

lemma leave_member_ok:
  assumes "leave_member se rm sv = ok sv'" "server_ok sv"
  shows "server_ok sv' \<and> sv_all_rooms sv' = sv_all_rooms sv \<and> sv_connections sv' = sv_connections sv"
proof -
  from assms(1) obtain rm1 pm w rm2 m w' where s: "stop_recv (se_env se) rm (sv_pm sv) (sv_world sv) = ok (rm1, pm, w)"
    "sm_remove_subscriber (rm_uid rm1) (sv_sm sv) w = ok (m, w')" "sv' = sv\<lparr>sv_pm := pm, sv_sm := m, sv_world := w'\<rparr>"
    unfolding leave_member_def destory_def handler_simps by (elim exE conjE) blast
  have h: "heap w = heap (sv_world sv)" using stop_recv_world [OF s(1)] by simp
  have "media_ok (sv_sm sv) w" using assms(2) media_ok_heap [OF h] by (simp add: server_ok_def)
  then have "media_ok m w'" using s(2) by (rule sm_remove_subscriber_ok)
  moreover have "grows w w'" using media_step_grows [OF media_step.unsubscribe [OF s(2)]] by simp
  then have "grows (sv_world sv) w'" using h by (simp add: grows_def)
  ultimately have "server_ok sv'" using s(3) by (intro server_ok_world [OF assms(2)]) auto
  with s(3) show ?thesis by simp
qed

lemma sh_removeE:
  assumes "sh_remove se ptr sv = ok sv'"
  obtains (unknown) "sv' = sv"
  | (no_entry) "sv' = sv\<lparr>sv_connections := AList.delete (cn_id ptr) (sv_connections sv)\<rparr>"
  | (no_member) r room uid c where "find_room r sv = Some room" "map_of (ro_members room) uid = None"
      "List.find (\<lambda>(_, c). cn_id c = cn_id ptr) (se_conns_iter se (ro_connections room)) = Some (uid, c)"
  | (left) r room uid c rm sv1 where "find_room r sv = Some room"
      "List.find (\<lambda>(_, c). cn_id c = cn_id ptr) (se_conns_iter se (ro_connections room)) = Some (uid, c)"
      "map_of (ro_members room) uid = Some rm" "leave_member se rm sv = ok sv1"
      "sv' = (put_room r (room\<lparr>ro_connections := AList.delete uid (ro_connections room),
                             ro_members := AList.delete uid (ro_members room)\<rparr>) sv1)
         \<lparr>sv_connections := AList.delete (cn_id ptr) (sv_connections sv1)\<rparr>"
proof (cases "map_of (sv_connections sv) (cn_id ptr)")
  case None
  with assms show thesis by (intro unknown) (simp add: sh_remove_def)
next
  case (Some r)
  note r = this
  show thesis
  proof (cases "find_room r sv")
    case None
    with assms r show thesis by (intro no_entry) (simp add: sh_remove_def)
  next
    case (Some room)
    note room = this
    show thesis
    proof (cases "List.find (\<lambda>(_, c). cn_id c = cn_id ptr) (se_conns_iter se (ro_connections room))")
      case None
      with assms r room show thesis by (intro no_entry) (simp add: sh_remove_def)
    next
      case (Some uc)
      then obtain uid c where u: "List.find (\<lambda>(_, c). cn_id c = cn_id ptr) (se_conns_iter se (ro_connections room)) = Some (uid, c)"
        by (cases uc) simp
      show thesis
      proof (cases "map_of (ro_members room) uid")
        case None
        with room u show thesis by (intro no_member)
      next
        case (Some rm)
        with assms r room u obtain sv1 where "leave_member se rm sv = ok sv1"
          by (auto simp: sh_remove_def res_bind_eq_ok)
        with assms r room u Some show thesis by (intro left) (auto simp: sh_remove_def)
      qed
    qed
  qed
qed

text \<open>What the iterations and the allocator rely on.\<close>

definition senv_ok :: "('a, 'c, 'o) senv \<Rightarrow> bool" where
  "senv_ok se =
     ((\<forall>xs. set (se_conns_iter se xs) = set xs) \<and> (\<forall>w. finite (dom (heap w)) \<longrightarrow> heap w (en_alloc (se_env se) w) = None))"

lemma find_conn:
  assumes "senv_ok se" "List.find (\<lambda>(_, c). cn_id c = i) (se_conns_iter se conns) = Some (uid, c)"
  shows "(uid, c) \<in> set conns \<and> cn_id c = i"
proof -
  from assms(2) have "(uid, c) \<in> set (se_conns_iter se conns)" "cn_id c = i"
    by (auto simp: find_Some_iff) (metis nth_mem)
  with assms(1) show ?thesis by (simp add: senv_ok_def)
qed

lemma delete_in: "x \<in> set (AList.delete k al) \<longleftrightarrow> x \<in> set al \<and> fst x \<noteq> k"
  by (auto simp: AList.delete_eq)

lemma left_room_ok:
  assumes "room_ok w r room"
  shows "room_ok w r (room\<lparr>ro_connections := AList.delete uid (ro_connections room), ro_members := AList.delete uid (ro_members room)\<rparr>)"
  using assms by (auto simp: room_ok_def distinct_delete delete_keys delete_in)

lemma delete_conns_ok:
  "server_ok sv \<Longrightarrow> server_ok (sv\<lparr>sv_connections := AList.delete i (sv_connections sv)\<rparr>)"
  using alist_delete_snd [of i "sv_connections sv"] by (auto simp: server_ok_def distinct_delete)

lemma sh_remove_ok:
  assumes "sh_remove se ptr sv = ok sv'" "server_ok sv" "senv_ok se"
  shows "server_ok sv'"
  using assms(1)
proof (cases rule: sh_removeE)
  case (no_member r room uid c)
  have "uid \<in> fst ` set (ro_connections room)" using find_conn [OF assms(3) no_member(3)] by force
  then have "uid \<in> fst ` set (ro_members room)" using server_ok_room [OF assms(2) no_member(1)] by (simp add: room_ok_def)
  with no_member(2) show ?thesis by (simp add: map_of_eq_None_iff)
next
  case (left r room uid c rm sv1)
  note l = leave_member_ok [OF left(4) assms(2)]
  then have "find_room r sv1 = Some room" using left(1) by (simp add: find_room_def)
  with l have "room_ok (sv_world sv1) r room" by (auto intro: server_ok_room)
  from put_room_ok [OF _ left_room_ok [OF this, of uid]] l
  have "server_ok (put_room r (room\<lparr>ro_connections := AList.delete uid (ro_connections room),
      ro_members := AList.delete uid (ro_members room)\<rparr>) sv1)" by simp
  from delete_conns_ok [OF this, of "cn_id ptr"] show ?thesis unfolding left(5) by simp
qed (use assms(2) delete_conns_ok in auto)

lemma on_udp_receive_member:
  assumes "on_udp_receive env udp data addr (rm, m, w) = ok ((rm', m', w'), out, consumed)"
  shows "\<exists>h. rm' = rm\<lparr>rm_udp_handles := h\<rparr>"
  using assms unfolding on_udp_receive_def handler_simps by (elim exE conjE disjE) auto

lemma server_receiveE:
  assumes "server_receive se r uid udp data addr sv = ok (sv', out)"
  obtains room rm rm' m w b where "find_room r sv = Some room" "map_of (ro_members room) uid = Some rm"
    "on_udp_receive (se_env se) udp data addr (rm, sv_sm sv, sv_world sv) = ok ((rm', m, w), out, b)"
    "sv' = (put_member r uid rm' sv)\<lparr>sv_sm := m, sv_world := w\<rparr>"
  using assms unfolding server_receive_def handler_simps
  by (cases "Option.bind (find_room r sv) (\<lambda>room. map_of (ro_members room) uid)")
    (auto simp: bind_eq_Some_conv handler_simps split: if_splits)

lemma server_receive_ok:
  assumes "server_receive se r uid udp data addr sv = ok (sv', out)" "server_ok sv" "senv_ok se"
  shows "server_ok sv'"
proof -
  from assms(1) obtain room rm rm' m w b where f: "find_room r sv = Some room" "map_of (ro_members room) uid = Some rm"
    and o: "on_udp_receive (se_env se) udp data addr (rm, sv_sm sv, sv_world sv) = ok ((rm', m, w), out, b)"
    and sv': "sv' = (put_member r uid rm' sv)\<lparr>sv_sm := m, sv_world := w\<rparr>"
    by (rule server_receiveE)
  note t = server_ok_member [OF assms(2) f]
  have s: "(media_step (en_lib (se_env se)) (en_iter (se_env se)))\<^sup>*\<^sup>* (sv_sm sv, sv_world sv) (m, w)" "member_ok w rm'"
    using on_udp_receive_steps [OF o] t assms(2,3) by (auto simp: member_typed_def senv_ok_def server_ok_def)
  have g: "grows (sv_world sv) w" using media_steps_grow [OF s(1)] by simp
  have "media_ok (fst (m, w)) (snd (m, w))"
    using s(1) assms(2) by (induction rule: rtranclp_induct) (auto simp: server_ok_def intro: media_step_ok)
  then have sv1: "server_ok (sv\<lparr>sv_sm := m, sv_world := w\<rparr>)" (is "server_ok ?sv1")
    using g by (intro server_ok_world [OF assms(2), of w m]) auto
  obtain h where "rm' = rm\<lparr>rm_udp_handles := h\<rparr>" using on_udp_receive_member [OF o] by blast
  then have "member_typed (sv_world ?sv1) uid rm'" using t s(2) by (simp add: member_typed_def)
  moreover have "find_room r ?sv1 = Some room" using f(1) by (simp add: find_room_def)
  ultimately have "server_ok (put_member r uid rm' ?sv1)" using sv1 f(2) by (intro put_member_ok) auto
  moreover have "put_member r uid rm' ?sv1 = sv'"
    unfolding sv' using f(1) by (simp add: put_member_def put_room_def find_room_def)
  ultimately show ?thesis by simp
qed

section \<open>The server as a state machine\<close>

inductive server_step :: "('a, 'c, 'o) senv \<Rightarrow> ('a, 'c, 'o) server \<Rightarrow> ('a, 'c, 'o) server \<Rightarrow> bool" for se where
  message: "sh_handle se msg ptr sv = ok (sv', replies) \<Longrightarrow> server_step se sv sv'"
| closed: "sh_remove se ptr sv = ok sv' \<Longrightarrow> server_step se sv sv'"
| datagram: "server_receive se r uid udp data addr sv = ok (sv', out) \<Longrightarrow> server_step se sv sv'"

lemma server_steps_ok:
  assumes "(server_step se)\<^sup>*\<^sup>* sv sv'" "server_ok sv" "senv_ok se"
  shows "server_ok sv'"
  using assms(1)
proof (induction rule: rtranclp_induct)
  case (step sv1 sv2)
  from step.hyps(2) step.IH show ?case
    by (cases rule: server_step.cases) (auto intro: sh_handle_ok sh_remove_ok server_receive_ok assms(3))
qed (rule assms(2))

section \<open>The ports of the members\<close>

definition member_port :: "('a, 'c, 'o) senv \<Rightarrow> 'a RoomMember \<Rightarrow> u32 multiset" where
  "member_port se rm =
     (if rm_udp_receiver rm = None then {#} else {#word_of_int (en_getPort (se_env se) (rm_addr rm))#})"

definition room_ports :: "('a, 'c, 'o) senv \<Rightarrow> 'a Room \<Rightarrow> u32 multiset" where
  "room_ports se room = sum_list (map (member_port se \<circ> snd) (ro_members room))"

definition held_ports :: "('a, 'c, 'o) senv \<Rightarrow> ('a, 'c, 'o) server \<Rightarrow> u32 multiset" where
  "held_ports se sv = sum_list (map (room_ports se \<circ> snd) (sv_all_rooms sv))"

text \<open>An address made for a port reports that port; ports have 16 bits.\<close>

definition address_law :: "('a, 'c, 'o) senv \<Rightarrow> bool" where
  "address_law se =
     (\<forall>ip p. 0 \<le> p \<and> p < 65536 \<longrightarrow>
        en_getPort (se_env se) (en_parse_addr (se_env se) (se_setIp se ''0.0.0.0'' (se_setIp se ip (se_IpAddress se p)))) = p)"

lemma sum_update_new:
  fixes f :: "'v \<Rightarrow> 'm :: comm_monoid_add"
  shows "map_of al k = None \<Longrightarrow> sum_list (map (f \<circ> snd) (AList.update k v al)) = sum_list (map (f \<circ> snd) al) + f v"
  by (induction al) (auto simp: add.assoc split: if_splits)

lemma sum_update_old:
  fixes f :: "'v \<Rightarrow> 'm :: comm_monoid_add"
  shows "map_of al k = Some v \<Longrightarrow>
    sum_list (map (f \<circ> snd) (AList.update k v' al)) + f v = sum_list (map (f \<circ> snd) al) + f v'"
  by (induction al) (auto simp: algebra_simps split: if_splits)

lemma sum_delete:
  fixes f :: "'v \<Rightarrow> 'm :: comm_monoid_add"
  shows "distinct (map fst al) \<Longrightarrow> map_of al k = Some v \<Longrightarrow>
    sum_list (map (f \<circ> snd) (AList.delete k al)) + f v = sum_list (map (f \<circ> snd) al)"
proof (induction al)
  case (Cons x al)
  show ?case
  proof (cases "fst x = k")
    case True
    with Cons.prems have "AList.delete k al = al" "snd x = v"
      by (auto intro: AList.delete_idem)
    with True show ?thesis by (cases x) (simp add: add.commute)
  next
    case False
    with Cons show ?thesis by (cases x) (simp add: algebra_simps)
  qed
qed simp

lemma held_put_room:
  assumes "find_room r sv = Some room"
  shows "held_ports se (put_room r room' sv) + room_ports se room = held_ports se sv + room_ports se room'"
  using sum_update_old [of "sv_all_rooms sv" r room "room_ports se" room'] assms
  by (simp add: held_ports_def put_room_def find_room_def)

lemma held_put_room_new:
  "find_room r sv = None \<Longrightarrow> held_ports se (put_room r room sv) = held_ports se sv + room_ports se room"
  using sum_update_new [of "sv_all_rooms sv" r "room_ports se" room]
  by (simp add: held_ports_def put_room_def find_room_def)

lemma held_put_member:
  assumes "find_room r sv = Some room" "map_of (ro_members room) uid = Some rm"
  shows "held_ports se (put_member r uid rm' sv) + member_port se rm = held_ports se sv + member_port se rm'"
proof -
  let ?room = "room\<lparr>ro_members := AList.update uid rm' (ro_members room)\<rparr>"
  have "room_ports se ?room + member_port se rm = room_ports se room + member_port se rm'"
    using sum_update_old [OF assms(2), of "member_port se" rm'] by (simp add: room_ports_def)
  then have "held_ports se (put_room r ?room sv) + room_ports se room + member_port se rm =
      held_ports se sv + (room_ports se room + member_port se rm')"
    using held_put_room [OF assms(1), of se ?room] by (simp add: add.assoc)
  then show ?thesis using assms(1) by (simp add: put_member_def algebra_simps)
qed

lemma held_same_rooms [simp]:
  "held_ports se (sv\<lparr>sv_connections := c\<rparr>) = held_ports se sv" "held_ports se (sv\<lparr>sv_sm := m\<rparr>) = held_ports se sv"
  "held_ports se (sv\<lparr>sv_sm := m, sv_world := w\<rparr>) = held_ports se sv"
  by (simp_all add: held_ports_def)

lemma held_rooms: "sv_all_rooms sv' = sv_all_rooms sv \<Longrightarrow> held_ports se sv' = held_ports se sv"
  by (simp add: held_ports_def)

abbreviation nonzero :: "u32 multiset \<Rightarrow> u32 multiset" where
  "nonzero M \<equiv> filter_mset (\<lambda>p. p \<noteq> 0) M"

text \<open>The valid ports that members hold or that are free are among the configured ones, each at most as often.\<close>

definition ports_inv :: "('a, 'c, 'o) senv \<Rightarrow> u32 multiset \<Rightarrow> ('a, 'c, 'o) server \<Rightarrow> bool" where
  "ports_inv se ports sv = (pm_ok (sv_pm sv) \<and> nonzero (held_ports se sv + free_ports (sv_pm sv)) \<subseteq># ports)"

lemma port_take:
  assumes "pm_ok pm" "allocate_port pm = ok (p, pm')"
  shows "pm_ok pm' \<and> nonzero (add_mset p (free_ports pm')) = nonzero (free_ports pm)"
  using allocate_port_spec [OF assms(1)] assms(2) by (auto split: if_splits)

lemma port_give:
  assumes "pm_ok pm" "recycle_port p pm = ok pm'"
  shows "pm_ok pm' \<and> free_ports pm' \<subseteq># add_mset p (free_ports pm)"
proof (cases "pm_recycle pm < pm_max pm")
  case True
  with recycle_port_spec [OF assms(1) True, of p] assms(2) show ?thesis by auto
next
  case False
  with assms have "pm' = pm" by (simp add: recycle_port_def)
  with assms(1) show ?thesis by simp
qed

lemma handle_join_ports:
  assumes "handle_join se msg ptr sv = ok (sv', out)"
  shows "held_ports se sv' = held_ports se sv \<and> sv_pm sv' = sv_pm sv"
proof -
  have found: "held_ports se sv1 = held_ports se sv \<and> sv_pm sv1 = sv_pm sv \<and> find_room r sv1 = Some room"
    if "(case find_room r sv of None \<Rightarrow> create_room r sv | Some room \<Rightarrow> (room, sv)) = (room, sv1)" for r room sv1
  proof (cases "find_room r sv")
    case None
    with that show ?thesis
      by (auto simp: create_room_def held_put_room_new room_ports_def Let_def) (simp add: find_room_def put_room_def update_conv)
  qed (use that in auto)
  from assms show ?thesis
  proof (cases rule: handle_joinE)
    case (joined r uid room sv1)
    have "room_ports se (joined_room (se_env se) uid ptr room) = room_ports se room"
      using sum_update_new [OF joined(2), of "member_port se" "RoomMember_new (se_env se) uid"]
      by (simp add: room_ports_def joined_room_def member_port_def RoomMember_new_def)
    then have "held_ports se (put_room r (joined_room (se_env se) uid ptr room) sv1) = held_ports se sv1"
      using held_put_room [of r sv1 room se "joined_room (se_env se) uid ptr room"] found [OF joined(1)] by simp
    with found [OF joined(1)] joined(3) show ?thesis by simp
  qed (use found in auto)
qed

lemma put_member_pm [simp]: "sv_pm (put_member r uid rm sv) = sv_pm sv"
  by (simp add: put_member_def split: option.split)

lemma parsed_port [simp]: "member_port se (rm\<lparr>rm_offer_sdp := x\<rparr>) = member_port se rm"
  by (simp add: member_port_def)

lemma sint_small:
  assumes "unat (p :: u32) < 65536"
  shows "sint p = int (unat p)"
proof -
  have "uint p < 65536" using assms by (metis of_nat_less_iff of_nat_numeral uint_nat)
  then have "uint p < 2 ^ 31" by simp
  moreover have "- (2 ^ 31) \<le> uint p" using uint_ge_0 [of p] by (rule order_trans [rotated]) simp
  ultimately have "signed_take_bit 31 (uint p) = uint p" by (intro signed_take_bit_int_eq_self)
  then show ?thesis by (simp add: sint_uint)
qed

text \<open>A member that is answered takes its port from the pool and gives up none, even if it had one.\<close>

lemma answered_ports:
  assumes "answer_offer se options peer rm1 sv = ok ((rm2, answer_text), sv1)"
    and "find_room r sv = Some room" "map_of (ro_members room) uid = Some rm"
    and "address_law se" "\<forall>p \<in># ports. unat p < 65536" "ports_inv se ports sv"
  shows "ports_inv se ports (put_member r uid rm2 sv1)"
proof -
  from assms(1) obtain p pm answer g w where p: "allocate_port (sv_pm sv) = ok (p, pm)"
    and s: "start_recv (se_env se) (se_udp_server se) (se_setIp se ''0.0.0.0'' (se_setIp se (sv_ipstr sv) (se_IpAddress se (sint p))))
      (rm1\<lparr>rm_answer_sdp := Some answer\<rparr>) (sv_world sv) = (rm2, w)"
    and sv1: "sv1 = sv\<lparr>sv_pm := pm, sv_rng := g, sv_world := w\<rparr>"
    by (elim answer_offerE)
  have take: "pm_ok pm" "nonzero (add_mset p (free_ports pm)) = nonzero (free_ports (sv_pm sv))"
    using port_take [OF _ p] assms(6) by (auto simp: ports_inv_def)
  have "unat p < 65536"
  proof (cases "p = 0")
    case False
    then have "p \<in># nonzero (free_ports (sv_pm sv))" unfolding take(2) [symmetric] by simp
    moreover have "nonzero (free_ports (sv_pm sv)) \<subseteq># ports"
      using assms(6) unfolding ports_inv_def filter_union_mset by (meson mset_subset_eq_add_right subset_mset.order_trans)
    ultimately have "p \<in># ports" by (rule mset_subset_eqD [rotated])
    with assms(5) show ?thesis by blast
  qed simp
  then have sint: "sint p = int (unat p)" by (rule sint_small)
  then have "0 \<le> sint p" "sint p < 65536" using \<open>unat p < 65536\<close> by linarith+
  with assms(4) have law: "en_getPort (se_env se) (en_parse_addr (se_env se)
      (se_setIp se ''0.0.0.0'' (se_setIp se (sv_ipstr sv) (se_IpAddress se (sint p))))) = sint p"
    unfolding address_law_def by blast
  have port: "member_port se rm2 = {#p#}"
    using start_recv_same [OF s] law by (simp only: member_port_def) simp
  have "find_room r sv1 = Some room" using assms(2) sv1 by (simp add: find_room_def)
  from held_put_member [OF this assms(3), of se rm2] port
  have "held_ports se (put_member r uid rm2 sv1) + member_port se rm = add_mset p (held_ports se sv)"
    using held_rooms [of sv1 sv se] sv1 by simp
  then have "held_ports se (put_member r uid rm2 sv1) \<subseteq># add_mset p (held_ports se sv)"
    by (metis mset_subset_eq_add_left)
  then have "nonzero (held_ports se (put_member r uid rm2 sv1) + free_ports pm) \<subseteq># nonzero (add_mset p (held_ports se sv) + free_ports pm)"
    by (intro multiset_filter_mono subset_mset.add_right_mono)
  also have "nonzero (add_mset p (held_ports se sv) + free_ports pm) = nonzero (held_ports se sv) + nonzero (add_mset p (free_ports pm))"
    by simp
  also have "\<dots> \<subseteq># ports" using assms(6) unfolding take(2) by (simp add: ports_inv_def)
  finally show ?thesis using take(1) sv1 by (simp add: ports_inv_def)
qed

lemma unparsed_ports:
  assumes "find_room r sv = Some room" "map_of (ro_members room) uid = Some rm" "member_port se rm' = member_port se rm"
  shows "held_ports se (put_member r uid rm' sv) = held_ports se sv"
  using held_put_member [OF assms(1,2), of se rm'] assms(3) by simp

lemma sh_handle_ports:
  assumes "sh_handle se msg ptr sv = ok (sv', out)"
    and "address_law se" "\<forall>p \<in># ports. unat p < 65536" "ports_inv se ports sv"
  shows "ports_inv se ports sv'"
proof -
  consider "sv' = sv" | "handle_join se msg ptr sv = ok (sv', out)" | "handle_publish se msg ptr sv = ok (sv', out)"
    | "handle_pull se msg ptr sv = ok (sv', out)"
    using assms(1) unfolding sh_handle_def handler_simps by blast
  then show ?thesis
  proof cases
    case 2
    from handle_join_ports [OF this] assms(4) show ?thesis by (simp add: ports_inv_def)
  next
    case 3
    then show ?thesis
    proof (cases rule: handle_publishE)
      case (unparsed r uid room rm offer')
      with unparsed_ports [OF unparsed(1,2), of se "rm\<lparr>rm_offer_sdp := Some offer'\<rparr>"] assms(4)
      show ?thesis by (simp add: ports_inv_def)
    next
      case (answered r uid room rm offer' rm2 answer_text sv1)
      from answered_ports [OF answered(3,1,2) assms(2-4)] show ?thesis unfolding answered(4) .
    qed (use assms(4) in simp)
  next
    case 4
    then show ?thesis
    proof (cases rule: handle_pullE)
      case (answered r uid remote room rm offer' peer_offer rm2 answer_text sv1)
      have "ports_inv se ports (sv\<lparr>sv_sm := sm_add_subscriber uid remote (sv_sm sv)\<rparr>)" using assms(4) by (simp add: ports_inv_def)
      from answered_ports [OF answered(3) _ answered(2) assms(2,3) this, of r] answered(1)
      show ?thesis unfolding answered(4) by (simp add: find_room_def)
    qed (use assms(4) in simp)
  qed (use assms(4) in simp)
qed

lemma leave_member_ports:
  assumes "leave_member se rm sv = ok sv1" "pm_ok (sv_pm sv)"
  shows "pm_ok (sv_pm sv1) \<and> free_ports (sv_pm sv1) \<subseteq># free_ports (sv_pm sv) + member_port se rm"
proof -
  from assms(1) obtain rm1 pm w m w' where s: "stop_recv (se_env se) rm (sv_pm sv) (sv_world sv) = ok (rm1, pm, w)"
    "sv1 = sv\<lparr>sv_pm := pm, sv_sm := m, sv_world := w'\<rparr>"
    unfolding leave_member_def handler_simps by (elim exE conjE) blast
  from stop_recv_world [OF s(1)] port_give [OF assms(2)] assms(2) s(2) show ?thesis
    by (cases "rm_udp_receiver rm") (auto simp: member_port_def)
qed

lemma sh_remove_ports:
  assumes "sh_remove se ptr sv = ok sv'" "server_ok sv" "senv_ok se" "ports_inv se ports sv"
  shows "ports_inv se ports sv'"
  using assms(1)
proof (cases rule: sh_removeE)
  case (no_member r room uid c)
  have "uid \<in> fst ` set (ro_connections room)" using find_conn [OF assms(3) no_member(3)] by force
  then have "uid \<in> fst ` set (ro_members room)" using server_ok_room [OF assms(2) no_member(1)] by (simp add: room_ok_def)
  with no_member(2) show ?thesis by (simp add: map_of_eq_None_iff)
next
  case (left r room uid c rm sv1)
  let ?room = "room\<lparr>ro_connections := AList.delete uid (ro_connections room), ro_members := AList.delete uid (ro_members room)\<rparr>"
  note l = leave_member_ok [OF left(4) assms(2)]
  have f: "find_room r sv1 = Some room" using left(1) l by (simp add: find_room_def)
  have "distinct (map fst (ro_members room))" using server_ok_room [OF assms(2) left(1)] by (simp add: room_ok_def)
  from sum_delete [OF this left(3), of "member_port se"]
  have r: "room_ports se ?room + member_port se rm = room_ports se room" by (simp add: room_ports_def)
  have "held_ports se (put_room r ?room sv1) + room_ports se room = held_ports se sv + room_ports se ?room"
    using held_put_room [OF f, of se ?room] held_rooms [of sv1 sv se] l by simp
  then have "held_ports se (put_room r ?room sv1) + member_port se rm + room_ports se ?room = held_ports se sv + room_ports se ?room"
    unfolding r [symmetric] by (simp add: algebra_simps)
  then have h: "held_ports se (put_room r ?room sv1) + member_port se rm = held_ports se sv" by simp
  have p: "pm_ok (sv_pm sv1)" "free_ports (sv_pm sv1) \<subseteq># free_ports (sv_pm sv) + member_port se rm"
    using leave_member_ports [OF left(4)] assms(4) by (auto simp: ports_inv_def)
  have "held_ports se (put_room r ?room sv1) + free_ports (sv_pm sv1) \<subseteq>#
      held_ports se (put_room r ?room sv1) + (free_ports (sv_pm sv) + member_port se rm)"
    using p(2) by (rule subset_mset.add_left_mono)
  also have "\<dots> = held_ports se sv + free_ports (sv_pm sv)" unfolding h [symmetric] by (simp add: algebra_simps)
  finally have "nonzero (held_ports se (put_room r ?room sv1) + free_ports (sv_pm sv1)) \<subseteq># nonzero (held_ports se sv + free_ports (sv_pm sv))"
    by (rule multiset_filter_mono)
  also have "\<dots> \<subseteq># ports" using assms(4) unfolding ports_inv_def by (rule conjunct2)
  finally show ?thesis using p(1) left(5) by (simp add: ports_inv_def)
qed (use assms(4) in \<open>auto simp: ports_inv_def\<close>)

lemma server_receive_ports:
  assumes "server_receive se r uid udp data addr sv = ok (sv', out)" "ports_inv se ports sv"
  shows "ports_inv se ports sv'"
proof -
  from assms(1) obtain room rm rm' m w b where f: "find_room r sv = Some room" "map_of (ro_members room) uid = Some rm"
    and o: "on_udp_receive (se_env se) udp data addr (rm, sv_sm sv, sv_world sv) = ok ((rm', m, w), out, b)"
    and sv': "sv' = (put_member r uid rm' sv)\<lparr>sv_sm := m, sv_world := w\<rparr>"
    by (rule server_receiveE)
  obtain h where "rm' = rm\<lparr>rm_udp_handles := h\<rparr>" using on_udp_receive_member [OF o] by blast
  then have "member_port se rm' = member_port se rm" by (simp add: member_port_def)
  from unparsed_ports [OF f this] assms(2) sv' show ?thesis by (simp add: ports_inv_def)
qed

lemma server_steps_ports:
  assumes "(server_step se)\<^sup>*\<^sup>* sv sv'" "server_ok sv" "senv_ok se"
    and "address_law se" "\<forall>p \<in># ports. unat p < 65536" "ports_inv se ports sv"
  shows "ports_inv se ports sv'"
  using assms(1)
proof (induction rule: rtranclp_induct)
  case (step sv1 sv2)
  have "server_ok sv1" using step.hyps(1) assms(2,3) by (rule server_steps_ok)
  with step.hyps(2) step.IH show ?case
    using sh_handle_ports [OF _ assms(4,5)] sh_remove_ports [OF _ _ assms(3)] server_receive_ports
    by (cases rule: server_step.cases) blast+
qed (rule assms(6))

section \<open>A concrete server\<close>

definition sample_senv :: "(nat, bytes, nat) senv" where
  "sample_senv =
     \<lparr>se_env = sample_env\<lparr>en_alloc := (\<lambda>w. LEAST t. heap w t = None)\<rparr>, se_rand_bytes = sample_rand,
      se_pton6 = (\<lambda>_. None), se_ntop6 = (\<lambda>_. None),
      se_cert_fp = Some \<lparr>fp_algorithm = ''sha-256'', fp_digest = [1]\<rparr>, se_params_iter = id, se_members_iter = id, se_conns_iter = id,
      se_IpAddress = (\<lambda>p. ip_address_of (word_of_int p) 0), se_setIp = (\<lambda>ip a. a\<lparr>ip_text := ip\<rparr>), se_getIp = ip_text,
      se_udp_server = True\<rparr>"

lemma sample_senv_ok: "senv_ok sample_senv"
proof -
  have "heap w (LEAST t. heap w t = None) = None" if "finite (dom (heap w))" for w :: "bytes srtp_world"
  proof -
    from ex_new_if_finite [OF infinite_UNIV_nat that] obtain t where "t \<notin> dom (heap w)" ..
    then have "heap w t = None" by auto
    then show ?thesis by (rule LeastI)
  qed
  then show ?thesis by (simp add: senv_ok_def sample_senv_def)
qed

lemma sample_address_law: "address_law sample_senv"
proof -
  have "uint (word_of_int p :: u16) = p" if "0 \<le> p" "p < 65536" for p
    using that by (simp add: uint_word_of_int)
  then show ?thesis by (simp add: address_law_def sample_senv_def sample_env_def ip_address_of_def)
qed

definition sample_start :: "(nat, bytes, nat) server" where
  "sample_start = (server_new \<lparr>rg_test = None, rg_os = 3\<rparr>)\<lparr>sv_pm := sample_pool, sv_ipstr := ''10.0.0.1''\<rparr>"

definition sample_join :: json where
  "sample_join = JObject [(''cmd'', JString ''join''), (''roomId'', JString ''7''), (''uid'', JString ''amy'')]"

definition sample_room :: "nat Room" where
  "sample_room = \<lparr>ro_roomid = 7, ro_members = [(''amy'', RoomMember_new (se_env sample_senv) ''amy'')],
                  ro_connections = [(''amy'', \<lparr>cn_id = 1, cn_ws = True\<rparr>)]\<rparr>"

lemma sample_joins:
  "sh_handle sample_senv sample_join \<lparr>cn_id = 1, cn_ws = True\<rparr> sample_start =
     ok (sample_start\<lparr>sv_all_rooms := [(7, sample_room)], sv_connections := [(1, 7)]\<rparr>,
         [(1, \<lparr>rp_cmd = ''resp-join'', rp_roomId = ''7'', rp_uid = ''amy'', rp_members = [], rp_sdp = None\<rparr>)])"
proof -
  have "stoll ''7'' = ok 7" by code_simp
  moreover have "se_members_iter sample_senv [] = []" by (simp add: sample_senv_def)
  ultimately show ?thesis
    by (simp add: sh_handle_def sample_join_def GET_JSON_STRING_def json_member_def handle_join_def find_room_def create_room_def
        put_room_def sample_start_def server_new_def sample_room_def ws_write_def Let_def)
qed

lemma start_ok: "server_ok ((server_new g)\<lparr>sv_pm := pm, sv_ipstr := ip\<rparr>)"
proof -
  have "media_ok RtcStreamMgr_new (snd media_start :: 'd srtp_world)"
    by (simp add: media_start_def RtcStreamMgr_new_def media_ok_def)
  then show ?thesis by (simp add: server_ok_def server_new_def media_start_def)
qed

section \<open>Joining twice\<close>

definition join_msg :: "string \<Rightarrow> string \<Rightarrow> json" where
  "join_msg sroomid uid = JObject [(''cmd'', JString ''join''), (''roomId'', JString sroomid), (''uid'', JString uid)]"

lemma join_msg_sample: "join_msg ''7'' ''amy'' = sample_join"
  by (simp add: join_msg_def sample_join_def)

definition joined :: "('a, 'c, 'o) senv \<Rightarrow> string \<Rightarrow> conn \<Rightarrow> 'a Room \<Rightarrow> 'a Room" where
  "joined se uid ptr room =
     room\<lparr>ro_connections := AList.update uid ptr (ro_connections room),
          ro_members := AList.update uid (RoomMember_new (se_env se) uid) (ro_members room)\<rparr>"

lemma find_put_room: "find_room r (put_room r' room sv) = (if r = r' then Some room else find_room r sv)"
  by (simp add: find_room_def put_room_def update_conv)

lemma put_room_connections: "sv_connections (put_room r room sv) = sv_connections sv"
  by (simp add: put_room_def)

lemma join_answered:
  assumes "sh_handle se (join_msg s uid) ptr sv = ok (sv', out)" "out \<noteq> []" "stoll s = ok r"
  shows "\<exists>room. find_room r sv' = Some (joined se uid ptr room) \<and>
    (\<forall>r'. r' \<noteq> r \<longrightarrow> find_room r' sv' = find_room r' sv) \<and> map_of (sv_connections sv') (cn_id ptr) = Some r \<and>
    (find_room r sv = Some room \<or> ro_connections room = [])"
proof -
  define room where "room = (case find_room r sv of Some room \<Rightarrow> room | None \<Rightarrow> \<lparr>ro_roomid = r, ro_members = [], ro_connections = []\<rparr>)"
  obtain sv1 where sv1: "(case find_room r sv of None \<Rightarrow> create_room r sv | Some room \<Rightarrow> (room, sv)) = (room, sv1)"
    "\<forall>r'. r' \<noteq> r \<longrightarrow> find_room r' sv1 = find_room r' sv" "sv_connections sv1 = sv_connections sv"
  proof (cases "find_room r sv")
    case None
    then show thesis
      by (intro that [of "put_room r room sv"]) (simp_all add: room_def create_room_def find_put_room put_room_connections Let_def)
  qed (use that [of sv] in \<open>simp add: room_def\<close>)
  have "sv' = (put_room r (joined se uid ptr room) sv1)\<lparr>sv_connections := AList.update (cn_id ptr) r (sv_connections sv1)\<rparr>"
    using assms sv1(1)
    by (auto simp: sh_handle_def join_msg_def GET_JSON_STRING_def json_member_def handle_join_def Let_def joined_def split: if_splits)
  then have "find_room r sv' = Some (joined se uid ptr room)" "\<forall>r'. r' \<noteq> r \<longrightarrow> find_room r' sv' = find_room r' sv"
    "map_of (sv_connections sv') (cn_id ptr) = Some r"
    using sv1(2) find_put_room [of _ r "joined se uid ptr room" sv1] by (auto simp: find_room_def update_conv)
  moreover have "find_room r sv = Some room \<or> ro_connections room = []" by (simp add: room_def split: option.split)
  ultimately show ?thesis by blast
qed

lemma update_entries: "x \<in> set (AList.update k v al) \<Longrightarrow> x = (k, v) \<or> x \<in> set al"
  by (induction al) (auto split: if_splits)

lemma close_only_entry:
  assumes "senv_ok se" "sh_remove se ptr sv = ok sv'" "map_of (sv_connections sv) (cn_id ptr) = Some r"
    and "find_room r sv = Some (joined se uid ptr room)" "\<forall>c \<in> snd ` set (ro_connections room). cn_id c \<noteq> cn_id ptr"
  shows "find_room r sv' = Some ((joined se uid ptr room)\<lparr>ro_connections := AList.delete uid (ro_connections (joined se uid ptr room)),
      ro_members := AList.delete uid (ro_members (joined se uid ptr room))\<rparr>) \<and>
    (\<forall>r'. r' \<noteq> r \<longrightarrow> find_room r' sv' = find_room r' sv) \<and> map_of (sv_connections sv') (cn_id ptr) = None"
proof -
  let ?room = "joined se uid ptr room" let ?P = "\<lambda>(_, c). cn_id c = cn_id ptr"
  let ?found = "List.find ?P (se_conns_iter se (ro_connections ?room))"
  have "(uid, ptr) \<in> set (ro_connections ?room)"
    by (intro map_of_SomeD) (simp add: joined_def update_Some_unfold)
  then have "(uid, ptr) \<in> set (se_conns_iter se (ro_connections ?room))" using assms(1) by (simp add: senv_ok_def)
  then have "?found \<noteq> None" by (auto simp: find_None_iff)
  then obtain uid' c where f: "?found = Some (uid', c)" by auto
  from find_conn [OF assms(1) f] assms(5) have "uid' = uid"
    by (auto simp: joined_def dest!: update_entries)
  note f = f [unfolded this]
  have m: "map_of (ro_members ?room) uid = Some (RoomMember_new (se_env se) uid)"
    by (simp add: joined_def update_Some_unfold)
  from assms(2-4) f m obtain sv1 where sv1: "leave_member se (RoomMember_new (se_env se) uid) sv = ok sv1"
    "sv' = (put_room r (?room\<lparr>ro_connections := AList.delete uid (ro_connections ?room),
              ro_members := AList.delete uid (ro_members ?room)\<rparr>) sv1)
         \<lparr>sv_connections := AList.delete (cn_id ptr) (sv_connections sv1)\<rparr>"
    by (auto simp: sh_remove_def Let_def res_bind_eq_ok put_room_def)
  from leave_member_rooms [OF sv1(1)] have "find_room r' sv1 = find_room r' sv" for r' by (simp add: find_room_def)
  with find_put_room [of _ r _ sv1] show ?thesis unfolding sv1(2) by (simp add: find_room_def map_of_delete)
qed

section \<open>Properties\<close>

text \<open>
  C4: In every state the server reaches, through messages, datagrams and closing connections in any order,
  every member is stored under its own uid with an offer, every room has exactly one connection for each
  of its members, every connection that has joined names an existing room, and all references of the
  members and of the media plane are valid.
\<close>
theorem server_stays_well_formed:
  assumes "(server_step se)\<^sup>*\<^sup>* ((server_new g)\<lparr>sv_pm := pm, sv_ipstr := ip\<rparr>) sv" "senv_ok se"
  shows "server_ok sv"
  using assms(1) start_ok assms(2) by (rule server_steps_ok)

lemma server_stays_well_formed_witness:
  "server_ok (sample_start\<lparr>sv_all_rooms := [(7, sample_room)], sv_connections := [(1, 7)]\<rparr>)"
proof -
  have "server_step sample_senv sample_start (sample_start\<lparr>sv_all_rooms := [(7, sample_room)], sv_connections := [(1, 7)]\<rparr>)"
    by (rule server_step.message [OF sample_joins])
  then show ?thesis
    using server_stays_well_formed [OF r_into_rtranclp sample_senv_ok] unfolding sample_start_def by blast
qed

text \<open>
  C5: Members never share a port, and no port of a member is free: from a pool over a range of valid ports,
  after any sequence of messages, datagrams and closed connections, a port other than the error value 0
  is held by at most one member and then not free.
\<close>
theorem members_never_share_a_port:
  assumes "pm_init start end_port step UdpPortManager_new = ok pm" "0 < start" "0 < step" "start + step \<le> end_port" "end_port \<le> 65536"
    and "(server_step se)\<^sup>*\<^sup>* ((server_new g)\<lparr>sv_pm := pm, sv_ipstr := ip\<rparr>) sv" "senv_ok se" "address_law se" "p \<noteq> 0"
  shows "count (held_ports se sv) p + count (free_ports (sv_pm sv)) p \<le> 1"
proof -
  define n where "n = nat ((end_port - start) div step)"
  define ports where "ports = mset (map (port_at start step) [0..<n])"
  have n: "int n * step \<le> end_port - start"
    using assms(3,4) by (simp add: n_def pos_imp_zdiv_nonneg_iff minus_mod_eq_div_mult [symmetric])
  have bound: "unat (port_at start step i) < 65536" if "i < n" for i
  proof -
    have "(int i + 1) * step \<le> int n * step" using that assms(3) by (intro mult_right_mono) auto
    moreover have "(int i + 1) * step = int i * step + step" by (simp add: distrib_right)
    ultimately have s: "start + int i * step < 65536" using n assms(3,5) by linarith
    have "0 \<le> int i * step" using assms(3) by simp
    then have "uint (port_at start step i) = start + int i * step"
      unfolding port_at_def uint_word_of_int using s assms(2) by (intro mod_pos_pos_trivial) simp_all
    with s have "int (unat (port_at start step i)) < 65536" by simp
    then show ?thesis by linarith
  qed
  have "start + int n * step < 2 ^ 32" using n assms(5) by simp
  from port_at_inj [OF assms(3,2) this] have "distinct (map (port_at start step) [0..<n])" by (simp add: distinct_map)
  then have once: "count ports p \<le> 1" unfolding ports_def by (metis distinct_count_atmost_1 le_refl zero_le)
  have "free_ports pm = ports" "pm_ok pm"
    using pm_init_spec [of step end_port start UdpPortManager_new] assms(1,3,4)
    by (auto simp: ports_def n_def UdpPortManager_new_def)
  then have "ports_inv se ports ((server_new g)\<lparr>sv_pm := pm, sv_ipstr := ip\<rparr>)"
    by (simp add: ports_inv_def held_ports_def server_new_def)
  from server_steps_ports [OF assms(6) start_ok assms(7,8) _ this] bound
  have "nonzero (held_ports se sv + free_ports (sv_pm sv)) \<subseteq># ports" by (auto simp: ports_inv_def ports_def)
  from mset_subset_eq_count [OF this, of p] assms(9) once show ?thesis by simp
qed

lemma members_never_share_a_port_witness:
  "count (held_ports sample_senv (sample_start\<lparr>sv_all_rooms := [(7, sample_room)], sv_connections := [(1, 7)]\<rparr>)) 5002 +
     count (free_ports sample_pool) 5002 \<le> 1"
proof -
  have "server_step sample_senv sample_start (sample_start\<lparr>sv_all_rooms := [(7, sample_room)], sv_connections := [(1, 7)]\<rparr>)"
    by (rule server_step.message [OF sample_joins])
  then have "(server_step sample_senv)\<^sup>*\<^sup>* ((server_new \<lparr>rg_test = None, rg_os = 3\<rparr>)\<lparr>sv_pm := sample_pool, sv_ipstr := ''10.0.0.1''\<rparr>)
      (sample_start\<lparr>sv_all_rooms := [(7, sample_room)], sv_connections := [(1, 7)]\<rparr>)"
    unfolding sample_start_def by (rule r_into_rtranclp)
  from members_never_share_a_port [OF sample_pool_init _ _ _ _ this sample_senv_ok sample_address_law, of 5002]
  show ?thesis by (simp add: sample_start_def)
qed

text \<open>
  C40: A connection that joins two rooms leaves only the second when it closes: after two answered joins in
  different rooms, closing removes the member from the second room and forgets the connection, while
  the first room keeps the member and its connection for good, for closing again changes nothing.
\<close>
theorem first_of_two_rooms_leaks:
  assumes "senv_ok se" "stoll s1 = ok r1" "stoll s2 = ok r2" "r1 \<noteq> r2"
    and "sh_handle se (join_msg s1 u1) ptr sv = ok (sv1, out1)" "out1 \<noteq> []"
    and "sh_handle se (join_msg s2 u2) ptr sv1 = ok (sv2, out2)" "out2 \<noteq> []"
    and "\<forall>room. find_room r2 sv = Some room \<longrightarrow> (\<forall>c \<in> snd ` set (ro_connections room). cn_id c \<noteq> cn_id ptr)"
    and "sh_remove se ptr sv2 = ok sv3"
  shows "\<exists>room1 room2. find_room r1 sv3 = Some room1 \<and> find_room r2 sv3 = Some room2 \<and>
    map_of (ro_members room1) u1 = Some (RoomMember_new (se_env se) u1) \<and> map_of (ro_connections room1) u1 = Some ptr \<and>
    map_of (ro_members room2) u2 = None \<and> map_of (ro_connections room2) u2 = None \<and>
    map_of (sv_connections sv3) (cn_id ptr) = None \<and> sh_remove se ptr sv3 = ok sv3"
proof -
  obtain room1 where j1: "find_room r1 sv1 = Some (joined se u1 ptr room1)"
    "\<forall>r. r \<noteq> r1 \<longrightarrow> find_room r sv1 = find_room r sv" using join_answered [OF assms(5,6,2)] by blast
  obtain room2 where j2: "find_room r2 sv2 = Some (joined se u2 ptr room2)"
    "\<forall>r. r \<noteq> r2 \<longrightarrow> find_room r sv2 = find_room r sv1" "map_of (sv_connections sv2) (cn_id ptr) = Some r2"
    and old: "find_room r2 sv1 = Some room2 \<or> ro_connections room2 = []"
    using join_answered [OF assms(7,8,3)] by blast
  have only: "\<forall>c \<in> snd ` set (ro_connections room2). cn_id c \<noteq> cn_id ptr"
    using old assms(4,9) j1(2) by auto
  from close_only_entry [OF assms(1,10) j2(3,1) only] have left: "find_room r2 sv3 = Some ((joined se u2 ptr room2)
      \<lparr>ro_connections := AList.delete u2 (ro_connections (joined se u2 ptr room2)),
       ro_members := AList.delete u2 (ro_members (joined se u2 ptr room2))\<rparr>)"
    "\<forall>r. r \<noteq> r2 \<longrightarrow> find_room r sv3 = find_room r sv2" "map_of (sv_connections sv3) (cn_id ptr) = None"
    by blast+
  from left(3) have "sh_remove se ptr sv3 = ok sv3" by (simp add: sh_remove_def)
  with left j1(1) j2(2) assms(4) show ?thesis by (simp add: joined_def map_of_delete update_Some_unfold)
qed

lemma first_of_two_rooms_leaks_witness:
  "\<exists>sv2 sv3. sh_handle sample_senv (join_msg ''8'' ''amy'') \<lparr>cn_id = 1, cn_ws = True\<rparr>
       (sample_start\<lparr>sv_all_rooms := [(7, sample_room)], sv_connections := [(1, 7)]\<rparr>) = ok sv2 \<and>
     sh_remove sample_senv \<lparr>cn_id = 1, cn_ws = True\<rparr> (fst sv2) = ok sv3 \<and> find_room 7 sv3 \<noteq> None \<and>
     map_of (sv_connections sv3) 1 = None"
proof -
  let ?ptr = "\<lparr>cn_id = 1, cn_ws = True\<rparr>" let ?rm = "RoomMember_new (se_env sample_senv) ''amy''"
  let ?room8 = "\<lparr>ro_roomid = 8, ro_members = [(''amy'', ?rm)], ro_connections = [(''amy'', ?ptr)]\<rparr>"
  let ?sv1 = "sample_start\<lparr>sv_all_rooms := [(7, sample_room)], sv_connections := [(1, 7)]\<rparr>"
  let ?sv2 = "sample_start\<lparr>sv_all_rooms := [(7, sample_room), (8, ?room8)], sv_connections := [(1, 8)]\<rparr>"
  let ?sv3 = "sample_start\<lparr>sv_all_rooms := [(7, sample_room), (8, \<lparr>ro_roomid = 8, ro_members = [], ro_connections = []\<rparr>)],
    sv_connections := []\<rparr>"
  let ?reply = "[(1, \<lparr>rp_cmd = ''resp-join'', rp_roomId = ''8'', rp_uid = ''amy'', rp_members = [], rp_sdp = None\<rparr>)]"
  have r: "stoll ''7'' = ok 7" "stoll ''8'' = ok 8" by code_simp+
  have i: "se_members_iter sample_senv [] = []" by (simp add: sample_senv_def)
  have j8: "sh_handle sample_senv (join_msg ''8'' ''amy'') ?ptr ?sv1 = ok (?sv2, ?reply)"
    by (simp add: sh_handle_def join_msg_def GET_JSON_STRING_def json_member_def handle_join_def find_room_def create_room_def
        put_room_def sample_start_def server_new_def ws_write_def Let_def r i)
  have lv: "leave_member sample_senv ?rm ?sv2 = ok ?sv2"
    by (simp add: leave_member_def stop_recv_def destory_def sm_remove_subscriber_def RoomMember_new_def sample_start_def
        server_new_def RtcStreamMgr_new_def)
  have cl: "sh_remove sample_senv ?ptr ?sv2 = ok ?sv3"
    using lv by (simp add: sh_remove_def find_room_def put_room_def sample_senv_def)
  from first_of_two_rooms_leaks [OF sample_senv_ok r _ sample_joins [folded join_msg_sample] _ j8 _ _ cl] j8 cl
  show ?thesis by (fastforce simp: find_room_def sample_start_def server_new_def)
qed

end
