(* ===== verification/Base64.thy ===== *)
theory Base64
  imports SfuBase
begin

text \<open>
  \<^verbatim>\<open>rtc_base/base64/base64.cc\<close>: the base64 encoder and the decoder with its parse, pad and
  termination options.

  Text is a HOL string, its characters index the decode table by their code. The decoder keeps the
  position it has reached; the rest of the text is \<open>drop dpos data\<close>.
\<close>

section \<open>Tables and options\<close>

definition kPad :: char where "kPad = CHR ''=''"

definition pd :: byte where "pd = 0xFD"

definition sp :: byte where "sp = 0xFE"

definition il :: byte where "il = 0xFF"

definition Base64Table :: string where
  "Base64Table = ''ABCDEFGHIJKLMNOPQRSTUVWXYZabcdefghijklmnopqrstuvwxyz0123456789+/''"

definition DecodeTable :: bytes where
  "DecodeTable = [
    il, il, il, il, il, il, il, il, il, sp,
    sp, sp, sp, sp, il, il, il, il, il, il,
    il, il, il, il, il, il, il, il, il, il,
    il, il, sp, il, il, il, il, il, il, il,
    il, il, il, 62, il, il, il, 63, 52, 53,
    54, 55, 56, 57, 58, 59, 60, 61, il, il,
    il, pd, il, il, il, 0, 1, 2, 3, 4,
    5, 6, 7, 8, 9, 10, 11, 12, 13, 14,
    15, 16, 17, 18, 19, 20, 21, 22, 23, 24,
    25, il, il, il, il, il, il, 26, 27, 28,
    29, 30, 31, 32, 33, 34, 35, 36, 37, 38,
    39, 40, 41, 42, 43, 44, 45, 46, 47, 48,
    49, 50, 51, il, il, il, il, il, il, il,
    il, il, il, il, il, il, il, il, il, il,
    il, il, il, il, il, il, il, il, il, il,
    il, il, il, il, il, il, il, il, il, il,
    il, il, il, il, il, il, il, il, il, il,
    il, il, il, il, il, il, il, il, il, il,
    il, il, il, il, il, il, il, il, il, il,
    il, il, il, il, il, il, il, il, il, il,
    il, il, il, il, il, il, il, il, il, il,
    il, il, il, il, il, il, il, il, il, il,
    il, il, il, il, il, il, il, il, il, il,
    il, il, il, il, il, il, il, il, il, il,
    il, il, il, il, il, il, il, il, il, il,
    il, il, il, il, il, il]"

definition DO_PARSE_STRICT :: int where "DO_PARSE_STRICT = 1"
definition DO_PARSE_WHITE :: int where "DO_PARSE_WHITE = 2"
definition DO_PARSE_ANY :: int where "DO_PARSE_ANY = 3"
definition DO_PARSE_MASK :: int where "DO_PARSE_MASK = 3"
definition DO_PAD_YES :: int where "DO_PAD_YES = 4"
definition DO_PAD_ANY :: int where "DO_PAD_ANY = 8"
definition DO_PAD_NO :: int where "DO_PAD_NO = 12"
definition DO_PAD_MASK :: int where "DO_PAD_MASK = 12"
definition DO_TERM_BUFFER :: int where "DO_TERM_BUFFER = 16"
definition DO_TERM_CHAR :: int where "DO_TERM_CHAR = 32"
definition DO_TERM_ANY :: int where "DO_TERM_ANY = 48"
definition DO_TERM_MASK :: int where "DO_TERM_MASK = 48"
definition DO_STRICT :: int where "DO_STRICT = DO_PARSE_STRICT OR DO_PAD_YES OR DO_TERM_BUFFER"
definition DO_LAX :: int where "DO_LAX = DO_PARSE_ANY OR DO_PAD_ANY OR DO_TERM_CHAR"

lemmas base64_options = DO_PARSE_STRICT_def DO_PARSE_WHITE_def DO_PARSE_ANY_def DO_PARSE_MASK_def DO_PAD_YES_def
  DO_PAD_ANY_def DO_PAD_NO_def DO_PAD_MASK_def DO_TERM_BUFFER_def DO_TERM_CHAR_def DO_TERM_ANY_def DO_TERM_MASK_def
  DO_STRICT_def DO_LAX_def

section \<open>Characters\<close>

definition char_between :: "char \<Rightarrow> char \<Rightarrow> char \<Rightarrow> bool" where
  "char_between a c b = ((of_char a :: nat) \<le> of_char c \<and> (of_char c :: nat) \<le> of_char b)"

definition IsBase64Char :: "char \<Rightarrow> bool" where
  "IsBase64Char ch =
     (char_between (CHR ''A'') ch (CHR ''Z'') \<or> char_between (CHR ''a'') ch (CHR ''z'') \<or>
      char_between (CHR ''0'') ch (CHR ''9'') \<or> ch = CHR ''+'' \<or> ch = CHR ''/'')"

definition IsBase64Encoded :: "string \<Rightarrow> bool" where
  "IsBase64Encoded str = list_all IsBase64Char str"

text \<open>
  The successor in the table, around its end. \<^verbatim>\<open>strchr\<close> also finds the terminator, and the step behind
  it leaves the array.
\<close>

definition GetNextBase64Char :: "char \<Rightarrow> char option res" where
  "GetNextBase64Char ch =
     (case str_find (Base64Table @ [CHR 0x00]) [ch] 0 of
        None \<Rightarrow> ok None
      | Some p \<Rightarrow>
          res_bind (nth_res (Base64Table @ [CHR 0x00]) (Suc p))
            (\<lambda>c. ok (Some (if c \<noteq> CHR 0x00 then c else Base64Table ! 0))))"

section \<open>The encoder\<close>

definition b64 :: "byte \<Rightarrow> char" where
  "b64 c = Base64Table ! unat c"

fun EncodeFromArray :: "bytes \<Rightarrow> string" where
  "EncodeFromArray [] = []"
| "EncodeFromArray [x] = [b64 (drop_bit 2 x AND 0x3f), b64 (push_bit 4 x AND 0x3f), kPad, kPad]"
| "EncodeFromArray [x, y] =
     [b64 (drop_bit 2 x AND 0x3f), b64 ((push_bit 4 x AND 0x3f) OR (drop_bit 4 y AND 0x0f)),
      b64 (push_bit 2 y AND 0x3f), kPad]"
| "EncodeFromArray (x # y # z # rest) =
     [b64 (drop_bit 2 x AND 0x3f), b64 ((push_bit 4 x AND 0x3f) OR (drop_bit 4 y AND 0x0f)),
      b64 ((push_bit 2 y AND 0x3f) OR (drop_bit 6 z AND 0x03)), b64 (z AND 0x3f)] @ EncodeFromArray rest"

definition Encode :: "bytes \<Rightarrow> string" where
  "Encode data = EncodeFromArray data"

section \<open>The decoder\<close>

text \<open>
  One quantum: up to four characters of data. \<open>quantum_loop\<close> is the loop over the rest of the text; it
  returns \<^verbatim>\<open>byte_len\<close>, \<^verbatim>\<open>pad_len\<close>, \<^verbatim>\<open>pad_start\<close>, \<^verbatim>\<open>*dpos\<close> and \<^verbatim>\<open>qbuf\<close>.
\<close>

fun quantum_loop ::
    "int \<Rightarrow> bool \<Rightarrow> string \<Rightarrow> nat \<Rightarrow> nat \<Rightarrow> nat \<Rightarrow> nat \<Rightarrow> bytes \<Rightarrow> nat \<times> nat \<times> nat \<times> nat \<times> bytes" where
  "quantum_loop parse_flags illegal_pads [] byte_len pad_len pad_start dpos qbuf =
     (byte_len, pad_len, pad_start, dpos, qbuf)"
| "quantum_loop parse_flags illegal_pads (ch # rest) byte_len pad_len pad_start dpos qbuf =
     (if \<not> byte_len < 4 then (byte_len, pad_len, pad_start, dpos, qbuf)
      else let q = DecodeTable ! of_char ch; qbuf = qbuf[byte_len := q];
               break = (byte_len, pad_len, pad_start, dpos, qbuf);
               skip = quantum_loop parse_flags illegal_pads rest byte_len pad_len pad_start (Suc dpos) qbuf
        in if q = il \<or> illegal_pads \<and> q = pd then (if parse_flags \<noteq> DO_PARSE_ANY then break else skip)
           else if q = sp then (if parse_flags = DO_PARSE_STRICT then break else skip)
           else if q = pd then
             (if byte_len < 2 then (if parse_flags \<noteq> DO_PARSE_ANY then break else skip)
              else if 4 \<le> byte_len + pad_len then (if parse_flags \<noteq> DO_PARSE_ANY then break else skip)
              else quantum_loop parse_flags illegal_pads rest byte_len (Suc pad_len)
                     (if Suc pad_len = 1 then dpos else pad_start) (Suc dpos) qbuf)
           else if 0 < pad_len \<and> parse_flags \<noteq> DO_PARSE_ANY then break
           else quantum_loop parse_flags illegal_pads rest (Suc byte_len) 0 pad_start (Suc dpos) qbuf)"

text \<open>The result is \<^verbatim>\<open>byte_len\<close>, the new position, the four values and whether the quantum is padded.\<close>

definition GetNextQuantum :: "int \<Rightarrow> bool \<Rightarrow> string \<Rightarrow> nat \<Rightarrow> bytes \<Rightarrow> nat \<times> nat \<times> bytes \<times> bool" where
  "GetNextQuantum parse_flags illegal_pads data dpos qbuf =
     (case quantum_loop parse_flags illegal_pads (drop dpos data) 0 0 0 dpos qbuf of
        (byte_len, pad_len, pad_start, dpos', qbuf') \<Rightarrow>
          let qbuf'' = take byte_len qbuf' @ replicate (4 - byte_len) 0
          in if byte_len + pad_len = 4 then (byte_len, dpos', qbuf'', True)
             else (byte_len, (if 0 < pad_len then pad_start else dpos'), qbuf'', False))"

text \<open>A quantum never ends in front of its start, and a full one has taken at least one character.\<close>

lemma quantum_loop_dpos:
  "quantum_loop f ip r bl pl ps dpos q = (bl', pl', ps', dpos', q') \<Longrightarrow> dpos + bl' \<le> dpos' + bl"
  by (induction f ip r bl pl ps dpos q rule: quantum_loop.induct)
    (fastforce simp: Let_def split: if_splits)+

lemma quantum_loop_full:
  "quantum_loop f ip r bl pl ps dpos q = (bl', pl', ps', dpos', q') \<Longrightarrow> (4 \<le> bl \<longrightarrow> bl = 4 \<and> pl = 0) \<Longrightarrow>
    4 \<le> bl' \<Longrightarrow> bl' = 4 \<and> pl' = 0"
  by (induction f ip r bl pl ps dpos q rule: quantum_loop.induct)
    (fastforce simp: Let_def split: if_splits)+

lemma GetNextQuantum_progress:
  "GetNextQuantum f ip data dpos q = (4, dpos', q', p) \<Longrightarrow> dpos < dpos'"
  by (auto simp: GetNextQuantum_def Let_def split: prod.splits if_splits
      dest: quantum_loop_dpos quantum_loop_full)

text \<open>The loop of \<^verbatim>\<open>DecodeFromArrayTemplate\<close>: success, the bytes pushed and the final position.\<close>

function decode_loop :: "int \<Rightarrow> int \<Rightarrow> int \<Rightarrow> string \<Rightarrow> nat \<Rightarrow> bytes \<Rightarrow> bool \<times> bytes \<times> nat" where
  "decode_loop parse_flags pad_flags term_flags data dpos qbuf =
     (if \<not> dpos < length data then (True, [], dpos)
      else case GetNextQuantum parse_flags (DO_PAD_NO = pad_flags) data dpos qbuf of
        (qlen, dpos', qbuf', padded) \<Rightarrow>
          let c1 = push_bit 2 (qbuf' ! 0) OR (drop_bit 4 (qbuf' ! 1) AND 0x3);
              c2 = (push_bit 4 (qbuf' ! 1) AND 0xf0) OR (drop_bit 2 (qbuf' ! 2) AND 0xf);
              c3 = (push_bit 6 (qbuf' ! 2) AND 0xc0) OR qbuf' ! 3
          in if qlen = 4 then
               (case decode_loop parse_flags pad_flags term_flags data dpos' qbuf' of
                  (success, out, pos) \<Rightarrow> (success, [c1, c2, c3] @ out, pos))
             else
               let c = (if 3 \<le> qlen then c3 else if 2 \<le> qlen then c2 else c1);
                   out = (if 3 \<le> qlen then [c1, c2] else if 2 \<le> qlen then [c1] else [])
               in (\<not> (DO_TERM_ANY \<noteq> term_flags \<and> 0 \<noteq> c) \<and> \<not> (DO_PAD_YES = pad_flags \<and> \<not> padded), out, dpos'))"
  by pat_completeness auto
termination
  by (relation "measure (\<lambda>(_, _, _, data, dpos, _). length data - dpos)")
    (auto dest!: GetNextQuantum_progress [OF sym])

declare decode_loop.simps [simp del]

text \<open>Success, the result and \<^verbatim>\<open>*data_used\<close>; every cell of \<^verbatim>\<open>qbuf\<close> is written before it is read.\<close>

definition DecodeFromArray :: "string \<Rightarrow> int \<Rightarrow> bool \<times> bytes \<times> nat" where
  "DecodeFromArray data flags =
     (let parse_flags = flags AND DO_PARSE_MASK; pad_flags = flags AND DO_PAD_MASK;
          term_flags = flags AND DO_TERM_MASK
      in case decode_loop parse_flags pad_flags term_flags data 0 (replicate 4 0) of
           (success, result, dpos) \<Rightarrow>
             (success \<and> \<not> (DO_TERM_BUFFER = term_flags \<and> dpos \<noteq> length data), result, dpos))"

definition Decode :: "string \<Rightarrow> int \<Rightarrow> bytes" where
  "Decode data flags = fst (snd (DecodeFromArray data flags))"

section \<open>The tables agree\<close>

definition table_code :: "nat \<Rightarrow> byte" where
  "table_code n =
     (if 65 \<le> n \<and> n \<le> 90 then of_nat (n - 65) else if 97 \<le> n \<and> n \<le> 122 then of_nat (n - 71)
      else if 48 \<le> n \<and> n \<le> 57 then of_nat (n + 4) else if n = 43 then 62 else if n = 47 then 63
      else if n = 61 then pd else if n = 32 \<or> 9 \<le> n \<and> n \<le> 13 then sp else il)"

definition table_char :: "nat \<Rightarrow> char" where
  "table_char i =
     char_of (if i < 26 then i + 65 else if i < 52 then i + 71 else if i < 62 then i - 4
       else if i = 62 then 43 else 47)"

lemma DecodeTable_code: "DecodeTable = map table_code [0..<256]"
  by code_simp

lemma Base64Table_char: "Base64Table = map table_char [0..<64]"
  by code_simp

lemma DecodeTable_nth: "DecodeTable ! of_char c = table_code (of_char c)"
proof -
  have "(of_char c :: nat) < 256" by (metis of_char_mod_256 mod_less_divisor zero_less_numeral)
  then show ?thesis by (simp add: DecodeTable_code)
qed

lemma b64_char: "q < 64 \<Longrightarrow> b64 q = table_char (unat q)"
  by (simp add: b64_def Base64Table_char word_less_nat_alt)

lemma decode_b64: "q < 64 \<Longrightarrow> DecodeTable ! of_char (b64 q) = q"
  unfolding DecodeTable_nth
  by (auto simp: b64_char table_char_def table_code_def word_less_nat_alt unat_of_nat
      intro!: word_unat_eq_iff [THEN iffD2])

lemma char_code: "c = CHR ''+'' \<longleftrightarrow> of_char c = (43 :: nat)" "c = CHR ''/'' \<longleftrightarrow> of_char c = (47 :: nat)"
  "c = CHR ''='' \<longleftrightarrow> of_char c = (61 :: nat)"
  using of_char_eq_iff [of c "CHR ''+''", where 'a = nat] of_char_eq_iff [of c "CHR ''/''", where 'a = nat]
    of_char_eq_iff [of c "CHR ''=''", where 'a = nat] by simp_all

definition data_code :: "nat \<Rightarrow> bool" where
  "data_code n = (65 \<le> n \<and> n \<le> 90 \<or> 97 \<le> n \<and> n \<le> 122 \<or> 48 \<le> n \<and> n \<le> 57 \<or> n = 43 \<or> n = 47)"

lemma IsBase64Char_code: "IsBase64Char c \<longleftrightarrow> data_code (of_char c)"
  by (simp add: IsBase64Char_def char_between_def char_code data_code_def)

lemma table_code_data: "data_code n \<Longrightarrow> unat (table_code n) < 64 \<and> table_char (unat (table_code n)) = char_of n"
  unfolding data_code_def
proof (elim disjE)
  assume "65 \<le> n \<and> n \<le> 90"
  then show ?thesis by (auto simp: table_code_def table_char_def unat_of_nat simp del: of_nat_diff of_nat_add)
next
  assume "97 \<le> n \<and> n \<le> 122"
  then show ?thesis by (auto simp: table_code_def table_char_def unat_of_nat simp del: of_nat_diff of_nat_add)
next
  assume "48 \<le> n \<and> n \<le> 57"
  then show ?thesis by (auto simp: table_code_def table_char_def unat_of_nat simp del: of_nat_diff of_nat_add)
qed (simp_all add: table_code_def table_char_def)

lemma decode_data:
  "IsBase64Char c \<Longrightarrow> DecodeTable ! of_char c < 64 \<and> b64 (DecodeTable ! of_char c) = c"
  using table_code_data [of "of_char c"] by (simp add: IsBase64Char_code DecodeTable_nth b64_char word_less_nat_alt)

lemma decode_other:
  "\<not> IsBase64Char c \<Longrightarrow> DecodeTable ! of_char c \<in> {il, sp, pd}"
  by (auto simp: IsBase64Char_code data_code_def DecodeTable_nth table_code_def)

lemma decode_pad: "DecodeTable ! of_char c = pd \<longleftrightarrow> c = kPad"
proof (cases "IsBase64Char c")
  case True
  then have "c \<noteq> kPad" by (auto simp: IsBase64Char_code data_code_def kPad_def)
  with True decode_data [of c] show ?thesis by (auto simp: pd_def)
next
  case False
  then show ?thesis
    by (auto simp: IsBase64Char_code data_code_def DecodeTable_nth table_code_def kPad_def char_code pd_def sp_def il_def)
qed

lemma b64_is_data: "q < 64 \<Longrightarrow> IsBase64Char (b64 q)"
  by (rule ccontr) (use decode_b64 [of q] decode_other [of "b64 q"] in \<open>auto simp: pd_def sp_def il_def\<close>)

section \<open>The bits of a quantum\<close>

lemma bits_below_8: "(\<And>n. n < 8 \<Longrightarrow> bit a n = bit b n) \<Longrightarrow> a = (b :: byte)"
  by (rule bit_word_eqI) simp

lemma less_8_cases: "n < 8 \<Longrightarrow> n \<in> {0, 1, 2, 3, 4, 5, 6, 7 :: nat}"
  by auto

lemma high_bits: "q < 64 \<Longrightarrow> \<not> bit (q :: byte) 6 \<and> \<not> bit q 7"
proof -
  assume "q < 64"
  then have "take_bit 6 q = q" by (simp add: word_less_nat_alt unsigned_take_bit_eq take_bit_nat_eq_self word_unat_eq_iff)
  moreover have "\<not> bit (take_bit 6 q) 6" "\<not> bit (take_bit 6 q) 7" by (simp_all add: bit_take_bit_iff)
  ultimately show ?thesis by simp
qed

lemma and_63_less: "(q :: byte) AND 0x3f < 64"
  by (rule le_less_trans [OF word_and_le1]) simp

lemma encode_less_64:
  fixes x y z :: byte
  shows "drop_bit 2 x AND 0x3f < 64" "push_bit 4 x AND 0x3f < 64" "push_bit 2 y AND 0x3f < 64" "z AND 0x3f < 64"
    "(push_bit 4 x AND 0x3f) OR (drop_bit 4 y AND 0x0f) < 64"
    "(push_bit 2 y AND 0x3f) OR (drop_bit 6 z AND 0x03) < 64"
proof -
  have "(push_bit 4 x AND 0x3f) OR (drop_bit 4 y AND 0x0f) = ((push_bit 4 x AND 0x3f) OR (drop_bit 4 y AND 0x0f)) AND 0x3f"
    "(push_bit 2 y AND 0x3f) OR (drop_bit 6 z AND 0x03) = ((push_bit 2 y AND 0x3f) OR (drop_bit 6 z AND 0x03)) AND 0x3f"
    by (simp_all add: bit.conj_disj_distrib2 and.assoc)
  then show "(push_bit 4 x AND 0x3f) OR (drop_bit 4 y AND 0x0f) < 64"
    "(push_bit 2 y AND 0x3f) OR (drop_bit 6 z AND 0x03) < 64"
    by (metis and_63_less)+
qed (rule and_63_less)+

lemma decode_bits:
  fixes x y z :: byte
  shows "push_bit 2 (drop_bit 2 x AND 0x3f) OR (drop_bit 4 ((push_bit 4 x AND 0x3f) OR (drop_bit 4 y AND 0x0f)) AND 0x3) = x"
    "(push_bit 4 ((push_bit 4 x AND 0x3f) OR (drop_bit 4 y AND 0x0f)) AND 0xf0) OR
       (drop_bit 2 ((push_bit 2 y AND 0x3f) OR (drop_bit 6 z AND 0x03)) AND 0xf) = y"
    "(push_bit 6 ((push_bit 2 y AND 0x3f) OR (drop_bit 6 z AND 0x03)) AND 0xc0) OR (z AND 0x3f) = z"
  by (rule bits_below_8, drule less_8_cases, elim insertE emptyE; simp add: bit_simps)+

lemma encode_bits:
  fixes p q r s :: byte
  assumes "p < 64" "q < 64" "r < 64" "s < 64"
  shows "drop_bit 2 (push_bit 2 p OR (drop_bit 4 q AND 0x3)) AND 0x3f = p"
    "(push_bit 4 (push_bit 2 p OR (drop_bit 4 q AND 0x3)) AND 0x3f) OR
       (drop_bit 4 ((push_bit 4 q AND 0xf0) OR (drop_bit 2 r AND 0xf)) AND 0x0f) = q"
    "(push_bit 2 ((push_bit 4 q AND 0xf0) OR (drop_bit 2 r AND 0xf)) AND 0x3f) OR
       (drop_bit 6 ((push_bit 6 r AND 0xc0) OR s) AND 0x03) = r"
    "((push_bit 6 r AND 0xc0) OR s) AND 0x3f = s"
  by (rule bits_below_8, drule less_8_cases, elim insertE emptyE; simp add: bit_simps assms [THEN high_bits])+

section \<open>A quantum of encoded text\<close>

lemma base64_codes: "q < 64 \<Longrightarrow> q \<noteq> il \<and> q \<noteq> sp \<and> q \<noteq> pd"
  by (auto simp: il_def sp_def pd_def)

lemma kPad_code: "DecodeTable ! of_char kPad = pd"
  by (simp add: decode_pad)

lemma loop_data:
  "IsBase64Char c \<Longrightarrow> bl < 4 \<Longrightarrow>
    quantum_loop f False (c # r) bl 0 ps dpos q =
      quantum_loop f False r (Suc bl) 0 ps (Suc dpos) (q[bl := DecodeTable ! of_char c])"
  using decode_data [of c] base64_codes [of "DecodeTable ! of_char c"] by (simp add: Let_def)

lemma loop_pad:
  "2 \<le> bl \<Longrightarrow> bl + pl < 4 \<Longrightarrow>
    quantum_loop f False (kPad # r) bl pl ps dpos q =
      quantum_loop f False r bl (Suc pl) (if pl = 0 then dpos else ps) (Suc dpos) (q[bl := pd])"
  by (simp add: Let_def kPad_code) (simp add: pd_def il_def sp_def)

lemma loop_end: "quantum_loop f ip r (Suc (Suc (Suc (Suc 0)))) pl ps dpos q = (4, pl, ps, dpos, q)"
  by (cases r) simp_all

declare quantum_loop.simps(2) [simp del]

lemmas quantum_steps = loop_data loop_pad loop_end GetNextQuantum_def

lemma list_of_4: "length xs = 4 \<Longrightarrow> (\<And>a b c d. xs = [a, b, c, d] \<Longrightarrow> thesis) \<Longrightarrow> thesis"
  by (auto simp: numeral_eq_Suc length_Suc_conv)

lemma quantum_full:
  assumes "drop dpos data = a # b # c # d # rest" "length q = 4"
    and "IsBase64Char a" "IsBase64Char b" "IsBase64Char c" "IsBase64Char d"
  shows "GetNextQuantum f False data dpos q =
    (4, dpos + 4, [DecodeTable ! of_char a, DecodeTable ! of_char b, DecodeTable ! of_char c, DecodeTable ! of_char d], True)"
proof -
  obtain q0 q1 q2 q3 where "q = [q0, q1, q2, q3]"
    using list_of_4 [OF assms(2)] .
  with assms show ?thesis by (simp add: quantum_steps)
qed

lemma quantum_pad2:
  assumes "drop dpos data = [a, b, kPad, kPad]" "length q = 4" "IsBase64Char a" "IsBase64Char b"
  shows "GetNextQuantum f False data dpos q =
    (2, dpos + 4, [DecodeTable ! of_char a, DecodeTable ! of_char b, 0, 0], True)"
proof -
  obtain q0 q1 q2 q3 where "q = [q0, q1, q2, q3]"
    using list_of_4 [OF assms(2)] .
  with assms show ?thesis by (simp add: quantum_steps numeral_2_eq_2)
qed

lemma quantum_pad1:
  assumes "drop dpos data = [a, b, c, kPad]" "length q = 4" "IsBase64Char a" "IsBase64Char b" "IsBase64Char c"
  shows "GetNextQuantum f False data dpos q =
    (3, dpos + 4, [DecodeTable ! of_char a, DecodeTable ! of_char b, DecodeTable ! of_char c, 0], True)"
proof -
  obtain q0 q1 q2 q3 where "q = [q0, q1, q2, q3]"
    using list_of_4 [OF assms(2)] .
  with assms show ?thesis by (simp add: quantum_steps numeral_3_eq_3)
qed

text \<open>The strict parser takes every character it counts, and stops at any other.\<close>

lemma strict_step:
  "quantum_loop DO_PARSE_STRICT False (c # r) bl pl ps dpos q =
     (if bl < 4 \<and> IsBase64Char c \<and> pl = 0 then
        quantum_loop DO_PARSE_STRICT False r (Suc bl) 0 ps (Suc dpos) (q[bl := DecodeTable ! of_char c])
      else if bl < 4 \<and> c = kPad \<and> 2 \<le> bl \<and> bl + pl < 4 then
        quantum_loop DO_PARSE_STRICT False r bl (Suc pl) (if pl = 0 then dpos else ps) (Suc dpos) (q[bl := pd])
      else (bl, pl, ps, dpos, if bl < 4 then q[bl := DecodeTable ! of_char c] else q))"
proof (cases "IsBase64Char c")
  case True
  then have "DecodeTable ! of_char c \<noteq> il" "DecodeTable ! of_char c \<noteq> sp" "DecodeTable ! of_char c \<noteq> pd" "c \<noteq> kPad"
    using decode_data [of c] base64_codes [of "DecodeTable ! of_char c"] kPad_code by auto
  with True show ?thesis by (simp add: quantum_loop.simps(2) Let_def base64_options)
next
  case False
  have "pd \<noteq> il" "sp \<noteq> il" "pd \<noteq> sp" by (simp_all add: pd_def il_def sp_def)
  with False decode_other [of c] decode_pad [of c] show ?thesis
    by (auto simp: quantum_loop.simps(2) Let_def base64_options)
qed

lemma strict_counts:
  "quantum_loop DO_PARSE_STRICT False r bl pl ps dpos q = (bl', pl', ps', dpos', q') \<Longrightarrow>
    dpos' + bl + pl = dpos + bl' + pl'"
proof (induction r arbitrary: bl pl ps dpos q)
  case (Cons c r)
  show ?case
  proof (cases "bl < 4 \<and> IsBase64Char c \<and> pl = 0")
    case True
    with Cons.prems have "quantum_loop DO_PARSE_STRICT False r (Suc bl) 0 ps (Suc dpos) (q[bl := DecodeTable ! of_char c]) =
        (bl', pl', ps', dpos', q')"
      by (simp add: strict_step)
    from Cons.IH [OF this] True show ?thesis by simp
  next
    case no: False
    with Cons.prems show ?thesis by (auto simp: strict_step split: if_splits dest!: Cons.IH)
  qed
qed simp

lemma strict_tail:
  "quantum_loop DO_PARSE_STRICT False r bl (Suc pl) ps dpos q = (bl', pl', ps', dpos', q') \<Longrightarrow> bl' = bl"
  by (induction r arbitrary: pl ps dpos q) (auto simp: strict_step split: if_splits)

lemma strict_full:
  assumes "quantum_loop DO_PARSE_STRICT False r 0 0 ps dpos q = (4, pl', ps', dpos', q')"
  shows "\<exists>a b c d rest. r = a # b # c # d # rest \<and> IsBase64Char a \<and> IsBase64Char b \<and> IsBase64Char c \<and> IsBase64Char d"
proof -
  consider "r = []" | a where "r = [a]" | a b where "r = [a, b]" | a b c where "r = [a, b, c]"
    | a b c d rest where "r = a # b # c # d # rest"
    by (metis neq_Nil_conv)
  then show ?thesis
  proof cases
    case 5
    from assms 5 show ?thesis by (auto simp: strict_step split: if_splits dest!: strict_tail)
  qed (use assms in \<open>auto simp: strict_step split: if_splits\<close>)
qed

section \<open>Decoding encoded text\<close>

lemma drop_more: "drop n xs = ys @ zs \<Longrightarrow> drop (n + length ys) xs = zs"
  by (metis add.commute append_eq_conv_conj drop_drop)

lemma drop_length: "drop n xs = ys \<Longrightarrow> ys \<noteq> [] \<Longrightarrow> n < length xs \<and> length xs = n + length ys"
  by (cases "n < length xs") auto

lemma step_full:
  assumes "drop dpos data = b64 p # b64 q # b64 r # b64 s # rest" "length qb = 4" "pad_flags \<noteq> DO_PAD_NO"
    and "p < 64" "q < 64" "r < 64" "s < 64"
  shows "decode_loop f pad_flags t data dpos qb =
    (case decode_loop f pad_flags t data (dpos + 4) [p, q, r, s] of
       (success, out, pos) \<Rightarrow>
         (success, [push_bit 2 p OR (drop_bit 4 q AND 0x3), (push_bit 4 q AND 0xf0) OR (drop_bit 2 r AND 0xf),
            (push_bit 6 r AND 0xc0) OR s] @ out, pos))"
  using quantum_full [OF assms(1,2) b64_is_data b64_is_data b64_is_data b64_is_data, OF assms(4-7)]
    drop_length [OF assms(1)] assms
  by (simp add: decode_loop.simps [of f pad_flags t data dpos] decode_b64 Let_def)

lemma step_pad2:
  assumes "drop dpos data = [b64 p, b64 q, kPad, kPad]" "length qb = 4" "pad_flags \<noteq> DO_PAD_NO" "p < 64" "q < 64"
  shows "decode_loop f pad_flags t data dpos qb =
    (\<not> (DO_TERM_ANY \<noteq> t \<and> (push_bit 4 q AND 0xf0) \<noteq> 0), [push_bit 2 p OR (drop_bit 4 q AND 0x3)], length data)"
  using quantum_pad2 [OF assms(1,2) b64_is_data b64_is_data, OF assms(4,5)] drop_length [OF assms(1)] assms
  by (simp add: decode_loop.simps [of f pad_flags t data dpos] decode_b64 Let_def)

lemma step_pad1:
  assumes "drop dpos data = [b64 p, b64 q, b64 r, kPad]" "length qb = 4" "pad_flags \<noteq> DO_PAD_NO"
    and "p < 64" "q < 64" "r < 64"
  shows "decode_loop f pad_flags t data dpos qb =
    (\<not> (DO_TERM_ANY \<noteq> t \<and> (push_bit 6 r AND 0xc0) \<noteq> 0),
     [push_bit 2 p OR (drop_bit 4 q AND 0x3), (push_bit 4 q AND 0xf0) OR (drop_bit 2 r AND 0xf)], length data)"
  using quantum_pad1 [OF assms(1,2) b64_is_data b64_is_data b64_is_data, OF assms(4-6)] drop_length [OF assms(1)] assms
  by (simp add: decode_loop.simps [of f pad_flags t data dpos] decode_b64 Let_def)

lemma decode_loop_encode:
  assumes "pad_flags \<noteq> DO_PAD_NO"
  shows "drop dpos data = EncodeFromArray d \<Longrightarrow> dpos \<le> length data \<Longrightarrow> length qb = 4 \<Longrightarrow>
    decode_loop f pad_flags t data dpos qb = (True, d, length data)"
proof (induction d arbitrary: dpos qb rule: EncodeFromArray.induct)
  case 1
  then show ?case by (simp add: decode_loop.simps)
next
  case (2 x)
  show ?case using step_pad2 [OF 2(1) [unfolded EncodeFromArray.simps] 2(3) assms encode_less_64(1,2)]
      decode_bits(1) [of x 0] decode_bits(2) [of x 0 0] by simp
next
  case (3 x y)
  show ?case using step_pad1 [OF 3(1) [unfolded EncodeFromArray.simps] 3(3) assms encode_less_64(1,5,3)]
      decode_bits(1) [of x y] decode_bits(2) [of x y 0] decode_bits(3) [of y 0] by simp
next
  case (4 x y z rest)
  have "drop dpos data = [b64 (drop_bit 2 x AND 0x3f), b64 ((push_bit 4 x AND 0x3f) OR (drop_bit 4 y AND 0x0f)),
      b64 ((push_bit 2 y AND 0x3f) OR (drop_bit 6 z AND 0x03)), b64 (z AND 0x3f)] @ EncodeFromArray rest"
    using 4 by simp
  note drop4 = drop_more [OF this] this [unfolded append.simps]
  have "dpos + 4 \<le> length data" using drop_length [OF drop4(2)] by simp
  have tail: "drop (dpos + 4) data = EncodeFromArray rest" using drop4(1) by (simp add: numeral_eq_Suc)
  have rec: "decode_loop f pad_flags t data (dpos + 4) [a, b, c, d] = (True, rest, length data)" for a b c d
    using 4(1) [OF tail] \<open>dpos + 4 \<le> length data\<close> by simp
  show ?case
    by (simp only: step_full [OF drop4(2) 4(4) assms encode_less_64(1,5,6,4)] rec prod.case decode_bits append.simps)
qed

text \<open>The strict parser only succeeds on text the encoder has made.\<close>

lemma GetNextQuantum_strict:
  assumes "GetNextQuantum DO_PARSE_STRICT False data dpos qb = (qlen, dpos', qb', padded)"
  obtains pl ps pos q where "quantum_loop DO_PARSE_STRICT False (drop dpos data) 0 0 0 dpos qb = (qlen, pl, ps, pos, q)"
    "padded \<longleftrightarrow> qlen + pl = 4" "padded \<Longrightarrow> dpos' = dpos + 4"
  using assms strict_counts [of "drop dpos data" 0 0 0 dpos qb]
  by (cases "quantum_loop DO_PARSE_STRICT False (drop dpos data) 0 0 0 dpos qb")
    (auto simp: GetNextQuantum_def Let_def split: if_splits)

lemma data_b64: "IsBase64Char c \<Longrightarrow> \<exists>q < 64. c = b64 q"
  using decode_data by metis

lemma strict_quantum_cases:
  assumes "GetNextQuantum DO_PARSE_STRICT False data dpos qb = (qlen, dpos', qb', padded)"
    and "padded" "dpos < length data" "qlen \<noteq> 4 \<longrightarrow> dpos' = length data"
  shows "(\<exists>p q r s rest. drop dpos data = b64 p # b64 q # b64 r # b64 s # rest \<and> p < 64 \<and> q < 64 \<and> r < 64 \<and> s < 64) \<or>
    (\<exists>p q. drop dpos data = [b64 p, b64 q, kPad, kPad] \<and> p < 64 \<and> q < 64) \<or>
    (\<exists>p q r. drop dpos data = [b64 p, b64 q, b64 r, kPad] \<and> p < 64 \<and> q < 64 \<and> r < 64)"
proof -
  obtain pl ps pos q where loop: "quantum_loop DO_PARSE_STRICT False (drop dpos data) 0 0 0 dpos qb = (qlen, pl, ps, pos, q)"
    and sum: "qlen + pl = 4" and end4: "dpos' = dpos + 4"
    using GetNextQuantum_strict [OF assms(1)] assms(2) by metis
  show ?thesis
  proof (cases "qlen = 4")
    case True
    from strict_full [OF loop [unfolded True]] show ?thesis using data_b64 by metis
  next
    case False
    with assms(4) end4 have "length (drop dpos data) = 4" by simp
    from list_of_4 [OF this] obtain a b c d where *: "drop dpos data = [a, b, c, d]" .
    have "IsBase64Char a \<and> IsBase64Char b \<and> (IsBase64Char c \<or> c = kPad) \<and> d = kPad"
      using loop sum False unfolding * by (auto simp: strict_step split: if_splits)
    with * show ?thesis using data_b64 by metis
  qed
qed

lemma strict_round:
  assumes "decode_loop DO_PARSE_STRICT DO_PAD_YES DO_TERM_BUFFER data dpos qb = (True, d, length data)" "dpos < length data"
  obtains p q r s rest where "drop dpos data = b64 p # b64 q # b64 r # b64 s # rest" "p < 64" "q < 64" "r < 64" "s < 64"
    | p q where "drop dpos data = [b64 p, b64 q, kPad, kPad]" "p < 64" "q < 64"
    | p q r where "drop dpos data = [b64 p, b64 q, b64 r, kPad]" "p < 64" "q < 64" "r < 64"
proof -
  have flags: "DO_PAD_YES \<noteq> DO_PAD_NO" by (simp add: base64_options)
  obtain qlen dpos' qb' padded
    where quantum: "GetNextQuantum DO_PARSE_STRICT False data dpos qb = (qlen, dpos', qb', padded)"
    by (metis prod_cases4)
  have "padded \<and> (qlen \<noteq> 4 \<longrightarrow> dpos' = length data)"
  proof (cases "qlen = 4")
    case True
    with quantum show ?thesis
      by (auto simp: GetNextQuantum_def Let_def split: prod.splits if_splits dest: quantum_loop_full)
  next
    case False
    with assms quantum flags show ?thesis by (simp add: decode_loop.simps [of _ _ _ data dpos] Let_def)
  qed
  then have padded: "padded" and rest: "qlen \<noteq> 4 \<longrightarrow> dpos' = length data" by simp_all
  from strict_quantum_cases [OF quantum padded assms(2) rest] show ?thesis
    by (elim disjE exE conjE) (rule that; assumption)+
qed

lemma strict_loop_canonical:
  "decode_loop DO_PARSE_STRICT DO_PAD_YES DO_TERM_BUFFER data dpos qb = (True, d, length data) \<Longrightarrow>
    dpos \<le> length data \<Longrightarrow> length qb = 4 \<Longrightarrow> drop dpos data = EncodeFromArray d"
proof (induction "length data - dpos" arbitrary: dpos qb d rule: less_induct)
  case less
  have flags: "DO_PAD_YES \<noteq> DO_PAD_NO" "DO_TERM_ANY \<noteq> DO_TERM_BUFFER" by (simp_all add: base64_options)
  show ?case
  proof (cases "dpos < length data")
    case False
    with less.prems show ?thesis by (simp add: decode_loop.simps)
  next
    case True
    from less.prems(1) True show ?thesis
    proof (cases rule: strict_round)
      case (1 p q r s rest)
      obtain out where rec: "decode_loop DO_PARSE_STRICT DO_PAD_YES DO_TERM_BUFFER data (dpos + 4) [p, q, r, s] = (True, out, length data)"
        and d: "d = [push_bit 2 p OR (drop_bit 4 q AND 0x3), (push_bit 4 q AND 0xf0) OR (drop_bit 2 r AND 0xf),
            (push_bit 6 r AND 0xc0) OR s] @ out"
        using less.prems(1) step_full [OF 1(1) less.prems(3) flags(1) 1(2-5)] by (auto split: prod.splits)
      have "drop (dpos + 4) data = rest"
        using drop_more [of dpos data "[b64 p, b64 q, b64 r, b64 s]" rest] 1(1) by (simp add: numeral_eq_Suc)
      moreover have "drop (dpos + 4) data = EncodeFromArray out"
        using less.hyps [OF _ rec] drop_length [OF 1(1)] by simp
      ultimately show ?thesis unfolding 1(1) d by (simp only: append.simps EncodeFromArray.simps encode_bits [OF 1(2-5)])
    next
      case (2 p q)
      from less.prems(1) have "d = [push_bit 2 p OR (drop_bit 4 q AND 0x3)]" "push_bit 4 q AND 0xf0 = 0"
        using step_pad2 [OF 2(1) less.prems(3) flags(1) 2(2,3)] flags(2) by simp_all
      with encode_bits(1,2) [OF 2(2,3), of 0 0] show ?thesis unfolding 2(1) by simp
    next
      case (3 p q r)
      from less.prems(1) have "d = [push_bit 2 p OR (drop_bit 4 q AND 0x3), (push_bit 4 q AND 0xf0) OR (drop_bit 2 r AND 0xf)]"
        "push_bit 6 r AND 0xc0 = 0"
        using step_pad1 [OF 3(1) less.prems(3) flags(1) 3(2-4)] flags(2) by simp_all
      with encode_bits(1-3) [OF 3(2-4), of 0] show ?thesis unfolding 3(1) by simp
    qed
  qed
qed

lemma length_EncodeFromArray: "length (EncodeFromArray d) = 4 * ((length d + 2) div 3)"
  by (induction d rule: EncodeFromArray.induct) (simp_all, presburger)

lemma GetNextBase64Char_table:
  "list_all (\<lambda>i. GetNextBase64Char (Base64Table ! i) = ok (Some (Base64Table ! (Suc i mod 64)))) [0..<64]"
  by code_simp

text \<open>
  C33: An encoding has four characters for every started group of three bytes. Decoded under any options that
  allow padding it gives back the data and is used up. The strict options succeed on nothing else: a
  text they accept is the encoding of the data they return, so no two texts decode to the same bytes.
\<close>
theorem base64_strict_is_inverse:
  assumes "flags AND DO_PAD_MASK \<noteq> DO_PAD_NO"
  shows "length (Encode d) = 4 * ((length d + 2) div 3) \<and>
    DecodeFromArray (Encode d) flags = (True, d, length (Encode d)) \<and>
    (DecodeFromArray str DO_STRICT = (True, d, n) \<longleftrightarrow> str = Encode d \<and> n = length str)"
proof -
  have decoded: "DecodeFromArray (Encode d) fl = (True, d, length (Encode d))" if "fl AND DO_PAD_MASK \<noteq> DO_PAD_NO" for fl
    using decode_loop_encode [OF that, of 0 "Encode d" d "replicate 4 0"] by (simp add: DecodeFromArray_def Encode_def)
  have strict: "DO_STRICT AND DO_PAD_MASK = DO_PAD_YES" "DO_STRICT AND DO_PARSE_MASK = DO_PARSE_STRICT"
    "DO_STRICT AND DO_TERM_MASK = DO_TERM_BUFFER" "DO_PAD_YES \<noteq> DO_PAD_NO"
    by (simp_all add: base64_options)
  have "str = Encode d \<and> n = length str" if "DecodeFromArray str DO_STRICT = (True, d, n)"
    using that strict_loop_canonical [of str 0 "replicate 4 0" d]
    by (auto simp: DecodeFromArray_def strict Encode_def split: prod.splits)
  then show ?thesis using decoded [OF assms] decoded [of DO_STRICT] strict length_EncodeFromArray
    by (auto simp: Encode_def)
qed

lemma base64_strict_is_inverse_witness:
  "DecodeFromArray ''Zm9vYg=='' DO_LAX = (True, [0x66, 0x6f, 0x6f, 0x62], 8)"
proof -
  have "DO_LAX AND DO_PAD_MASK \<noteq> DO_PAD_NO" "Encode [0x66, 0x6f, 0x6f, 0x62] = ''Zm9vYg==''"
    by (simp_all add: base64_options Encode_def b64_def Base64Table_def kPad_def)
  with base64_strict_is_inverse [of DO_LAX "[0x66, 0x6f, 0x6f, 0x62]"] show ?thesis by simp
qed

end
