(* ===== verification/ThreadMgr.thy ===== *)
theory ThreadMgr
  imports SfuBase
begin

text \<open>
  The \<^verbatim>\<open>ThreadManager\<close> of \<^verbatim>\<open>rtc_base/thread.cc\<close>: the list of message queues and the graph of which
  thread sends to which, in the build with \<^verbatim>\<open>RTC_DCHECK_IS_ON\<close>, where a failed check ends the process.

  A thread is a value of the type \<open>'t\<close>; the map of the graph is an association list, whose order the code
  does not use. The search for send loops ends because the graph has no cycles, and the check keeps it so:
  both are proved here together.
\<close>

section \<open>State and operations\<close>

record 't ThreadManager =
  tm_queues :: "'t list"
  tm_processing :: nat
  tm_graph :: "('t \<times> 't list) list"

definition ThreadManager_new :: "'t ThreadManager" where
  "ThreadManager_new = \<lparr>tm_queues = [], tm_processing = 0, tm_graph = []\<rparr>"

definition AddInternal :: "'t \<Rightarrow> 't ThreadManager \<Rightarrow> 't ThreadManager res" where
  "AddInternal q m =
     (if tm_processing m \<noteq> 0 then crash AssertFailed else ok (m\<lparr>tm_queues := tm_queues m @ [q]\<rparr>))"

fun RemoveFromSendGraph :: "'t \<Rightarrow> ('t \<times> 't list) list \<Rightarrow> ('t \<times> 't list) list" where
  "RemoveFromSendGraph t [] = []"
| "RemoveFromSendGraph t ((k, targets) # g) =
     (if k = t then RemoveFromSendGraph t g else (k, removeAll t targets) # RemoveFromSendGraph t g)"

definition RemoveInternal :: "'t \<Rightarrow> 't ThreadManager \<Rightarrow> 't ThreadManager res" where
  "RemoveInternal q m =
     (if tm_processing m \<noteq> 0 then crash AssertFailed
      else ok (m\<lparr>tm_queues := remove1 q (tm_queues m), tm_graph := RemoveFromSendGraph q (tm_graph m)\<rparr>))"

text \<open>\<^verbatim>\<open>send_graph_[x]\<close> inserts an empty set for a thread that is not a key.\<close>

definition graph_at :: "('t \<times> 't list) list \<Rightarrow> 't \<Rightarrow> 't list \<times> ('t \<times> 't list) list" where
  "graph_at g x = (case map_of g x of Some s \<Rightarrow> (s, g) | None \<Rightarrow> ([], AList.update x [] g))"

text \<open>
  The search: \<open>seen @ todo\<close> is the deque \<^verbatim>\<open>all_targets\<close>, \<open>seen\<close> the part in front of the index. A thread that is
  reached on two ways is visited twice.
\<close>

partial_function (option) targets_loop ::
    "('t \<times> 't list) list \<Rightarrow> 't list \<Rightarrow> 't list \<Rightarrow> ('t list \<times> ('t \<times> 't list) list) option" where
  "targets_loop g seen todo =
     (case todo of
        [] \<Rightarrow> Some (seen, g)
      | x # rest \<Rightarrow> (case graph_at g x of (targets, g') \<Rightarrow> targets_loop g' (seen @ [x]) (rest @ targets)))"

declare targets_loop.simps [code]

definition RegisterSendAndCheckForCycles :: "'t option \<Rightarrow> 't option \<Rightarrow> 't ThreadManager \<Rightarrow> 't ThreadManager res" where
  "RegisterSendAndCheckForCycles src target m =
     (case (src, target) of
        (Some s, Some t) \<Rightarrow>
          (case targets_loop (tm_graph m) [] [t] of
             None \<Rightarrow> crash Diverges
           | Some (all_targets, g) \<Rightarrow>
               if count_list all_targets s \<noteq> 0 then crash AssertFailed
               else case graph_at g s of (targets, g') \<Rightarrow> ok (m\<lparr>tm_graph := AList.update s (List.insert t targets) g'\<rparr>))
      | _ \<Rightarrow> crash AssertFailed)"

text \<open>
  \<open>clear\<close> is \<^verbatim>\<open>Thread::Clear\<close>; the messages it deletes may call the manager again. \<^verbatim>\<open>MarkProcessingCritScope\<close>
  counts the depth of these calls.
\<close>

fun clear_loop :: "('t \<Rightarrow> 't ThreadManager \<times> 'w \<Rightarrow> ('t ThreadManager \<times> 'w) res) \<Rightarrow> 't list \<Rightarrow>
    't ThreadManager \<times> 'w \<Rightarrow> ('t ThreadManager \<times> 'w) res" where
  "clear_loop clear [] mw = ok mw"
| "clear_loop clear (q # qs) mw = res_bind (clear q mw) (clear_loop clear qs)"

definition ClearInternal_all :: "('t \<Rightarrow> 't ThreadManager \<times> 'w \<Rightarrow> ('t ThreadManager \<times> 'w) res) \<Rightarrow>
    't ThreadManager \<times> 'w \<Rightarrow> ('t ThreadManager \<times> 'w) res" where
  "ClearInternal_all clear mw =
     (case mw of (m, w) \<Rightarrow>
        res_bind (clear_loop clear (tm_queues m) (m\<lparr>tm_processing := tm_processing m + 1\<rparr>, w))
          (\<lambda>(m', w'). ok (m'\<lparr>tm_processing := tm_processing m' - 1\<rparr>, w')))"

section \<open>The graph\<close>

definition edges :: "('t \<times> 't list) list \<Rightarrow> ('t \<times> 't) set" where
  "edges g = {(a, b). \<exists>s. map_of g a = Some s \<and> b \<in> set s}"

lemma edges_code: "edges g \<subseteq> set (concat (map (\<lambda>(a, s). map (Pair a) s) g))"
  by (force simp: edges_def dest!: map_of_SomeD)

lemma finite_edges: "finite (edges g)"
  by (rule finite_subset [OF edges_code finite_set])

lemma graph_at_cases: "graph_at g x = (s, g') \<Longrightarrow> set s = edges g `` {x} \<and> edges g' = edges g"
  by (auto simp: graph_at_def edges_def AList.update_conv' split: option.splits if_splits)

lemma edges_insert: "edges (AList.update a (List.insert b s) g) = edges g - {a} \<times> UNIV \<union> {a} \<times> insert b (set s)"
  by (auto simp: edges_def AList.update_conv' split: if_splits)

lemma map_of_RemoveFromSendGraph:
  "map_of (RemoveFromSendGraph t g) a = (if a = t then None else map_option (removeAll t) (map_of g a))"
  by (induction t g rule: RemoveFromSendGraph.induct) auto

lemma edges_RemoveFromSendGraph: "edges (RemoveFromSendGraph t g) = edges g - ({t} \<times> UNIV \<union> UNIV \<times> {t})"
  by (auto simp: edges_def map_of_RemoveFromSendGraph split: if_splits)

text \<open>Over a graph without cycles the search ends, with everything that is reachable.\<close>

lemma targets_loop_ends:
  assumes "acyclic E"
  shows "edges g = E \<Longrightarrow>
    \<exists>all g'. targets_loop g seen todo = Some (all, g') \<and> edges g' = E \<and> set all = set seen \<union> E\<^sup>* `` set todo"
proof -
  assume "edges g = E"
  with assms have wf: "wf (mult (E\<inverse>))" by (metis finite_acyclic_wf_converse finite_edges wf_mult)
  from \<open>edges g = E\<close> show ?thesis
  proof (induction "mset todo" arbitrary: g seen todo rule: wf_induct_rule [OF wf])
    case 1
    show ?case
    proof (cases todo)
      case Nil
      with 1 show ?thesis by (simp add: targets_loop.simps)
    next
      case (Cons x rest)
      obtain targets g' where at: "graph_at g x = (targets, g')" by fastforce
      from graph_at_cases [OF this] 1(2) have new: "set targets = E `` {x}" "edges g' = E" by auto
      have "(mset (rest @ targets), mset todo) \<in> mult (E\<inverse>)"
        using one_step_implies_mult [of "{#x#}" "mset targets" "E\<inverse>" "mset rest"] new(1) Cons by auto
      from 1(1) [OF this new(2), of "seen @ [x]"] obtain all g'' where
        "targets_loop g' (seen @ [x]) (rest @ targets) = Some (all, g'')" "edges g'' = E"
        "set all = set (seen @ [x]) \<union> E\<^sup>* `` set (rest @ targets)" by blast
      moreover have "E\<^sup>* `` set todo = insert x (E\<^sup>* `` set (rest @ targets))"
        unfolding Cons using new(1) by (auto elim: converse_rtranclE intro: converse_rtrancl_into_rtrancl)
      ultimately show ?thesis by (simp add: targets_loop.simps [of g] Cons at)
    qed
  qed
qed

section \<open>The manager\<close>

text \<open>
  The operations as steps; clearing a queue takes and gives back a manager at a deeper level, in which
  neither \<open>AddInternal\<close> nor \<open>RemoveInternal\<close> is possible.
\<close>

inductive tm_step :: "'t ThreadManager \<Rightarrow> 't ThreadManager \<Rightarrow> bool" where
  add: "AddInternal q m = ok m' \<Longrightarrow> tm_step m m'"
| remove: "RemoveInternal q m = ok m' \<Longrightarrow> tm_step m m'"
| send: "RegisterSendAndCheckForCycles src target m = ok m' \<Longrightarrow> tm_step m m'"
| enter: "tm_step m (m\<lparr>tm_processing := tm_processing m + 1\<rparr>)"
| leave: "0 < tm_processing m \<Longrightarrow> tm_step m (m\<lparr>tm_processing := tm_processing m - 1\<rparr>)"

definition path :: "'t ThreadManager \<Rightarrow> 't \<Rightarrow> 't \<Rightarrow> bool" where
  "path m a b = ((a, b) \<in> (edges (tm_graph m))\<^sup>*)"

lemma register_acyclic:
  assumes "acyclic (edges (tm_graph m))"
  shows "(path m t s \<longrightarrow> RegisterSendAndCheckForCycles (Some s) (Some t) m = crash AssertFailed) \<and>
    (\<not> path m t s \<longrightarrow> (\<exists>g. RegisterSendAndCheckForCycles (Some s) (Some t) m = ok (m\<lparr>tm_graph := g\<rparr>) \<and>
       edges g = insert (s, t) (edges (tm_graph m))))"
proof -
  obtain all g where search: "targets_loop (tm_graph m) [] [t] = Some (all, g)" and
    g: "edges g = edges (tm_graph m)" and all: "set all = (edges (tm_graph m))\<^sup>* `` {t}"
    using targets_loop_ends [OF assms refl, of "[]" "[t]"] by auto
  obtain targets g' where at: "graph_at g s = (targets, g')" by fastforce
  have "edges (AList.update s (List.insert t targets) g') = insert (s, t) (edges (tm_graph m))"
    using graph_at_cases [OF at] g by (auto simp: edges_insert)
  with search at all show ?thesis
    by (auto simp: RegisterSendAndCheckForCycles_def path_def count_list_0_iff)
qed

lemma tm_step_acyclic:
  assumes "tm_step m m'" "acyclic (edges (tm_graph m))"
  shows "acyclic (edges (tm_graph m'))"
  using assms(1)
proof cases
  case (remove q)
  then show ?thesis using assms(2)
    by (auto simp: RemoveInternal_def edges_RemoveFromSendGraph intro: acyclic_subset split: if_splits)
next
  case (send src target)
  then obtain s t where st: "src = Some s" "target = Some t"
    by (auto simp: RegisterSendAndCheckForCycles_def split: option.splits prod.splits)
  have "\<not> path m t s" using register_acyclic [OF assms(2), of t s] send st by auto
  with register_acyclic [OF assms(2), of t s] send st assms(2) show ?thesis
    by (auto simp: acyclic_insert path_def)
qed (use assms(2) in \<open>auto simp: AddInternal_def split: if_splits\<close>)

text \<open>
  Whatever threads are added and removed and whatever sends are registered, the graph of sends has no
  cycle. So the search of \<^verbatim>\<open>RegisterSendAndCheckForCycles\<close> always ends; it ends the process exactly when the
  source can be reached from the target (a thread that sends to itself included), and adds exactly the
  new edge otherwise.
\<close>
theorem send_graph_stays_acyclic:
  assumes "tm_step\<^sup>*\<^sup>* ThreadManager_new m"
  shows "acyclic (edges (tm_graph m)) \<and>
    RegisterSendAndCheckForCycles (Some s) (Some t) m \<noteq> crash Diverges \<and>
    (RegisterSendAndCheckForCycles (Some s) (Some t) m = crash AssertFailed \<longleftrightarrow> path m t s) \<and>
    (\<forall>m'. RegisterSendAndCheckForCycles (Some s) (Some t) m = ok m' \<longrightarrow>
       edges (tm_graph m') = insert (s, t) (edges (tm_graph m)) \<and> tm_queues m' = tm_queues m)"
proof -
  have "acyclic (edges (tm_graph ThreadManager_new))" by (simp add: ThreadManager_new_def edges_def acyclic_def)
  with assms have acyclic: "acyclic (edges (tm_graph m))" by induction (auto intro: tm_step_acyclic)
  from register_acyclic [OF this, of t s] acyclic show ?thesis by (cases "path m t s") auto
qed

definition sample_manager :: "nat ThreadManager" where
  "sample_manager = ThreadManager_new\<lparr>tm_graph := [(2, []), (1, [2])]\<rparr>"

lemma send_graph_stays_acyclic_witness:
  "RegisterSendAndCheckForCycles (Some 2) (Some 1) sample_manager = crash AssertFailed"
proof -
  have "RegisterSendAndCheckForCycles (Some 1) (Some 2) ThreadManager_new = ok sample_manager"
    by (simp add: RegisterSendAndCheckForCycles_def sample_manager_def ThreadManager_new_def targets_loop.simps graph_at_def)
  then have "tm_step\<^sup>*\<^sup>* ThreadManager_new sample_manager" by (blast intro: tm_step.send)
  moreover have "path sample_manager 1 2"
    by (auto simp: path_def sample_manager_def ThreadManager_new_def edges_def)
  ultimately show ?thesis using send_graph_stays_acyclic [of sample_manager 2 1] by blast
qed

text \<open>While the queues are cleared the list of queues cannot change: adding or removing one ends the process.\<close>

lemma processing_blocks_changes:
  "AddInternal q (m\<lparr>tm_processing := Suc n\<rparr>) = crash AssertFailed"
  "RemoveInternal q (m\<lparr>tm_processing := Suc n\<rparr>) = crash AssertFailed"
  by (simp_all add: AddInternal_def RemoveInternal_def)

end
