(* ===== verification/Spec2Isabelle.thy ===== *)
theory Spec2Isabelle
  imports Signaling Base64 ThreadMgr
begin

text \<open>
  Verification of juanSFU, a selective forwarding unit for WebRTC. All paths below are relative
  to \<^verbatim>\<open>src/server/juansfu\<close>.

  \<^bold>\<open>The program.\<close> Browsers open a websocket to the server (\<^verbatim>\<open>signaling/wss_server.cpp\<close>) and send JSON
  requests, which \<^verbatim>\<open>signaling/signaling_handle.cpp\<close> turns into rooms, members and, for a publish or
  a pull, an SDP answer (\<^verbatim>\<open>sdp/session_description.cpp\<close>) on a UDP port taken from a pool
  (\<^verbatim>\<open>signaling/port_mgr.cpp\<close>). Every datagram that reaches such a port is dispatched by
  \<^verbatim>\<open>signaling/room_member.cpp\<close>: STUN packets are authenticated and answered (\<^verbatim>\<open>udp/stun.cpp\<close>,
  \<^verbatim>\<open>udp/ice_connection.cpp\<close>), DTLS records drive the handshake (\<^verbatim>\<open>udp/rtc_dtls.cpp\<close>) whose exported
  keys open the SRTP sessions (\<^verbatim>\<open>udp/srtp_session.cpp\<close>), and RTP and RTCP packets are decrypted and
  handed to every subscriber of the transport (\<^verbatim>\<open>udp/srtp_transport.cpp\<close>), which re-encrypts and
  sends them. \<^verbatim>\<open>udp/rtc_stream_mgr.cpp\<close> links publishers and subscribers. The part of WebRTC copied
  into \<^verbatim>\<open>rtc_base\<close> supplies buffers, checksums, digests, addresses, text functions and random
  identifiers.

  \<^bold>\<open>The theories,\<close> bottom up.
  \<^item> \<open>SfuBase\<close>: machine types, the faults a C++ run can end in (\<open>fault + 'a\<close>, so that every crash is
    a value), \<^verbatim>\<open>std::string\<close> and \<^verbatim>\<open>std::unordered_map\<close>, and the lemmas the components share.
  \<^item> \<open>ByteOrder\<close>, \<open>RtcBuffer\<close>, \<open>ByteBuffer\<close>, \<open>Queues\<close>: \<^verbatim>\<open>rtc_base/byte_order.h\<close>, \<^verbatim>\<open>buffer.h\<close>,
    \<^verbatim>\<open>byte_buffer\<close>, \<^verbatim>\<open>buffer_queue\<close>, and \<^verbatim>\<open>utils/threadqueue.hpp\<close> as steps under its mutex. Locales:
    \<open>append_buffer\<close> and its extension \<open>byte_writer\<close> (a buffer that grows), \<open>codec\<close> (a field that is
    read back), \<open>bounded_fifo\<close> (interpreted on both queues).
  \<^item> \<open>Crc\<close>, \<open>StringEncode\<close>, \<open>Base64\<close>, \<open>Digest\<close>, \<open>Sutil\<close>, \<open>RandomIds\<close>: the two CRCs against the polynomial
    division, hexadecimal text and splitting, base64 (\<^verbatim>\<open>rtc_base/base64/base64.cc\<close>), HMAC against RFC 2104 and certificate fingerprints,
    \<^verbatim>\<open>utils/sutil.cpp\<close>, and \<^verbatim>\<open>rtc_base/helpers.cc\<close>.
  \<^item> \<open>IpAddr\<close>, \<open>SockAddr\<close>: \<^verbatim>\<open>rtc_base/ip_address.cc\<close>, \<^verbatim>\<open>rtc_base/socket_address.cc\<close> and
    \<^verbatim>\<open>sdp/ice_candidate.cpp\<close>; addresses are an instance of \<open>linorder\<close>.
  \<^item> \<open>CryptoSuites\<close>, \<open>Stun\<close>, \<open>Dtls\<close>, \<open>SslStream\<close>: \<^verbatim>\<open>api/crypto/crypto_options.cc\<close> with the suites of
    \<^verbatim>\<open>rtc_base/ssl_stream_adapter.cc\<close>, \<^verbatim>\<open>udp/stun.cpp\<close>, \<^verbatim>\<open>udp/rtc_dtls.cpp\<close>, and the state machine of
    \<^verbatim>\<open>rtc_base/openssl_stream_adapter.cc\<close> (with the certificate digest of
    \<^verbatim>\<open>rtc_base/openssl_certificate.cc\<close>), which is the adapter the connection of \<open>Dtls\<close> runs on:
    \<open>Dtls\<close> is written over any \<open>adapter\<close>, \<open>openssl_adapter\<close> is the one of the code.
  \<^item> \<open>Srtp\<close>: the three files of the media plane, \<^verbatim>\<open>udp/srtp_session.cpp\<close>, \<^verbatim>\<open>udp/srtp_transport.cpp\<close>
    and \<^verbatim>\<open>udp/rtc_stream_mgr.cpp\<close>. \<open>srtp_world\<close> is the heap of transports and bound sockets: a subscriber is a
    reference into it, and using a deleted socket is the fault \<open>StalePointer\<close>. The locale
    \<open>packet_handler\<close> is what a loop over subscribers needs from one of them.
  \<^item> \<open>RtpRtcp\<close>, \<open>PortMgr\<close>, \<open>Sdp\<close>: \<^verbatim>\<open>rtprtcp/rtprtcp_pub.hpp\<close>, \<^verbatim>\<open>signaling/port_mgr.cpp\<close> (locale
    \<open>pool\<close>: a multiset of free resources), \<^verbatim>\<open>sdp/session_description.cpp\<close>.
  \<^item> \<open>Members\<close>: \<^verbatim>\<open>udp/ice_connection.cpp\<close>, \<^verbatim>\<open>udp/udp_receiver.cpp\<close>, \<^verbatim>\<open>signaling/room_member.cpp\<close>.
  \<^item> \<open>Signaling\<close>: \<^verbatim>\<open>signaling/signaling_handle.cpp\<close>, \<^verbatim>\<open>signaling/wss_server.cpp\<close>, \<^verbatim>\<open>juan_sfu.cpp\<close>. The
    record \<open>server\<close> is the whole state of the process: rooms, connections, port pool, stream
    manager, media plane, random source.
  \<^item> \<open>ThreadMgr\<close>: the \<^verbatim>\<open>ThreadManager\<close> of \<^verbatim>\<open>rtc_base/thread.cc\<close>, the list of message queues and the graph of
    sends, whose search for loops ends because the graph stays acyclic.

  \<^bold>\<open>State and code.\<close> A class is a record whose fields carry the name of the member with a short
  prefix (\<open>pm_curr\<close> is \<^verbatim>\<open>UdpPortManager::_curr\<close>), a method is a function that returns the changed
  record, a pointer that can be null is an \<open>option\<close>, a map whose order the code does not fix is an
  association list, integers keep their width as words where the code can wrap. A send on a
  socket is a value in the list of sends a method returns.

  \<^bold>\<open>What the lemmas show.\<close> For each component: what each operation does on every branch, the
  invariant its operations keep, and a contract that the components above it use. The properties
  of the whole server rest on them: \<open>server_ok\<close> (every member is stored under its user id,
  every reference is allocated) holds in every state reachable by \<open>server_step\<close>, whatever the
  browsers send; the ports held by members and the free ports stay disjoint and add up
  (\<open>ports_inv\<close>); receiving a datagram changes the media plane only by \<open>media_step\<close>s, so that
  \<open>media_ok\<close> holds; a decrypted packet reaches every subscriber once. Behaviour of the code that
  is not what it means to do is stated as a theorem too, with the input that shows it.

  \<^bold>\<open>Loops.\<close> \<open>parse_attri_loop\<close> carries the code's own limit of 20 rounds. \<open>split_loop\<close>,
  \<open>read_loop\<close>, \<open>nonzero_loop\<close> and \<open>targets_loop\<close> may run for ever in the code; they are
  \<^theory_text>\<open>partial_function\<close>s, and theorems say when they return; \<open>FlushInput\<close> is one too, and a flush that does
  not end is the fault \<open>Diverges\<close>. All other loops are structural or have a termination proof;
  no fuel is used.

  \<^bold>\<open>Parameters.\<close> Code outside the repository is an argument: the digests of OpenSSL (\<open>evp\<close>), its
  DTLS engine (\<open>ssl_lib\<close>: a call of the library is an \<open>ssl_call\<close>, a tree of the callbacks it makes,
  BIO reads and writes and the verification of a certificate, that ends in the call's result; the
  hypothesis \<open>engine_law\<close> says of connections whose settings demand a certificate, and of no others,
  that the end of a handshake needs an accepted one; no property assumes which questions the engine
  asks the BIO), libsrtp (\<open>srtp_lib\<close>), the socket
  library of uvcore with the JSON reader and the iteration order of hash maps (\<open>env\<close>, \<open>senv\<close>), the
  IPv6 text of the C library, the certificate's fingerprint, the random bytes. Where a property
  needs a law of such code it is a hypothesis of the property, and a witness instantiates it.

  \<^bold>\<open>Not modelled.\<close> The copied WebRTC files the server does not use on its way from a datagram to a
  datagram: task queues and socket servers (the event loop is uvcore's), the TLS socket adapter
  and the wrappers of OpenSSL objects, operating system clocks, logging and tracing. The start and stop of the
  threads in \<^verbatim>\<open>juan_sfu.cpp\<close> and \<^verbatim>\<open>main.cpp\<close>, and the creation of the certificate in
  \<^verbatim>\<open>utils/global.cpp\<close>, only call into libraries. \<^verbatim>\<open>ReadBytes\<close>-style pointer arithmetic is modelled on
  lists, so that only the accesses that can leave their object are faults.
\<close>

end
